(* ===== verification/Utf8.thy ===== *)
theory Utf8
  imports Main
begin

text \<open>
  Go strings are byte sequences; a \<open>char\<close> of the model is a byte. This theory has the part of
  \<open>unicode/utf8\<close> the program depends on through its libraries: how a string is cut into runes (a
  well-formed encoding, or a single byte that starts none), which strings are valid UTF-8, what
  \<open>encoding/json\<close> writes for a string (every byte that is not part of a rune becomes U+FFFD), and
  which runes are white space.
\<close>

section \<open>Cutting a string into runes\<close>

definition in_byte :: "nat \<times> nat \<Rightarrow> char \<Rightarrow> bool" where
  "in_byte r c \<longleftrightarrow> fst r \<le> of_char c \<and> of_char c \<le> snd r"

text \<open>The ranges of the bytes that follow a first byte, \<open>None\<close> if no rune starts with it.\<close>

definition tail_ranges :: "char \<Rightarrow> (nat \<times> nat) list option" where
  "tail_ranges c =
     (if in_byte (0x00, 0x7F) c then Some []
      else if in_byte (0xC2, 0xDF) c then Some [(0x80, 0xBF)]
      else if in_byte (0xE0, 0xE0) c then Some [(0xA0, 0xBF), (0x80, 0xBF)]
      else if in_byte (0xED, 0xED) c then Some [(0x80, 0x9F), (0x80, 0xBF)]
      else if in_byte (0xE1, 0xEF) c then Some [(0x80, 0xBF), (0x80, 0xBF)]
      else if in_byte (0xF0, 0xF0) c then Some [(0x90, 0xBF), (0x80, 0xBF), (0x80, 0xBF)]
      else if in_byte (0xF1, 0xF3) c then Some [(0x80, 0xBF), (0x80, 0xBF), (0x80, 0xBF)]
      else if in_byte (0xF4, 0xF4) c then Some [(0x80, 0x8F), (0x80, 0xBF), (0x80, 0xBF)]
      else None)"

fun tail_ok :: "(nat \<times> nat) list \<Rightarrow> string \<Rightarrow> bool" where
  "tail_ok [] s = True"
| "tail_ok (r # rs) [] = False"
| "tail_ok (r # rs) (c # s) \<longleftrightarrow> in_byte r c \<and> tail_ok rs s"

text \<open>The number of bytes of the rune at the front of a string, 0 if there is none.\<close>

fun rune_len :: "string \<Rightarrow> nat" where
  "rune_len [] = 0"
| "rune_len (c # s) =
     (case tail_ranges c of
        None \<Rightarrow> 0
      | Some rs \<Rightarrow> if tail_ok rs s then Suc (length rs) else 0)"

function runes :: "string \<Rightarrow> string list" where
  "runes [] = []"
| "runes (c # s) =
     (let n = rune_len (c # s) - 1 in (c # take n s) # runes (drop n s))"
  by pat_completeness auto
termination by (relation "measure length") auto

declare runes.simps(2) [simp del]

definition is_rune :: "string \<Rightarrow> bool" where
  "is_rune r \<longleftrightarrow> r \<noteq> [] \<and> rune_len r = length r"

definition valid_utf8 :: "string \<Rightarrow> bool" where
  "valid_utf8 s \<longleftrightarrow> list_all is_rune (runes s)"

text \<open>
  What comes back for a string after \<open>encoding/json\<close> has quoted it and unquoted it again: the
  quoting writes the escape of U+FFFD for a byte that is not part of a rune.
\<close>

definition replacement_char :: string where
  "replacement_char = [CHR 0xEF, CHR 0xBF, CHR 0xBD]"

definition json_string :: "string \<Rightarrow> string" where
  "json_string s = concat (map (\<lambda>r. if is_rune r then r else replacement_char) (runes s))"

text \<open>\<open>unicode.IsSpace\<close> on the encoding of a rune.\<close>

definition is_space :: "string \<Rightarrow> bool" where
  "is_space r =
     (case map of_char r :: nat list of
        [a] \<Rightarrow> a = 0x20 \<or> 0x09 \<le> a \<and> a \<le> 0x0D
      | [a, b] \<Rightarrow> a = 0xC2 \<and> (b = 0x85 \<or> b = 0xA0)
      | [a, b, c] \<Rightarrow>
          a = 0xE1 \<and> b = 0x9A \<and> c = 0x80
          \<or> a = 0xE2 \<and> b = 0x80 \<and> (0x80 \<le> c \<and> c \<le> 0x8A \<or> c = 0xA8 \<or> c = 0xA9 \<or> c = 0xAF)
          \<or> a = 0xE2 \<and> b = 0x81 \<and> c = 0x9F
          \<or> a = 0xE3 \<and> b = 0x80 \<and> c = 0x80
      | _ \<Rightarrow> False)"

section \<open>Runes of a concatenation\<close>

lemma tail_ok_append: "tail_ok rs s \<Longrightarrow> tail_ok rs (s @ t)"
  by (induction rs s rule: tail_ok.induct) simp_all

lemma tail_ok_take: "tail_ok rs s \<Longrightarrow> length rs \<le> n \<Longrightarrow> tail_ok rs (take n s)"
  by (induction rs s arbitrary: n rule: tail_ok.induct) (auto simp: take_Cons split: nat.splits)

lemma tail_ok_length: "tail_ok rs s \<Longrightarrow> length rs \<le> length s"
  by (induction rs s rule: tail_ok.induct) simp_all

lemma rune_len_le: "rune_len s \<le> length s"
  by (cases s) (auto dest: tail_ok_length split: option.splits)

lemma is_rune_front:
  assumes "is_rune r"
  shows "rune_len (r @ s) = length r"
  using assms by (cases r) (auto simp: is_rune_def tail_ok_append split: option.splits if_splits)

lemma runes_Cons_rune:
  assumes "is_rune r"
  shows "runes (r @ s) = r # runes s"
  using assms is_rune_front [OF assms, of s]
  by (cases r) (simp_all add: is_rune_def runes.simps(2) del: rune_len.simps)

lemma runes_concat: "list_all is_rune rs \<Longrightarrow> runes (concat rs @ s) = rs @ runes s"
  by (induction rs) (simp_all add: runes_Cons_rune)

lemma concat_runes [simp]: "concat (runes s) = s"
  by (induction s rule: runes.induct) (simp_all add: runes.simps(2) Let_def del: rune_len.simps)

lemma runes_not_Nil: "r \<in> set (runes s) \<Longrightarrow> r \<noteq> []"
  by (induction s rule: runes.induct) (auto simp: runes.simps(2) Let_def simp del: rune_len.simps)

lemma runes_append: "valid_utf8 s \<Longrightarrow> runes (s @ t) = runes s @ runes t"
  using runes_concat [of "runes s" t] by (simp add: valid_utf8_def)

lemma valid_utf8_append: "valid_utf8 s \<Longrightarrow> valid_utf8 t \<Longrightarrow> valid_utf8 (s @ t)"
  by (simp add: valid_utf8_def runes_append)

lemma length_runes_le: "length (runes s) \<le> length s"
proof (induction s rule: runes.induct)
  case (2 c s)
  then show ?case
    using le_trans [of "length (runes (drop (rune_len (c # s) - 1) s))"
        "length (drop (rune_len (c # s) - 1) s)" "length s"]
    by (simp add: runes.simps(2) Let_def del: rune_len.simps)
qed simp

lemma runes_eq_Nil [simp]: "runes s = [] \<longleftrightarrow> s = []"
  by (cases s) (simp_all add: runes.simps(2) Let_def)

section \<open>ASCII\<close>

definition is_ascii :: "char \<Rightarrow> bool" where
  "is_ascii c \<longleftrightarrow> (of_char c :: nat) < 128"

lemma is_rune_ascii [simp]: "is_ascii c \<Longrightarrow> is_rune [c]"
  by (simp add: is_ascii_def is_rune_def tail_ranges_def in_byte_def)

lemma runes_ascii_Cons: "is_ascii c \<Longrightarrow> runes (c # s) = [c] # runes s"
  using runes_Cons_rune [of "[c]" s] by simp

lemma runes_ascii: "list_all is_ascii s \<Longrightarrow> runes s = map (\<lambda>c. [c]) s"
  by (induction s) (simp_all add: runes_ascii_Cons)

lemma valid_utf8_ascii: "list_all is_ascii s \<Longrightarrow> valid_utf8 s"
  by (simp add: valid_utf8_def runes_ascii list_all_length)

section \<open>What JSON keeps of a string\<close>

lemma is_rune_replacement [simp]: "is_rune replacement_char"
  by (simp add: is_rune_def replacement_char_def tail_ranges_def in_byte_def)

lemma valid_json_string [simp]: "valid_utf8 (json_string s)"
  using runes_concat [of "map (\<lambda>r. if is_rune r then r else replacement_char) (runes s)" "[]"]
  by (simp add: json_string_def valid_utf8_def list_all_length)

lemma json_string_valid [simp]: "valid_utf8 s \<Longrightarrow> json_string s = s"
proof -
  assume "valid_utf8 s"
  then have "map (\<lambda>r. if is_rune r then r else replacement_char) (runes s) = runes s"
    by (simp add: valid_utf8_def list_all_iff map_idI)
  then show ?thesis by (simp add: json_string_def)
qed

lemma json_string_id_iff: "json_string s = s \<longleftrightarrow> valid_utf8 s"
  by (metis json_string_valid valid_json_string)

lemma json_string_Nil [simp]: "json_string [] = []"
  by (simp add: json_string_def)

lemma json_string_eq_Nil [simp]: "json_string s = [] \<longleftrightarrow> s = []"
proof (cases s)
  case (Cons c t)
  then obtain r rs where "runes s = r # rs" by (cases "runes s") auto
  then have "r \<noteq> []" using runes_not_Nil [of r s] by simp
  with \<open>runes s = r # rs\<close> Cons show ?thesis
    by (auto simp: json_string_def replacement_char_def)
qed simp

end
