(* ===== verification/Prelude.thy ===== *)
theory Prelude
  imports Utf8 "HOL-Library.Word"
begin

text \<open>
  Shared vocabulary of the development: Go's error values and its three ways of
  leaving a function (a value, an error, a panic), the time and duration types, the
  parts of Go's standard library the scheduler uses on strings and integers
  (\<open>strconv.Atoi\<close>, \<open>%d\<close>, \<open>strings.Fields\<close>, \<open>strings.Split\<close>, \<open>strings.TrimSpace\<close>,
  \<open>strings.HasPrefix\<close>, \<open>strings.Contains\<close>), and the lemma collections the component
  theories extend.
\<close>

named_theorems key_simps \<open>distinctness and injectivity of the Redis key families\<close>
named_theorems redis_frame \<open>what a Redis command leaves unchanged\<close>
named_theorems res_simps \<open>results of Go calls\<close>

section \<open>Errors and results\<close>

text \<open>
  One constructor per sentinel of the \<open>errors.New\<close> blocks in \<open>internal/models\<close>,
  \<open>internal/queue\<close>, \<open>internal/lock\<close> and \<open>internal/store\<close>, the sentinels of the
  libraries the code compares with (\<open>redis.Nil\<close>, \<open>pgx.ErrNoRows\<close>, the context
  errors), \<open>Opaque\<close> for any other error value that comes from outside, and
  \<open>Errorf\<close> for an error built by \<open>fmt.Errorf\<close> with its formatted text and the error
  it wraps with \<open>%w\<close>, if any.
\<close>

datatype go_error =
    ErrJobNotFound | ErrJobAlreadyCompleted | ErrInvalidJobType | ErrInvalidPriority
  | ErrInvalidCronExpression | ErrJobTimeout | ErrMaxRetriesExceeded
  | ErrQueueEmpty | ErrJobAlreadyExists | ErrRedisUnavailable
  | ErrLockHeld | ErrLockNotHeld | ErrLockTimeout
  | ErrNotFound | ErrConflict | ErrInvalidInput
  | RedisNil | ErrNoRows | ContextCanceled | DeadlineExceeded
  | Opaque string
  | Errorf string "go_error option"

fun error_text :: "go_error \<Rightarrow> string" where
  "error_text ErrJobNotFound = ''job not found''"
| "error_text ErrJobAlreadyCompleted = ''job already completed''"
| "error_text ErrInvalidJobType = ''invalid job type''"
| "error_text ErrInvalidPriority = ''priority must be between 0 and 9''"
| "error_text ErrInvalidCronExpression = ''invalid cron expression''"
| "error_text ErrJobTimeout = ''job execution timed out''"
| "error_text ErrMaxRetriesExceeded = ''maximum retry attempts exceeded''"
| "error_text ErrQueueEmpty = ''queue is empty''"
| "error_text ErrJobAlreadyExists = ''job already exists in queue''"
| "error_text ErrRedisUnavailable = ''redis unavailable''"
| "error_text ErrLockHeld = ''lock is already held''"
| "error_text ErrLockNotHeld = ''lock is not held by this process''"
| "error_text ErrLockTimeout = ''lock acquisition timed out''"
| "error_text ErrNotFound = ''record not found''"
| "error_text ErrConflict = ''record already exists''"
| "error_text ErrInvalidInput = ''invalid input''"
| "error_text RedisNil = ''redis: nil''"
| "error_text ErrNoRows = ''no rows in result set''"
| "error_text ContextCanceled = ''context canceled''"
| "error_text DeadlineExceeded = ''context deadline exceeded''"
| "error_text (Opaque s) = s"
| "error_text (Errorf s w) = s"

text \<open>\<open>fmt.Errorf("prefix: %w", err)\<close> and \<open>fmt.Errorf("text")\<close>.\<close>

definition wrapf :: "string \<Rightarrow> go_error \<Rightarrow> go_error" where
  "wrapf pre e = Errorf (pre @ error_text e) (Some e)"

definition errorf :: "string \<Rightarrow> go_error" where
  "errorf s = Errorf s None"

text \<open>\<open>errors.Is\<close>: the error itself or one it wraps.\<close>

fun errors_Is :: "go_error \<Rightarrow> go_error \<Rightarrow> bool" where
  "errors_Is (Errorf s (Some e)) t \<longleftrightarrow> Errorf s (Some e) = t \<or> errors_Is e t"
| "errors_Is e t \<longleftrightarrow> e = t"

text \<open>
  A Go function with results \<open>(T, error)\<close> returns a value or a non-nil error, or
  panics; a caller's \<open>err != nil\<close> test does not see a panic.
\<close>

datatype 'a res = Ret 'a | Err go_error | Panic string

fun bind_res :: "'a res \<Rightarrow> ('a \<Rightarrow> 'b res) \<Rightarrow> 'b res" where
  "bind_res (Ret x) f = f x"
| "bind_res (Err e) f = Err e"
| "bind_res (Panic s) f = Panic s"

fun map_err :: "(go_error \<Rightarrow> go_error) \<Rightarrow> 'a res \<Rightarrow> 'a res" where
  "map_err g (Ret x) = Ret x"
| "map_err g (Err e) = Err (g e)"
| "map_err g (Panic s) = Panic s"

fun is_Ret :: "'a res \<Rightarrow> bool" where
  "is_Ret (Ret x) = True"
| "is_Ret (Err e) = False"
| "is_Ret (Panic s) = False"

section \<open>Time\<close>

text \<open>
  A \<open>time.Time\<close> is the number of nanoseconds since the Unix epoch, in UTC; a
  \<open>time.Duration\<close> is a signed 64-bit number of nanoseconds, so its arithmetic wraps.
  \<open>UnixMilli\<close> rounds towards minus infinity; \<open>Duration.Milliseconds\<close> truncates;
  \<open>Time.Sub\<close> saturates at the bounds of \<open>time.Duration\<close>.
\<close>

type_synonym go_time = int
type_synonym duration = "64 word"

definition nanosecond :: int where "nanosecond = 1"
definition millisecond :: duration where "millisecond = 1000000"
definition second :: duration where "second = 1000000000"
definition minute :: duration where "minute = 60000000000"
definition hour :: duration where "hour = 3600000000000"

definition time_Add :: "go_time \<Rightarrow> duration \<Rightarrow> go_time" where
  "time_Add t d = t + sint d"

definition UnixMilli :: "go_time \<Rightarrow> int" where
  "UnixMilli t = t div 1000000"

definition go_quot :: "int \<Rightarrow> int \<Rightarrow> int" where
  "go_quot a b = sgn a * sgn b * (\<bar>a\<bar> div \<bar>b\<bar>)"

definition go_rem :: "int \<Rightarrow> int \<Rightarrow> int" where
  "go_rem a b = sgn a * (\<bar>a\<bar> mod \<bar>b\<bar>)"

definition Milliseconds :: "duration \<Rightarrow> int" where
  "Milliseconds d = go_quot (sint d) 1000000"

definition max_int64 :: int where "max_int64 = 2 ^ 63 - 1"
definition min_int64 :: int where "min_int64 = - (2 ^ 63)"

definition time_Sub :: "go_time \<Rightarrow> go_time \<Rightarrow> int" where
  "time_Sub t u = max min_int64 (min max_int64 (t - u))"

text \<open>A Go \<open>int\<close> has 64 bits: what an increment past the end becomes.\<close>

definition go_int :: "int \<Rightarrow> int" where
  "go_int i = (i + 2 ^ 63) mod 2 ^ 64 - 2 ^ 63"

text \<open>The zero \<open>time.Time\<close> is the start of year 1.\<close>

definition zero_time :: go_time where
  "zero_time = - 62135596800 * 1000000000"

section \<open>Strings and integers\<close>

definition digit_char :: "nat \<Rightarrow> char" where
  "digit_char n = char_of (48 + n)"

fun show_nat :: "nat \<Rightarrow> string" where
  "show_nat n = (if n < 10 then [digit_char n] else show_nat (n div 10) @ [digit_char (n mod 10)])"

declare show_nat.simps [simp del]

text \<open>\<open>fmt.Sprintf("%d", i)\<close>.\<close>

definition show_int :: "int \<Rightarrow> string" where
  "show_int i = (if i < 0 then CHR ''-'' # show_nat (nat (- i)) else show_nat (nat i))"

definition is_digit :: "char \<Rightarrow> bool" where
  "is_digit c \<longleftrightarrow> 48 \<le> (of_char c :: nat) \<and> (of_char c :: nat) \<le> 57"

definition digit_val :: "char \<Rightarrow> int" where
  "digit_val c = int (of_char c) - 48"

definition digits_val :: "string \<Rightarrow> int" where
  "digits_val s = foldl (\<lambda>a c. 10 * a + digit_val c) 0 s"

text \<open>
  \<open>strconv.Atoi\<close>: an optional sign, then decimal digits only, in the range of a
  64-bit \<open>int\<close>; \<open>None\<close> is its error.
\<close>

definition parse_digits :: "string \<Rightarrow> int option" where
  "parse_digits s = (if s \<noteq> [] \<and> list_all is_digit s then Some (digits_val s) else None)"

definition in_int64 :: "int \<Rightarrow> bool" where
  "in_int64 i \<longleftrightarrow> min_int64 \<le> i \<and> i \<le> max_int64"

definition parse_int :: "string \<Rightarrow> int option" where
  "parse_int s =
     (case s of
        [] \<Rightarrow> None
      | c # cs \<Rightarrow>
          if c = CHR ''-'' then map_option uminus (parse_digits cs)
          else if c = CHR ''+'' then parse_digits cs
          else parse_digits s)"

definition Atoi :: "string \<Rightarrow> int option" where
  "Atoi s = (case parse_int s of None \<Rightarrow> None | Some i \<Rightarrow> if in_int64 i then Some i else None)"

definition HasPrefix :: "string \<Rightarrow> string \<Rightarrow> bool" where
  "HasPrefix s p \<longleftrightarrow> take (length p) s = p"

text \<open>\<open>strings.Contains\<close> and \<open>strings.Split\<close> for a separator of one character.\<close>

definition Contains_char :: "string \<Rightarrow> char \<Rightarrow> bool" where
  "Contains_char s c \<longleftrightarrow> c \<in> set s"

fun Split_char :: "char \<Rightarrow> string \<Rightarrow> string list" where
  "Split_char sep [] = [[]]"
| "Split_char sep (c # cs) =
     (if c = sep then [] # Split_char sep cs
      else (case Split_char sep cs of [] \<Rightarrow> [[c]] | p # ps \<Rightarrow> (c # p) # ps))"

text \<open>\<open>strings.TrimSpace\<close>, rune by rune.\<close>

definition TrimSpace :: "string \<Rightarrow> string" where
  "TrimSpace s = concat (rev (dropWhile is_space (rev (dropWhile is_space (runes s)))))"

text \<open>\<open>strings.Fields\<close>: the maximal runs of runes that are not white space.\<close>

fun Fields_acc :: "string list \<Rightarrow> string list \<Rightarrow> string list" where
  "Fields_acc acc [] = (if acc = [] then [] else [concat (rev acc)])"
| "Fields_acc acc (r # rs) =
     (if is_space r then (if acc = [] then Fields_acc [] rs else concat (rev acc) # Fields_acc [] rs)
      else Fields_acc (r # acc) rs)"

definition Fields :: "string \<Rightarrow> string list" where
  "Fields s = Fields_acc [] (runes s)"

section \<open>Facts about results\<close>

lemma bind_res_eq_Ret [res_simps]:
  "bind_res m f = Ret y \<longleftrightarrow> (\<exists>x. m = Ret x \<and> f x = Ret y)"
  by (cases m) auto

lemma bind_res_eq_Err [res_simps]:
  "bind_res m f = Err e \<longleftrightarrow> m = Err e \<or> (\<exists>x. m = Ret x \<and> f x = Err e)"
  by (cases m) auto

lemma map_err_eq_Ret [res_simps]: "map_err g m = Ret y \<longleftrightarrow> m = Ret y"
  by (cases m) auto

lemma is_Ret_iff: "is_Ret m \<longleftrightarrow> (\<exists>x. m = Ret x)"
  by (cases m) auto

lemma errors_Is_refl [simp]: "errors_Is e e"
proof (cases e)
  case (Errorf s w)
  then show ?thesis by (cases w) simp_all
qed simp_all

lemma errors_Is_wrapf [simp]:
  "errors_Is (wrapf s e) t \<longleftrightarrow> wrapf s e = t \<or> errors_Is e t"
  by (simp add: wrapf_def)

lemma wrapf_neq_sentinel [simp]:
  "wrapf s e \<noteq> ErrJobNotFound" "wrapf s e \<noteq> ErrQueueEmpty" "wrapf s e \<noteq> ErrLockHeld"
  "wrapf s e \<noteq> ErrLockNotHeld" "wrapf s e \<noteq> RedisNil" "wrapf s e \<noteq> ErrMaxRetriesExceeded"
  by (simp_all add: wrapf_def)

section \<open>Facts about integers and strings\<close>

lemma go_rem_eq_0_iff: "go_rem a b = 0 \<longleftrightarrow> b dvd a"
  by (auto simp: go_rem_def sgn_0_0 mod_eq_0_iff_dvd)

lemma is_digit_digit_char [simp]: "n < 10 \<Longrightarrow> is_digit (digit_char n)"
  by (simp add: is_digit_def digit_char_def)

lemma digit_val_digit_char [simp]: "n < 10 \<Longrightarrow> digit_val (digit_char n) = int n"
  by (simp add: digit_val_def digit_char_def)

lemma digits_val_snoc [simp]: "digits_val (s @ [c]) = 10 * digits_val s + digit_val c"
  by (simp add: digits_val_def)

lemma show_nat_not_Nil [simp]: "show_nat n \<noteq> []"
  by (subst show_nat.simps) simp

lemma show_nat_digits: "list_all is_digit (show_nat n)"
proof (induction n rule: show_nat.induct)
  case (1 n)
  then show ?case by (subst show_nat.simps) simp
qed

lemma digits_val_show_nat [simp]: "digits_val (show_nat n) = int n"
proof (induction n rule: show_nat.induct)
  case (1 n)
  show ?case
  proof (cases "n < 10")
    case True
    then show ?thesis
      by (subst show_nat.simps) (simp add: digits_val_def)
  next
    case False
    then have "digits_val (show_nat n) = 10 * int (n div 10) + int (n mod 10)"
      using 1 by (subst show_nat.simps) simp
    also have "\<dots> = int n"
      by (metis mult.commute div_mult_mod_eq of_nat_add of_nat_mult of_nat_numeral)
    finally show ?thesis .
  qed
qed

lemma is_ascii_digit: "is_digit c \<Longrightarrow> is_ascii c"
  by (simp add: is_digit_def is_ascii_def)

lemma show_nat_ascii: "list_all is_ascii (show_nat n)"
  using show_nat_digits [of n] by (simp add: list_all_iff is_ascii_digit)

lemma runes_show_nat: "runes (show_nat n) = map (\<lambda>c. [c]) (show_nat n)"
  by (simp add: runes_ascii show_nat_ascii)

lemma valid_show_nat [simp]: "valid_utf8 (show_nat n)"
  by (simp add: valid_utf8_ascii show_nat_ascii)

lemma parse_digits_show_nat [simp]: "parse_digits (show_nat n) = Some (int n)"
  by (simp add: parse_digits_def show_nat_digits)

lemma not_digit_minus [simp]: "\<not> is_digit (CHR ''-'')" "\<not> is_digit (CHR ''+'')"
  by (simp_all add: is_digit_def)

text \<open>Printing with \<open>%d\<close> and parsing with \<open>Atoi\<close> is a round trip on 64-bit values.\<close>

lemma parse_int_show_int [simp]: "parse_int (show_int i) = Some i"
proof (cases "i < 0")
  case True
  then show ?thesis by (simp add: parse_int_def show_int_def)
next
  case False
  obtain c cs where s: "show_nat (nat i) = c # cs"
    by (cases "show_nat (nat i)") auto
  then have "is_digit c"
    using show_nat_digits [of "nat i"] by simp
  then have "c \<noteq> CHR ''-''" "c \<noteq> CHR ''+''"
    by auto
  with False show ?thesis
    using parse_digits_show_nat [of "nat i"] by (simp add: parse_int_def show_int_def s)
qed

lemma Atoi_show_int: "in_int64 i \<Longrightarrow> Atoi (show_int i) = Some i"
  by (simp add: Atoi_def)

lemma show_nat_inject [simp]: "show_nat m = show_nat n \<longleftrightarrow> m = n"
  by (metis digits_val_show_nat of_nat_eq_iff)

lemma show_int_inject [simp]: "show_int i = show_int j \<longleftrightarrow> i = j"
proof
  assume eq: "show_int i = show_int j"
  have hd: "hd (show_nat n) \<noteq> CHR ''-''" for n
    using show_nat_digits [of n] not_digit_minus(1) show_nat_not_Nil [of n]
    by (cases "show_nat n") auto
  from eq hd [of "nat i"] hd [of "nat j"] show "i = j"
    by (auto simp: show_int_def split: if_splits dest: arg_cong [where f = hd])
qed simp

section \<open>Facts about durations\<close>

lemma go_int_id [simp]: "in_int64 i \<Longrightarrow> go_int i = i"
  by (simp add: go_int_def in_int64_def min_int64_def max_int64_def)

lemma sint_of_int64: "in_int64 k \<Longrightarrow> sint (of_int k :: 64 word) = k"
  by transfer (simp add: in_int64_def min_int64_def max_int64_def signed_take_bit_int_eq_self)

lemma in_int64_sint [simp]: "in_int64 (sint (w :: 64 word))"
  using sint_ge [of w] sint_lt [of w]
  by (simp add: in_int64_def min_int64_def max_int64_def)

lemma sint_times_shift:
  assumes "in_int64 (sint b * 2 ^ n)"
  shows "sint (b * push_bit n 1 :: 64 word) = sint b * 2 ^ n"
proof -
  have "b * push_bit n 1 = of_int (sint b * 2 ^ n)"
    by (simp add: push_bit_eq_mult)
  with assms show ?thesis by (metis sint_of_int64)
qed

lemma sint_plus_in:
  assumes "in_int64 (sint a + sint b)"
  shows "sint (a + b :: 64 word) = sint a + sint b"
proof -
  have "a + b = of_int (sint a + sint b)" by simp
  with assms show ?thesis by (metis sint_of_int64)
qed

lemma sint_times_in:
  assumes "in_int64 (sint a * sint b)"
  shows "sint (a * b :: 64 word) = sint a * sint b"
proof -
  have "a * b = of_int (sint a * sint b)" by simp
  with assms show ?thesis by (metis sint_of_int64)
qed

lemma sint_units [simp]:
  "sint millisecond = 1000000" "sint second = 1000000000"
  "sint minute = 60000000000" "sint hour = 3600000000000"
  by (simp_all add: millisecond_def second_def minute_def hour_def)

lemma UnixMilli_mono: "t \<le> u \<Longrightarrow> UnixMilli t \<le> UnixMilli u"
  by (simp add: UnixMilli_def zdiv_mono1)

end
