(* ===== verification/Job_Model.thy ===== *)
theory Job_Model
  imports Prelude
begin

text \<open>
  \<open>internal/models/job.go\<close>: job statuses and their transitions, the job record with its
  constructor, options and validation, retry times, worker heartbeats and the API's request
  and response records. A JSON document (\<open>json.RawMessage\<close>) is its syntax tree.
\<close>

section \<open>JSON documents and UUIDs\<close>

text \<open>
  The strings are the unquoted ones, so they are valid UTF-8 in a document that was read or written by
  \<open>encoding/json\<close>. Timestamps are kept as instants: their RFC 3339 text, which has the nanoseconds, is a matter of
  \<open>encoding/json\<close>.
  \<open>JNum\<close> is a number written as an integer; \<open>JDec m e\<close> is the number \<open>m / 10 ^ e\<close> written with a
  fraction or an exponent.
\<close>

datatype json =
    JNull | JBool bool | JNum int | JDec int nat | JStr string | JTime go_time
  | JArr "json list" | JObj "(string \<times> json) list"

text \<open>
  A \<open>uuid.UUID\<close> is 16 bytes. The functions of the \<open>uuid\<close> package are not part of the
  repository: they are a parameter.
\<close>

type_synonym uuid = "128 word"

record uuid_lib =
  u_String :: "uuid \<Rightarrow> string"
  u_Parse :: "string \<Rightarrow> uuid option"
  u_ID :: "uuid \<Rightarrow> 32 word"

section \<open>Job status\<close>

type_synonym JobStatus = string

abbreviation JobStatusPending :: JobStatus where "JobStatusPending \<equiv> ''pending''"
abbreviation JobStatusRunning :: JobStatus where "JobStatusRunning \<equiv> ''running''"
abbreviation JobStatusCompleted :: JobStatus where "JobStatusCompleted \<equiv> ''completed''"
abbreviation JobStatusFailed :: JobStatus where "JobStatusFailed \<equiv> ''failed''"
abbreviation JobStatusDeadLetter :: JobStatus where "JobStatusDeadLetter \<equiv> ''dead_letter''"
abbreviation JobStatusCancelled :: JobStatus where "JobStatusCancelled \<equiv> ''cancelled''"

definition IsTerminal :: "JobStatus \<Rightarrow> bool" where
  "IsTerminal s \<longleftrightarrow> s = JobStatusCompleted \<or> s = JobStatusDeadLetter \<or> s = JobStatusCancelled"

definition CanTransitionTo :: "JobStatus \<Rightarrow> JobStatus \<Rightarrow> bool" where
  "CanTransitionTo s target \<longleftrightarrow>
     (if IsTerminal s then False
      else if s = JobStatusPending then target = JobStatusRunning \<or> target = JobStatusCancelled
      else if s = JobStatusRunning then
        target = JobStatusCompleted \<or> target = JobStatusFailed \<or> target = JobStatusCancelled
      else if s = JobStatusFailed then target = JobStatusPending \<or> target = JobStatusDeadLetter
      else False)"

section \<open>Jobs\<close>

text \<open>A nil \<open>Payload\<close> is \<open>None\<close>; the \<open>*time.Time\<close> fields are options.\<close>

record Job =
  job_ID :: uuid
  job_Type :: string
  job_Payload :: "json option"
  job_Priority :: int
  job_Status :: JobStatus
  job_ScheduledAt :: go_time
  job_RetryCount :: int
  job_MaxRetries :: int
  job_Timeout :: int
  job_CronExpression :: string
  job_CronNextRun :: "go_time option"
  job_StartedAt :: "go_time option"
  job_CompletedAt :: "go_time option"
  job_WorkerID :: string
  job_ErrorMessage :: string
  job_CreatedAt :: go_time
  job_UpdatedAt :: go_time

definition Job_Validate :: "Job \<Rightarrow> go_error option" where
  "Job_Validate j =
     (if job_Type j = '''' then Some ErrInvalidJobType
      else if job_Priority j < 0 \<or> job_Priority j > 9 then Some ErrInvalidPriority
      else if job_MaxRetries j < 0 \<or> job_MaxRetries j > 20
        then Some (errorf ''max_retries must be between 0 and 20'')
      else if job_Timeout j \<le> 0 \<or> job_Timeout j > 3600000
        then Some (errorf ''timeout must be between 1 and 3600000 ms'')
      else None)"

definition IsRetryable :: "Job \<Rightarrow> bool" where
  "IsRetryable j \<longleftrightarrow> job_RetryCount j < job_MaxRetries j \<and> job_Status j = JobStatusFailed"

text \<open>
  \<open>NextRetryTime\<close>: \<open>1 << j.RetryCount\<close> is a shift of a 64-bit value, which panics for a
  negative count and is 0 from 64 on; the product with \<open>baseDelay\<close> wraps.
\<close>

definition NextRetryTime :: "uuid_lib \<Rightarrow> go_time \<Rightarrow> duration \<Rightarrow> Job \<Rightarrow> go_time res" where
  "NextRetryTime U now baseDelay j =
     (if job_RetryCount j < 0 then Panic ''negative shift amount''
      else
        let backoff = baseDelay * push_bit (nat (job_RetryCount j)) 1;
            jitter = ucast (u_ID U (job_ID j) mod 1000) * millisecond
        in Ret (time_Add now (backoff + jitter)))"

definition ExecutionTimeout :: "Job \<Rightarrow> duration" where
  "ExecutionTimeout j = of_int (job_Timeout j) * millisecond"

type_synonym JobOption = "Job \<Rightarrow> Job"

definition WithPriority :: "int \<Rightarrow> JobOption" where
  "WithPriority p j = j\<lparr>job_Priority := p\<rparr>"

definition WithMaxRetries :: "int \<Rightarrow> JobOption" where
  "WithMaxRetries n j = j\<lparr>job_MaxRetries := n\<rparr>"

definition WithTimeout :: "int \<Rightarrow> JobOption" where
  "WithTimeout ms j = j\<lparr>job_Timeout := ms\<rparr>"

definition WithScheduledAt :: "go_time \<Rightarrow> JobOption" where
  "WithScheduledAt t j = j\<lparr>job_ScheduledAt := t\<rparr>"

definition WithCron :: "string \<Rightarrow> JobOption" where
  "WithCron expr j = j\<lparr>job_CronExpression := expr\<rparr>"

text \<open>
  \<open>NewJob\<close>: \<open>uid\<close> is the result of \<open>uuid.New()\<close> and \<open>t1\<close>, \<open>t2\<close>, \<open>t3\<close> are the three
  readings of the clock.
\<close>

definition NewJob ::
  "uuid \<Rightarrow> go_time \<Rightarrow> go_time \<Rightarrow> go_time \<Rightarrow> string \<Rightarrow> json option \<Rightarrow> JobOption list \<Rightarrow> Job res" where
  "NewJob uid t1 t2 t3 jobType payload opts =
     (if jobType = '''' then Err ErrInvalidJobType
      else
        let job0 = \<lparr>job_ID = uid, job_Type = jobType, job_Payload = payload, job_Priority = 5,
              job_Status = JobStatusPending, job_ScheduledAt = t1, job_RetryCount = 0,
              job_MaxRetries = 3, job_Timeout = 30000, job_CronExpression = '''',
              job_CronNextRun = None, job_StartedAt = None, job_CompletedAt = None,
              job_WorkerID = '''', job_ErrorMessage = '''', job_CreatedAt = t2,
              job_UpdatedAt = t3\<rparr>;
            job = fold (\<lambda>opt j. opt j) opts job0
        in (case Job_Validate job of Some e \<Rightarrow> Err e | None \<Rightarrow> Ret job))"

section \<open>History, heartbeats, requests and responses\<close>

record JobHistory =
  h_ID :: int
  h_JobID :: uuid
  h_OldStatus :: "JobStatus option"
  h_NewStatus :: JobStatus
  h_WorkerID :: string
  h_ErrorMessage :: string
  h_Metadata :: json
  h_CreatedAt :: go_time

record WorkerHeartbeat =
  hb_WorkerID :: string
  hb_Hostname :: string
  hb_Concurrency :: int
  hb_ActiveJobs :: int
  hb_LastHeartbeat :: go_time
  hb_StartedAt :: go_time

definition IsStale :: "go_time \<Rightarrow> WorkerHeartbeat \<Rightarrow> duration \<Rightarrow> bool" where
  "IsStale now w threshold \<longleftrightarrow> time_Sub now (hb_LastHeartbeat w) > sint threshold"

record SubmitJobRequest =
  req_Type :: string
  req_Payload :: "json option"
  req_Priority :: int
  req_MaxRetries :: int
  req_Timeout :: int
  req_ScheduledAt :: "go_time option"
  req_Cron :: string

definition SubmitJobRequest_Validate :: "SubmitJobRequest \<Rightarrow> go_error option" where
  "SubmitJobRequest_Validate r =
     (if req_Type r = '''' then Some ErrInvalidJobType
      else if req_Priority r < 0 \<or> req_Priority r > 9 then Some ErrInvalidPriority
      else None)"

record JobResponse =
  resp_ID :: uuid
  resp_Status :: JobStatus
  resp_CreatedAt :: go_time

record JobStatusResponse =
  st_ID :: uuid
  st_Type :: string
  st_Status :: JobStatus
  st_Priority :: int
  st_RetryCount :: int
  st_MaxRetries :: int
  st_ScheduledAt :: go_time
  st_StartedAt :: "go_time option"
  st_CompletedAt :: "go_time option"
  st_WorkerID :: string
  st_ErrorMessage :: string
  st_Cron :: string

section \<open>Validation\<close>

lemma Job_Validate_None_iff:
  "Job_Validate j = None \<longleftrightarrow>
     job_Type j \<noteq> '''' \<and> 0 \<le> job_Priority j \<and> job_Priority j \<le> 9 \<and>
     0 \<le> job_MaxRetries j \<and> job_MaxRetries j \<le> 20 \<and>
     0 < job_Timeout j \<and> job_Timeout j \<le> 3600000"
  by (auto simp: Job_Validate_def)

lemmas job_option_defs =
  WithPriority_def WithMaxRetries_def WithTimeout_def WithScheduledAt_def WithCron_def

lemma NewJob_valid: "NewJob uid t1 t2 t3 ty pl opts = Ret j \<Longrightarrow> Job_Validate j = None"
  by (auto simp: NewJob_def Let_def split: if_splits option.splits)

lemma NewJob_not_Panic [simp]: "NewJob uid t1 t2 t3 ty pl opts \<noteq> Panic s"
  by (auto simp: NewJob_def Let_def split: option.splits)

text \<open>What the five constructors of \<open>JobOption\<close> leave alone.\<close>

definition job_core :: "Job \<Rightarrow> uuid \<times> string \<times> json option \<times> JobStatus \<times> int \<times> string \<times> go_time option" where
  "job_core j = (job_ID j, job_Type j, job_Payload j, job_Status j, job_RetryCount j,
     job_WorkerID j, job_CronNextRun j)"

definition harmless :: "JobOption \<Rightarrow> bool" where
  "harmless opt \<longleftrightarrow> (\<forall>j. job_core (opt j) = job_core j)"

lemma harmless_options [simp]:
  "harmless (WithPriority p)" "harmless (WithMaxRetries n)" "harmless (WithTimeout ms)"
  "harmless (WithScheduledAt t)" "harmless (WithCron e)"
  by (simp_all add: harmless_def job_core_def job_option_defs)

lemma fold_harmless:
  "list_all harmless opts \<Longrightarrow> job_core (fold (\<lambda>opt j. opt j) opts j) = job_core j"
  by (induction opts arbitrary: j) (auto simp: harmless_def)

lemma NewJob_fresh:
  assumes "NewJob uid t1 t2 t3 ty pl opts = Ret j" and "list_all harmless opts"
  shows "job_ID j = uid" "job_Type j = ty" "job_Payload j = pl" "job_Status j = JobStatusPending"
    "job_RetryCount j = 0" "job_WorkerID j = ''''" "job_CronNextRun j = None"
  using assms fold_harmless [OF assms(2)]
  by (auto simp: NewJob_def Let_def job_core_def split: if_splits option.splits)

section \<open>The lifecycle\<close>

lemma CanTransitionTo_iff:
  "CanTransitionTo s t \<longleftrightarrow>
     (s, t) \<in> {(JobStatusPending, JobStatusRunning), (JobStatusPending, JobStatusCancelled),
               (JobStatusRunning, JobStatusCompleted), (JobStatusRunning, JobStatusFailed),
               (JobStatusRunning, JobStatusCancelled), (JobStatusFailed, JobStatusPending),
               (JobStatusFailed, JobStatusDeadLetter)}"
  by (auto simp: CanTransitionTo_def IsTerminal_def)

text \<open>The statuses a job can reach from \<open>pending\<close> along allowed transitions.\<close>

inductive lifecycle :: "JobStatus \<Rightarrow> bool" where
  born: "lifecycle JobStatusPending"
| move: "lifecycle s \<Longrightarrow> CanTransitionTo s t \<Longrightarrow> lifecycle t"

lemma lifecycle_known:
  "lifecycle s \<Longrightarrow> s \<in> {JobStatusPending, JobStatusRunning, JobStatusCompleted, JobStatusFailed,
     JobStatusDeadLetter, JobStatusCancelled}"
  by (induction rule: lifecycle.induct) (auto simp: CanTransitionTo_iff)

lemma lifecycle_running: "lifecycle JobStatusRunning"
  by (rule lifecycle.move [OF lifecycle.born]) (simp add: CanTransitionTo_iff)

lemma lifecycle_failed: "lifecycle JobStatusFailed"
  by (rule lifecycle.move [OF lifecycle_running]) (simp add: CanTransitionTo_iff)

lemma lifecycle_final:
  "lifecycle JobStatusCompleted" "lifecycle JobStatusDeadLetter" "lifecycle JobStatusCancelled"
  by (auto intro: lifecycle.move [OF lifecycle_running] lifecycle.move [OF lifecycle_failed]
      simp: CanTransitionTo_iff)

lemma lifecycle_iff:
  "lifecycle s \<longleftrightarrow> s \<in> {JobStatusPending, JobStatusRunning, JobStatusCompleted, JobStatusFailed,
     JobStatusDeadLetter, JobStatusCancelled}"
proof
  show "s \<in> {JobStatusPending, JobStatusRunning, JobStatusCompleted, JobStatusFailed,
     JobStatusDeadLetter, JobStatusCancelled} \<Longrightarrow> lifecycle s"
    by (elim insertE emptyE)
      (simp_all only: lifecycle.born lifecycle_running lifecycle_failed lifecycle_final)
qed (rule lifecycle_known)

lemma exits:
  "\<exists>t. CanTransitionTo JobStatusPending t" "\<exists>t. CanTransitionTo JobStatusRunning t"
  "\<exists>t. CanTransitionTo JobStatusFailed t"
  by (rule exI [of _ JobStatusRunning], simp add: CanTransitionTo_def IsTerminal_def)
    (rule exI [of _ JobStatusFailed], simp add: CanTransitionTo_def IsTerminal_def,
     rule exI [of _ JobStatusPending], simp add: CanTransitionTo_def IsTerminal_def)

lemma terminal_iff: "lifecycle s \<and> (\<nexists>t. CanTransitionTo s t) \<longleftrightarrow> IsTerminal s"
proof
  assume "IsTerminal s"
  then have "s \<in> {JobStatusCompleted, JobStatusDeadLetter, JobStatusCancelled}"
    by (simp add: IsTerminal_def)
  then have "lifecycle s" unfolding lifecycle_iff by blast
  moreover have "\<not> CanTransitionTo s t" for t
    using \<open>IsTerminal s\<close> by (simp add: CanTransitionTo_def)
  ultimately show "lifecycle s \<and> (\<nexists>t. CanTransitionTo s t)" by blast
next
  assume l: "lifecycle s \<and> (\<nexists>t. CanTransitionTo s t)"
  then have "s = JobStatusPending \<or> s = JobStatusRunning \<or> s = JobStatusFailed \<or> IsTerminal s"
    unfolding lifecycle_iff IsTerminal_def insert_iff empty_iff by argo
  then show "IsTerminal s"
  proof (elim disjE)
    assume "s = JobStatusPending" with l exits(1) show ?thesis by simp
  next
    assume "s = JobStatusRunning" with l exits(2) show ?thesis by simp
  next
    assume "s = JobStatusFailed" with l exits(3) show ?thesis by simp
  qed
qed

section \<open>Retry times\<close>

lemma jitter_bounds:
  "0 \<le> sint (ucast (u mod 1000 :: 32 word) * millisecond :: 64 word)"
  "sint (ucast (u mod 1000 :: 32 word) * millisecond :: 64 word) \<le> 999000000"
proof -
  define k where "k = uint (u mod 1000)"
  have k: "0 \<le> k" "k \<le> 999"
    using word_mod_less_divisor [of "1000 :: 32 word" u] by (simp_all add: k_def word_less_def)
  have "ucast (u mod 1000) * millisecond = (of_int (k * 1000000) :: 64 word)"
    by (simp add: millisecond_def k_def unsigned_ucast_eq)
  moreover have "in_int64 (k * 1000000)"
    using k by (simp add: in_int64_def min_int64_def max_int64_def)
  ultimately have "sint (ucast (u mod 1000) * millisecond :: 64 word) = k * 1000000"
    by (simp only: sint_of_int64)
  with k show "0 \<le> sint (ucast (u mod 1000 :: 32 word) * millisecond :: 64 word)"
    "sint (ucast (u mod 1000 :: 32 word) * millisecond :: 64 word) \<le> 999000000"
    by simp_all
qed

lemma backoff_in_int64:
  assumes "0 \<le> b" "b \<le> 1000000000000" "n \<le> 20"
  shows "in_int64 (b * 2 ^ n)" "b * 2 ^ n \<le> 1048576000000000000"
proof -
  have "(2 :: int) ^ n \<le> 2 ^ 20" using assms(3) by (rule power_increasing) simp
  then have "b * 2 ^ n \<le> 1000000000000 * 2 ^ 20"
    using assms by (intro mult_mono) auto
  then show le: "b * 2 ^ n \<le> 1048576000000000000" by simp
  have "0 \<le> b * 2 ^ n" using assms(1) by simp
  with le show "in_int64 (b * 2 ^ n)"
    by (simp add: in_int64_def min_int64_def max_int64_def)
qed

text \<open>
  Up to 20 retries and with a base delay of at most a thousand seconds nothing wraps: the
  retry time is the exponential backoff plus less than a second of jitter.
\<close>

lemma NextRetryTime_bounds:
  assumes "0 \<le> job_RetryCount j" "job_RetryCount j \<le> 20"
    and "0 \<le> sint base" "sint base \<le> 1000000000000"
  obtains t where "NextRetryTime U now base j = Ret t"
    and "now + sint base * 2 ^ nat (job_RetryCount j) \<le> t"
    and "t < now + sint base * 2 ^ nat (job_RetryCount j) + 1000000000"
proof -
  let ?p = "sint base * 2 ^ nat (job_RetryCount j)"
  define b where "b = base * push_bit (nat (job_RetryCount j)) 1"
  define jt where "jt = (ucast (u_ID U (job_ID j) mod 1000) * millisecond :: duration)"
  have n: "nat (job_RetryCount j) \<le> 20" using assms(2) by simp
  note range = backoff_in_int64 [OF assms(3,4) n]
  have b: "sint b = ?p" unfolding b_def using range(1) by (rule sint_times_shift)
  have jt: "0 \<le> sint jt" "sint jt \<le> 999000000" unfolding jt_def by (rule jitter_bounds)+
  have "0 \<le> ?p" using assms(3) by simp
  then have "sint (b + jt) = sint b + sint jt"
    using range(2) jt by (intro sint_plus_in) (simp add: b in_int64_def min_int64_def max_int64_def)
  moreover have "NextRetryTime U now base j = Ret (time_Add now (b + jt))"
    using assms(1) by (simp add: NextRetryTime_def Let_def b_def jt_def)
  ultimately show ?thesis
    using that [of "time_Add now (b + jt)"] b jt by (simp add: time_Add_def)
qed

lemma ExecutionTimeout_valid:
  assumes "Job_Validate j = None"
  shows "sint (ExecutionTimeout j) = job_Timeout j * 1000000"
proof -
  have "ExecutionTimeout j = of_int (job_Timeout j * 1000000)"
    by (simp add: ExecutionTimeout_def millisecond_def)
  moreover have "in_int64 (job_Timeout j * 1000000)"
    using assms by (simp add: Job_Validate_None_iff in_int64_def min_int64_def max_int64_def)
  ultimately show ?thesis by (metis sint_of_int64)
qed

section \<open>Properties\<close>

text \<open>
  C30: A job built by \<open>NewJob\<close> from any options that touch only priority, retries, timeout, schedule
  or cron expression passes \<open>Validate\<close>, carries the given id, type and payload, and starts
  pending with no retries used, no worker and no next cron run.
\<close>

theorem NewJob_wellformed:
  assumes "NewJob uid t1 t2 t3 ty pl opts = Ret j" and "list_all harmless opts"
  shows "Job_Validate j = None \<and> job_ID j = uid \<and> job_Type j = ty \<and> job_Payload j = pl \<and>
    job_Status j = JobStatusPending \<and> job_RetryCount j = 0 \<and> job_WorkerID j = '''' \<and>
    job_CronNextRun j = None"
  using NewJob_valid [OF assms(1)] NewJob_fresh [OF assms] by simp

lemma NewJob_wellformed_witness:
  "\<exists>j. NewJob 7 0 1 2 ''send-email'' None [WithPriority 2, WithTimeout 1000] = Ret j \<and>
     Job_Validate j = None \<and> job_Status j = JobStatusPending \<and> job_RetryCount j = 0"
proof -
  obtain j where j: "NewJob 7 0 1 2 ''send-email'' None [WithPriority 2, WithTimeout 1000] = Ret j"
    by (simp add: NewJob_def Let_def Job_Validate_def job_option_defs)
  with NewJob_wellformed [OF j] show ?thesis by simp
qed

text \<open>
  Starting from \<open>pending\<close>, the allowed transitions reach exactly the six declared statuses;
  the reachable statuses with no way out are exactly those \<open>IsTerminal\<close> names, and the
  dead-letter status is entered only from \<open>failed\<close>.
\<close>

theorem lifecycle_statuses:
  "(lifecycle s \<longleftrightarrow> s \<in> {JobStatusPending, JobStatusRunning, JobStatusCompleted, JobStatusFailed,
      JobStatusDeadLetter, JobStatusCancelled}) \<and>
   (lifecycle s \<and> (\<nexists>t. CanTransitionTo s t) \<longleftrightarrow> IsTerminal s) \<and>
   (CanTransitionTo s JobStatusDeadLetter \<longleftrightarrow> s = JobStatusFailed)"
  using lifecycle_iff [of s] terminal_iff [of s] by (simp add: CanTransitionTo_iff)

text \<open>
  For the retry counts a valid job can have (at most 20) and a base delay of at most a
  thousand seconds, \<open>NextRetryTime\<close> does not overflow: it is now plus the base delay doubled
  once per retry, plus less than one second of jitter.
\<close>

theorem NextRetryTime_window:
  assumes "0 \<le> job_RetryCount j" "job_RetryCount j \<le> 20"
    and "0 \<le> sint base" "sint base \<le> 1000000000000"
  shows "\<exists>t. NextRetryTime U now base j = Ret t \<and>
    now + sint base * 2 ^ nat (job_RetryCount j) \<le> t \<and>
    t < now + sint base * 2 ^ nat (job_RetryCount j) + 1000000000"
  using NextRetryTime_bounds [OF assms, of U now] by blast

lemma NextRetryTime_window_witness:
  "\<exists>t. NextRetryTime \<lparr>u_String = \<lambda>u. '''', u_Parse = \<lambda>s. None, u_ID = \<lambda>u. 1234\<rparr> 100 (5 * second)
     (undefined\<lparr>job_RetryCount := 3\<rparr>) = Ret t \<and> 100 + 5000000000 * 8 \<le> t \<and> t < 100 + 41000000000"
  using NextRetryTime_window [of "undefined\<lparr>job_RetryCount := 3\<rparr>" "5 * second"
      "\<lparr>u_String = \<lambda>u. '''', u_Parse = \<lambda>s. None, u_ID = \<lambda>u. 1234\<rparr>" 100]
  by (simp add: second_def)

text \<open>
  Past the counts a valid job can have the backoff wraps: with the five seconds \<open>Nack\<close> and
  \<open>ReclaimOrphaned\<close> use, the 31st retry is scheduled in the past.
\<close>

theorem NextRetryTime_wraps:
  "\<exists>j t. job_RetryCount j = 31 \<and> NextRetryTime U now (5 * second) j = Ret t \<and> t < now"
proof -
  define j :: Job where "j = undefined\<lparr>job_RetryCount := 31\<rparr>"
  define jt where "jt = (ucast (u_ID U (job_ID j) mod 1000) * millisecond :: duration)"
  define b where "b = (5 * second * push_bit 31 1 :: duration)"
  have b: "sint b = - 7709325833709551616"
    by (simp add: b_def second_def)
  have jt: "0 \<le> sint jt" "sint jt \<le> 999000000" unfolding jt_def by (rule jitter_bounds)+
  have "sint (b + jt) = - 7709325833709551616 + sint jt"
    using jt by (subst sint_plus_in) (simp_all add: b in_int64_def min_int64_def max_int64_def)
  moreover have "NextRetryTime U now (5 * second) j = Ret (time_Add now (b + jt))"
    by (simp add: NextRetryTime_def Let_def j_def jt_def b_def)
  ultimately show ?thesis
    using jt by (intro exI [of _ j] exI [of _ "time_Add now (b + jt)"])
      (simp add: time_Add_def j_def)
qed

end
