(* ===== verification/Retry.thy ===== *)
theory Retry
  imports Job_Model
begin

text \<open>
  \<open>internal/retry/retry.go\<close>, first part: retry policies, the backoff computation, the
  retry engine's decision and the blocking executors. The circuit breaker is in the theory
  \<open>Circuit_Breaker\<close>.
\<close>

section \<open>Policies\<close>

record Policy =
  pol_MaxRetries :: int
  pol_BaseDelay :: duration
  pol_MaxDelay :: duration
  pol_MaxJitter :: duration
  pol_Retryable :: "(go_error \<Rightarrow> bool) option"

definition DefaultPolicy :: Policy where
  "DefaultPolicy = \<lparr>pol_MaxRetries = 3, pol_BaseDelay = 5 * second, pol_MaxDelay = 30 * minute,
     pol_MaxJitter = 1 * second, pol_Retryable = None\<rparr>"

definition AggressivePolicy :: Policy where
  "AggressivePolicy = \<lparr>pol_MaxRetries = 5, pol_BaseDelay = 1 * second, pol_MaxDelay = 5 * minute,
     pol_MaxJitter = 500 * millisecond, pol_Retryable = None\<rparr>"

definition ConservativePolicy :: Policy where
  "ConservativePolicy = \<lparr>pol_MaxRetries = 3, pol_BaseDelay = 1 * minute, pol_MaxDelay = 1 * hour,
     pol_MaxJitter = 10 * second, pol_Retryable = None\<rparr>"

definition DefaultPolicyForJob :: "string \<Rightarrow> Policy" where
  "DefaultPolicyForJob jobType =
     (case [''send-email'' \<mapsto> DefaultPolicy, ''process-payment'' \<mapsto> AggressivePolicy,
            ''generate-report'' \<mapsto> ConservativePolicy, ''webhook-call'' \<mapsto> AggressivePolicy] jobType of
        Some p \<Rightarrow> p
      | None \<Rightarrow> DefaultPolicy)"

section \<open>Backoff and the engine's decision\<close>

text \<open>
  \<open>rnd\<close> is the random source: \<open>rand.Int63n(n)\<close> is some value in \<open>[0, n)\<close>, here
  \<open>rnd mod n\<close>. The shift panics for a negative \<open>attempt\<close>; the product wraps.
\<close>

definition calculateBackoff :: "int \<Rightarrow> int \<Rightarrow> Policy \<Rightarrow> duration res" where
  "calculateBackoff rnd attempt policy =
     (if attempt < 0 then Panic ''negative shift amount''
      else
        let backoff = pol_BaseDelay policy * push_bit (nat attempt) 1;
            backoff = (if sint backoff > sint (pol_MaxDelay policy) then pol_MaxDelay policy
                       else backoff)
        in Ret (if sint (pol_MaxJitter policy) > 0
                then backoff + of_int (rnd mod sint (pol_MaxJitter policy))
                else backoff))"

definition not_retryable :: "Policy \<Rightarrow> go_error \<Rightarrow> bool" where
  "not_retryable policy err \<longleftrightarrow>
     (case pol_Retryable policy of None \<Rightarrow> False | Some f \<Rightarrow> \<not> f err)"

definition ShouldRetry :: "int \<Rightarrow> Job \<Rightarrow> go_error \<Rightarrow> Policy \<Rightarrow> duration res" where
  "ShouldRetry rnd job execErr policy =
     (if not_retryable policy execErr then Err (wrapf ''non-retryable error: '' execErr)
      else if job_RetryCount job \<ge> pol_MaxRetries policy then
        Err (Errorf (error_text ErrMaxRetriesExceeded @ '': retry_count='' @
               show_int (job_RetryCount job) @ '', max_retries='' @ show_int (pol_MaxRetries policy))
               (Some ErrMaxRetriesExceeded))
      else calculateBackoff rnd (job_RetryCount job) policy)"

section \<open>Executors\<close>

text \<open>
  The function that is retried acts on a state \<open>'s\<close>. \<open>ctxDone i\<close> says whether, in the
  \<open>select\<close> after attempt \<open>i\<close>, the context is cancelled (with error \<open>cerr\<close>) rather than
  the timer fires; \<open>rnd i\<close> is the random source there.
\<close>

definition exhausted :: "Policy \<Rightarrow> go_error option \<Rightarrow> go_error" where
  "exhausted policy lastErr =
     Errorf (''all '' @ show_int (pol_MaxRetries policy) @ '' retries exhausted: '' @
       (case lastErr of None \<Rightarrow> ''%!w(<nil>)'' | Some e \<Rightarrow> error_text e)) lastErr"

function Execute_loop ::
  "Policy \<Rightarrow> (int \<Rightarrow> bool) \<Rightarrow> go_error \<Rightarrow> (int \<Rightarrow> int) \<Rightarrow> ('s \<Rightarrow> unit res \<times> 's) \<Rightarrow>
   int \<Rightarrow> go_error option \<Rightarrow> 's \<Rightarrow> unit res \<times> 's" where
  "Execute_loop policy ctxDone cerr rnd fn attempt lastErr s =
     (if attempt \<le> pol_MaxRetries policy then
        (case fn s of
           (Ret u, s') \<Rightarrow> (Ret (), s')
         | (Panic p, s') \<Rightarrow> (Panic p, s')
         | (Err err, s') \<Rightarrow>
             if not_retryable policy err then
               (Err (wrapf (''non-retryable error on attempt '' @ show_int attempt @ '': '') err), s')
             else if attempt \<ge> pol_MaxRetries policy then (Err (exhausted policy (Some err)), s')
             else (case calculateBackoff (rnd attempt) attempt policy of
                     Panic p \<Rightarrow> (Panic p, s')
                   | Err e \<Rightarrow> (Err e, s')
                   | Ret delay \<Rightarrow>
                       if ctxDone attempt then (Err (wrapf ''context cancelled during retry: '' cerr), s')
                       else Execute_loop policy ctxDone cerr rnd fn (attempt + 1) (Some err) s'))
      else (Err (exhausted policy lastErr), s))"
  by pat_completeness auto
termination
  by (relation "measure (\<lambda>(policy, ctxDone, cerr, rnd, fn, attempt, lastErr, s).
        nat (pol_MaxRetries policy + 1 - attempt))") auto

declare Execute_loop.simps [simp del]

definition Execute ::
  "Policy \<Rightarrow> (int \<Rightarrow> bool) \<Rightarrow> go_error \<Rightarrow> (int \<Rightarrow> int) \<Rightarrow> ('s \<Rightarrow> unit res \<times> 's) \<Rightarrow> 's \<Rightarrow> unit res \<times> 's" where
  "Execute policy ctxDone cerr rnd fn s = Execute_loop policy ctxDone cerr rnd fn 0 None s"

function ExecuteWithResult_loop ::
  "Policy \<Rightarrow> (int \<Rightarrow> bool) \<Rightarrow> go_error \<Rightarrow> (int \<Rightarrow> int) \<Rightarrow> ('s \<Rightarrow> 'a res \<times> 's) \<Rightarrow>
   int \<Rightarrow> go_error option \<Rightarrow> 's \<Rightarrow> 'a res \<times> 's" where
  "ExecuteWithResult_loop policy ctxDone cerr rnd fn attempt lastErr s =
     (if attempt \<le> pol_MaxRetries policy then
        (case fn s of
           (Ret result, s') \<Rightarrow> (Ret result, s')
         | (Panic p, s') \<Rightarrow> (Panic p, s')
         | (Err err, s') \<Rightarrow>
             if not_retryable policy err then
               (Err (wrapf (''non-retryable error on attempt '' @ show_int attempt @ '': '') err), s')
             else if attempt \<ge> pol_MaxRetries policy then (Err (exhausted policy (Some err)), s')
             else (case calculateBackoff (rnd attempt) attempt policy of
                     Panic p \<Rightarrow> (Panic p, s')
                   | Err e \<Rightarrow> (Err e, s')
                   | Ret delay \<Rightarrow>
                       if ctxDone attempt then (Err (wrapf ''context cancelled during retry: '' cerr), s')
                       else ExecuteWithResult_loop policy ctxDone cerr rnd fn (attempt + 1) (Some err) s'))
      else (Err (exhausted policy lastErr), s))"
  by pat_completeness auto
termination
  by (relation "measure (\<lambda>(policy, ctxDone, cerr, rnd, fn, attempt, lastErr, s).
        nat (pol_MaxRetries policy + 1 - attempt))") auto

declare ExecuteWithResult_loop.simps [simp del]

definition ExecuteWithResult ::
  "Policy \<Rightarrow> (int \<Rightarrow> bool) \<Rightarrow> go_error \<Rightarrow> (int \<Rightarrow> int) \<Rightarrow> ('s \<Rightarrow> 'a res \<times> 's) \<Rightarrow> 's \<Rightarrow> 'a res \<times> 's" where
  "ExecuteWithResult policy ctxDone cerr rnd fn s =
     ExecuteWithResult_loop policy ctxDone cerr rnd fn 0 None s"

section \<open>Bounds of the backoff\<close>

lemmas policy_defs = DefaultPolicy_def AggressivePolicy_def ConservativePolicy_def

text \<open>The parameters of a policy for which no computation wraps.\<close>

definition tame_policy :: "Policy \<Rightarrow> bool" where
  "tame_policy p \<longleftrightarrow>
     0 < sint (pol_BaseDelay p) \<and> sint (pol_BaseDelay p) \<le> 1000000000000 \<and>
     sint (pol_BaseDelay p) \<le> sint (pol_MaxDelay p) \<and> sint (pol_MaxDelay p) \<le> 10 ^ 18 \<and>
     0 < sint (pol_MaxJitter p) \<and> sint (pol_MaxJitter p) \<le> 10 ^ 18 \<and> pol_MaxRetries p \<le> 20"

lemma tame_policies [simp]:
  "tame_policy DefaultPolicy" "tame_policy AggressivePolicy" "tame_policy ConservativePolicy"
  by (simp_all add: tame_policy_def policy_defs second_def minute_def hour_def millisecond_def)

lemma tame_DefaultPolicyForJob [simp]: "tame_policy (DefaultPolicyForJob ty)"
  by (simp add: DefaultPolicyForJob_def)

lemma calculateBackoff_tame:
  assumes "tame_policy p" "0 \<le> attempt" "attempt \<le> 20"
  obtains d where "calculateBackoff rnd attempt p = Ret d"
    and "min (sint (pol_BaseDelay p) * 2 ^ nat attempt) (sint (pol_MaxDelay p)) \<le> sint d"
    and "sint d < min (sint (pol_BaseDelay p) * 2 ^ nat attempt) (sint (pol_MaxDelay p))
           + sint (pol_MaxJitter p)"
proof -
  let ?e = "sint (pol_BaseDelay p) * 2 ^ nat attempt"
  let ?J = "sint (pol_MaxJitter p)"
  define b where "b = pol_BaseDelay p * push_bit (nat attempt) 1"
  define c where "c = (if sint b > sint (pol_MaxDelay p) then pol_MaxDelay p else b)"
  define k where "k = rnd mod ?J"
  have t: "0 < sint (pol_BaseDelay p)" "sint (pol_BaseDelay p) \<le> 1000000000000"
    "sint (pol_MaxDelay p) \<le> 10 ^ 18" "0 < ?J" "?J \<le> 10 ^ 18"
    "sint (pol_BaseDelay p) \<le> sint (pol_MaxDelay p)"
    using assms(1) by (auto simp: tame_policy_def)
  have n: "nat attempt \<le> 20" using assms(3) by simp
  have b: "sint b = ?e"
    unfolding b_def using backoff_in_int64(1) [OF _ t(2) n] t(1) by (intro sint_times_shift) simp
  then have c: "sint c = min ?e (sint (pol_MaxDelay p))" by (simp add: c_def)
  have k: "0 \<le> k" "k < ?J" using t(4) by (simp_all add: k_def)
  then have ki: "sint (of_int k :: duration) = k"
    using t(5) by (intro sint_of_int64) (simp add: in_int64_def min_int64_def max_int64_def)
  have "0 \<le> sint c" using t c by simp
  moreover have "sint c \<le> 10 ^ 18" using t c by simp
  ultimately have "sint (c + of_int k) = sint c + k"
    using k t(5) ki by (subst sint_plus_in) (simp_all add: in_int64_def min_int64_def max_int64_def)
  moreover have "calculateBackoff rnd attempt p = Ret (c + of_int k)"
    using assms(2) t(4) by (simp add: calculateBackoff_def Let_def b_def c_def k_def)
  ultimately show ?thesis using that [of "c + of_int k"] k c by simp
qed

section \<open>The executors' behaviour\<close>

lemma Execute_loop_eq_result_loop:
  "Execute_loop policy ctxDone cerr rnd fn attempt lastErr s =
     ExecuteWithResult_loop policy ctxDone cerr rnd fn attempt lastErr s"
proof (induction policy ctxDone cerr rnd fn attempt lastErr s rule: Execute_loop.induct)
  case (1 policy ctxDone cerr rnd fn attempt lastErr s)
  show ?case
    by (subst Execute_loop.simps, subst ExecuteWithResult_loop.simps)
      (auto simp: 1 split: prod.splits res.splits)
qed

text \<open>The result of the \<open>i\<close>-th call (from 0) of \<open>fn\<close>, and the state after \<open>i\<close> calls.\<close>

fun state_after :: "('s \<Rightarrow> 'a res \<times> 's) \<Rightarrow> nat \<Rightarrow> 's \<Rightarrow> 's" where
  "state_after fn 0 s = s"
| "state_after fn (Suc n) s = state_after fn n (snd (fn s))"

definition nth_call :: "('s \<Rightarrow> 'a res \<times> 's) \<Rightarrow> 's \<Rightarrow> nat \<Rightarrow> 'a res" where
  "nth_call fn s n = fst (fn (state_after fn n s))"

lemma nth_call_Suc: "nth_call fn s (Suc n) = nth_call fn (snd (fn s)) n"
  by (simp add: nth_call_def)

definition transient :: "Policy \<Rightarrow> 'a res \<Rightarrow> bool" where
  "transient policy r \<longleftrightarrow> (case r of Err e \<Rightarrow> \<not> not_retryable policy e | _ \<Rightarrow> False)"

lemma transientE:
  assumes "transient policy r"
  obtains e where "r = Err e" and "\<not> not_retryable policy e"
  using assms by (auto simp: transient_def split: res.splits)

lemma calculateBackoff_Ret: "0 \<le> attempt \<Longrightarrow> \<exists>d. calculateBackoff rnd attempt policy = Ret d"
  by (simp add: calculateBackoff_def Let_def)

lemma result_loop_Ret:
  assumes "attempt \<le> pol_MaxRetries policy" and "fst (fn s) = Ret x"
  shows "ExecuteWithResult_loop policy ctxDone cerr rnd fn attempt lastErr s = (Ret x, snd (fn s))"
  using assms by (cases "fn s") (simp add: ExecuteWithResult_loop.simps)

lemma result_loop_last:
  assumes "fst (fn s) = Err e" and "\<not> not_retryable policy e"
  shows "ExecuteWithResult_loop policy ctxDone cerr rnd fn (pol_MaxRetries policy) lastErr s =
    (Err (exhausted policy (Some e)), snd (fn s))"
  using assms by (cases "fn s") (simp add: ExecuteWithResult_loop.simps)

lemma result_loop_next:
  assumes "fst (fn s) = Err e" and "\<not> not_retryable policy e"
    and "attempt < pol_MaxRetries policy" and "\<not> ctxDone attempt"
    and "calculateBackoff (rnd attempt) attempt policy = Ret d"
  shows "ExecuteWithResult_loop policy ctxDone cerr rnd fn attempt lastErr s =
    ExecuteWithResult_loop policy ctxDone cerr rnd fn (attempt + 1) (Some e) (snd (fn s))"
  using assms by (cases "fn s") (simp add: ExecuteWithResult_loop.simps [of _ _ _ _ _ attempt])

lemma result_loop_cases:
  "snd (ExecuteWithResult_loop policy ctxDone cerr rnd fn attempt lastErr s) = s \<or>
   attempt \<le> pol_MaxRetries policy \<and>
     snd (ExecuteWithResult_loop policy ctxDone cerr rnd fn attempt lastErr s) = snd (fn s) \<or>
   (\<exists>e. attempt < pol_MaxRetries policy \<and>
      ExecuteWithResult_loop policy ctxDone cerr rnd fn attempt lastErr s =
      ExecuteWithResult_loop policy ctxDone cerr rnd fn (attempt + 1) (Some e) (snd (fn s)))"
proof (cases "fn s")
  case (Pair r s')
  define L where "L = ExecuteWithResult_loop policy ctxDone cerr rnd fn"
  note u = ExecuteWithResult_loop.simps [of policy ctxDone cerr rnd fn attempt lastErr s, folded L_def]
  show ?thesis
    unfolding L_def [symmetric]
    by (cases r; cases "calculateBackoff (rnd attempt) attempt policy") (auto simp: u Pair)
qed

lemma result_loop_step:
  assumes "transient policy (fst (fn s))" and "0 \<le> attempt" and "attempt < pol_MaxRetries policy"
    and "\<not> ctxDone attempt"
  shows "\<exists>e. ExecuteWithResult_loop policy ctxDone cerr rnd fn attempt lastErr s =
    ExecuteWithResult_loop policy ctxDone cerr rnd fn (attempt + 1) (Some e) (snd (fn s))"
proof -
  obtain e where e: "fst (fn s) = Err e" "\<not> not_retryable policy e"
    using assms(1) by (rule transientE)
  obtain d where d: "calculateBackoff (rnd attempt) attempt policy = Ret d"
    using calculateBackoff_Ret [OF assms(2)] by blast
  show ?thesis using result_loop_next [of fn s e policy attempt ctxDone rnd d] e assms(3,4) d by blast
qed

lemma result_loop_succeeds:
  assumes "\<And>i. i < n \<Longrightarrow> transient policy (nth_call fn s i)" and "nth_call fn s n = Ret x"
    and "0 \<le> attempt" and "attempt + int n \<le> pol_MaxRetries policy"
    and "\<And>i. attempt \<le> i \<Longrightarrow> i < attempt + int n \<Longrightarrow> \<not> ctxDone i"
  shows "ExecuteWithResult_loop policy ctxDone cerr rnd fn attempt lastErr s =
    (Ret x, state_after fn (Suc n) s)"
  using assms
proof (induction n arbitrary: attempt lastErr s)
  case 0
  from 0(2,4) show ?case using result_loop_Ret [of attempt policy fn s x] by (simp add: nth_call_def)
next
  case (Suc n)
  have "transient policy (fst (fn s))" using Suc.prems(1) [of 0] by (simp add: nth_call_def)
  moreover have "attempt < pol_MaxRetries policy" using Suc.prems(4) by simp
  moreover have "\<not> ctxDone attempt" using Suc.prems(5) [of attempt] by simp
  ultimately obtain e where
    "ExecuteWithResult_loop policy ctxDone cerr rnd fn attempt lastErr s =
      ExecuteWithResult_loop policy ctxDone cerr rnd fn (attempt + 1) (Some e) (snd (fn s))"
    using result_loop_step [of policy fn s attempt ctxDone cerr rnd lastErr] Suc.prems(3) by blast
  also have "\<dots> = (Ret x, state_after fn (Suc n) (snd (fn s)))"
  proof (rule Suc.IH)
    show "transient policy (nth_call fn (snd (fn s)) i)" if "i < n" for i
      using Suc.prems(1) [of "Suc i"] that by (simp add: nth_call_Suc)
  qed (use Suc.prems in \<open>simp_all add: nth_call_Suc\<close>)
  finally show ?case by simp
qed

lemma result_loop_exhausts:
  assumes "\<And>i. i \<le> n \<Longrightarrow> transient policy (nth_call fn s i)"
    and "0 \<le> attempt" and "attempt + int n = pol_MaxRetries policy"
    and "\<And>i. attempt \<le> i \<Longrightarrow> i < pol_MaxRetries policy \<Longrightarrow> \<not> ctxDone i"
  shows "\<exists>e. nth_call fn s n = Err e \<and>
    ExecuteWithResult_loop policy ctxDone cerr rnd fn attempt lastErr s =
      (Err (exhausted policy (Some e)), state_after fn (Suc n) s)"
  using assms
proof (induction n arbitrary: attempt lastErr s)
  case 0
  obtain e where "nth_call fn s 0 = Err e" "\<not> not_retryable policy e"
    using 0(1) [of 0] by (auto elim: transientE)
  moreover from 0(3) have "attempt = pol_MaxRetries policy" by simp
  ultimately show ?case using result_loop_last [of fn s e policy] by (simp add: nth_call_def)
next
  case (Suc n)
  have "transient policy (fst (fn s))" using Suc.prems(1) [of 0] by (simp add: nth_call_def)
  moreover have "attempt < pol_MaxRetries policy" using Suc.prems(3) by simp
  moreover have "\<not> ctxDone attempt" using Suc.prems(3,4) by simp
  ultimately obtain e where step:
    "ExecuteWithResult_loop policy ctxDone cerr rnd fn attempt lastErr s =
      ExecuteWithResult_loop policy ctxDone cerr rnd fn (attempt + 1) (Some e) (snd (fn s))"
    using result_loop_step [of policy fn s attempt ctxDone cerr rnd lastErr] Suc.prems(2) by blast
  have "\<exists>e'. nth_call fn (snd (fn s)) n = Err e' \<and>
    ExecuteWithResult_loop policy ctxDone cerr rnd fn (attempt + 1) (Some e) (snd (fn s)) =
      (Err (exhausted policy (Some e')), state_after fn (Suc n) (snd (fn s)))"
  proof (rule Suc.IH)
    show "transient policy (nth_call fn (snd (fn s)) i)" if "i \<le> n" for i
      using Suc.prems(1) [of "Suc i"] that by (simp add: nth_call_Suc)
  qed (use Suc.prems in simp_all)
  with step show ?case by (simp add: nth_call_Suc)
qed

text \<open>Whatever happens, at most \<open>MaxRetries + 1\<close> calls are made.\<close>

lemma result_loop_calls:
  "\<exists>n. int n \<le> max 0 (pol_MaxRetries policy + 1 - attempt) \<and>
     snd (ExecuteWithResult_loop policy ctxDone cerr rnd fn attempt lastErr s) = state_after fn n s"
proof (induction "nat (pol_MaxRetries policy + 1 - attempt)" arbitrary: attempt lastErr s
    rule: less_induct)
  case less
  show ?case
  proof -
    consider (none) "snd (ExecuteWithResult_loop policy ctxDone cerr rnd fn attempt lastErr s) = s"
      | (one) "attempt \<le> pol_MaxRetries policy"
        "snd (ExecuteWithResult_loop policy ctxDone cerr rnd fn attempt lastErr s) = snd (fn s)"
      | (again) e where "attempt < pol_MaxRetries policy"
        "ExecuteWithResult_loop policy ctxDone cerr rnd fn attempt lastErr s =
         ExecuteWithResult_loop policy ctxDone cerr rnd fn (attempt + 1) (Some e) (snd (fn s))"
      using result_loop_cases [of policy ctxDone cerr rnd fn attempt lastErr s] by blast
    then show ?thesis
    proof cases
    case none
    then show ?thesis by (intro exI [where x = 0]) simp
  next
    case one
    then show ?thesis by (intro exI [where x = "Suc 0"]) simp
  next
    case (again e)
    then obtain n where "int n \<le> max 0 (pol_MaxRetries policy + 1 - (attempt + 1))"
      "snd (ExecuteWithResult_loop policy ctxDone cerr rnd fn (attempt + 1) (Some e) (snd (fn s))) =
        state_after fn n (snd (fn s))"
      using less [of "attempt + 1" "Some e" "snd (fn s)"] by auto
    with again show ?thesis by (intro exI [where x = "Suc n"]) simp
  qed
  qed
qed

section \<open>Properties\<close>

text \<open>
  C34: For the policy of any job type, \<open>ShouldRetry\<close> returns a delay between the doubled base
  delay (capped at the maximum delay) and that plus the maximum jitter while retries are left,
  and an error wrapping \<open>ErrMaxRetriesExceeded\<close> once they are used up.
\<close>

theorem ShouldRetry_DefaultPolicyForJob:
  assumes "0 \<le> job_RetryCount job" and "p = DefaultPolicyForJob (job_Type job)"
  shows "if job_RetryCount job < pol_MaxRetries p
    then \<exists>d. ShouldRetry rnd job err p = Ret d \<and>
      min (sint (pol_BaseDelay p) * 2 ^ nat (job_RetryCount job)) (sint (pol_MaxDelay p)) \<le> sint d \<and>
      sint d < min (sint (pol_BaseDelay p) * 2 ^ nat (job_RetryCount job)) (sint (pol_MaxDelay p))
        + sint (pol_MaxJitter p)
    else \<exists>e. ShouldRetry rnd job err p = Err e \<and> errors_Is e ErrMaxRetriesExceeded"
proof -
  have tame: "tame_policy p" by (simp add: assms(2))
  have "pol_Retryable p = None"
    by (simp add: assms(2) DefaultPolicyForJob_def policy_defs)
  then have nr: "\<not> not_retryable p err" by (simp add: not_retryable_def)
  show ?thesis
  proof (cases "job_RetryCount job < pol_MaxRetries p")
    case True
    then have "job_RetryCount job \<le> 20" using tame by (simp add: tame_policy_def)
    from calculateBackoff_tame [OF tame assms(1) this, of rnd] True nr show ?thesis
      by (simp add: ShouldRetry_def) blast
  qed (simp add: ShouldRetry_def nr)
qed

lemma ShouldRetry_DefaultPolicyForJob_witness:
  "\<exists>d. ShouldRetry 77 (undefined\<lparr>job_Type := ''webhook-call'', job_RetryCount := 4\<rparr>)
         (Opaque ''boom'') AggressivePolicy = Ret d \<and> 16000000000 \<le> sint d \<and> sint d < 16500000000"
  using ShouldRetry_DefaultPolicyForJob
    [of "undefined\<lparr>job_Type := ''webhook-call'', job_RetryCount := 4\<rparr>" AggressivePolicy 77 "Opaque ''boom''"]
  by (simp add: DefaultPolicyForJob_def policy_defs second_def minute_def millisecond_def)

text \<open>The two copies of the retry loop, \<open>Execute\<close> and \<open>ExecuteWithResult\<close>, agree.\<close>

theorem Execute_eq_ExecuteWithResult:
  "Execute policy ctxDone cerr rnd fn s = ExecuteWithResult policy ctxDone cerr rnd fn s"
  by (simp add: Execute_def ExecuteWithResult_def Execute_loop_eq_result_loop)

text \<open>
  When the first \<open>n\<close> calls fail with retryable errors and the next one succeeds, with
  \<open>n\<close> not above \<open>MaxRetries\<close> and no cancellation, the executor returns that result after
  exactly \<open>n + 1\<close> calls.
\<close>

theorem ExecuteWithResult_first_success:
  assumes "\<And>i. i < n \<Longrightarrow> transient policy (nth_call fn s i)" and "nth_call fn s n = Ret x"
    and "int n \<le> pol_MaxRetries policy" and "\<And>i. 0 \<le> i \<Longrightarrow> i < int n \<Longrightarrow> \<not> ctxDone i"
  shows "ExecuteWithResult policy ctxDone cerr rnd fn s = (Ret x, state_after fn (Suc n) s)"
  using result_loop_succeeds [of n policy fn s x 0 ctxDone cerr rnd None] assms
  by (simp add: ExecuteWithResult_def)

definition flaky :: "nat \<Rightarrow> string res \<times> nat" where
  "flaky k = (if k < 2 then Err (Opaque ''try again'') else Ret ''done'', k + 1)"

text \<open>
  When every call fails with a retryable error and nothing cancels, the executor stops after
  exactly \<open>MaxRetries + 1\<close> calls with an error that wraps the last one.
\<close>

theorem ExecuteWithResult_exhausts:
  assumes "pol_MaxRetries policy = int n"
    and "\<And>i. i \<le> n \<Longrightarrow> transient policy (nth_call fn s i)" and "\<And>i. \<not> ctxDone i"
  shows "\<exists>e e'. ExecuteWithResult policy ctxDone cerr rnd fn s = (Err e, state_after fn (Suc n) s) \<and>
    nth_call fn s n = Err e' \<and> errors_Is e e'"
proof -
  obtain e' where e: "nth_call fn s n = Err e'"
    "ExecuteWithResult_loop policy ctxDone cerr rnd fn 0 None s =
      (Err (exhausted policy (Some e')), state_after fn (Suc n) s)"
    using result_loop_exhausts [of n policy fn s 0 ctxDone cerr rnd None] assms by auto
  then show ?thesis
    by (intro exI [of _ "exhausted policy (Some e')"] exI [of _ e'])
      (simp add: ExecuteWithResult_def exhausted_def)
qed

definition broken :: "nat \<Rightarrow> string res \<times> nat" where
  "broken k = (Err (Opaque ''down''), k + 1)"

text \<open>
  C13: the executor calls the function until it succeeds or the retries are used up. When the first
  \<open>n\<close> calls fail with retryable errors and nothing cancels, then a success of the next call, with \<open>n\<close> not
  above \<open>MaxRetries\<close>, is returned after exactly \<open>n + 1\<close> calls; and if \<open>n\<close> is \<open>MaxRetries + 1\<close>, there
  are no more than these \<open>n\<close> calls, and the error returned wraps the last one.
\<close>

theorem ExecuteWithResult_outcome:
  assumes "\<And>i. i < n \<Longrightarrow> transient policy (nth_call fn s i)" and "\<And>i. \<not> ctxDone i"
  shows "(nth_call fn s n = Ret x \<and> int n \<le> pol_MaxRetries policy \<longrightarrow>
      ExecuteWithResult policy ctxDone cerr rnd fn s = (Ret x, state_after fn (Suc n) s)) \<and>
    (0 < n \<and> pol_MaxRetries policy = int n - 1 \<longrightarrow>
      (\<exists>e e'. ExecuteWithResult policy ctxDone cerr rnd fn s = (Err e, state_after fn n s) \<and>
        nth_call fn s (n - 1) = Err e' \<and> errors_Is e e'))"
proof (intro conjI impI)
  assume "nth_call fn s n = Ret x \<and> int n \<le> pol_MaxRetries policy"
  then show "ExecuteWithResult policy ctxDone cerr rnd fn s = (Ret x, state_after fn (Suc n) s)"
    using assms by (intro ExecuteWithResult_first_success) auto
next
  assume n: "0 < n \<and> pol_MaxRetries policy = int n - 1"
  then obtain m where m: "n = Suc m" using gr0_conv_Suc by blast
  then have "pol_MaxRetries policy = int m" using n by simp
  from ExecuteWithResult_exhausts [OF this, of fn s ctxDone cerr rnd] assms m
  show "\<exists>e e'. ExecuteWithResult policy ctxDone cerr rnd fn s = (Err e, state_after fn n s) \<and>
      nth_call fn s (n - 1) = Err e' \<and> errors_Is e e'"
    by simp
qed

lemma ExecuteWithResult_outcome_witness:
  "ExecuteWithResult DefaultPolicy (\<lambda>i. False) ContextCanceled (\<lambda>i. 5) flaky 0 = (Ret ''done'', 3) \<and>
   (\<exists>e. ExecuteWithResult DefaultPolicy (\<lambda>i. False) ContextCanceled (\<lambda>i. 5) broken 0 = (Err e, 4))"
proof
  have "transient DefaultPolicy (nth_call flaky 0 i)" if "i < 2" for i
    using that by (cases i) (auto simp: nth_call_def transient_def flaky_def not_retryable_def
        policy_defs less_Suc_eq numeral_2_eq_2)
  moreover have "nth_call flaky 0 2 = Ret ''done''"
    by (simp add: nth_call_def flaky_def numeral_2_eq_2)
  ultimately show "ExecuteWithResult DefaultPolicy (\<lambda>i. False) ContextCanceled (\<lambda>i. 5) flaky 0 = (Ret ''done'', 3)"
    using ExecuteWithResult_outcome [of 2 DefaultPolicy flaky 0 "\<lambda>i. False" "''done''" ContextCanceled "\<lambda>i. 5"]
    by (simp add: policy_defs flaky_def numeral_2_eq_2)
  have "transient DefaultPolicy (nth_call broken 0 i)" for i
    by (simp add: nth_call_def transient_def broken_def not_retryable_def policy_defs)
  then show "\<exists>e. ExecuteWithResult DefaultPolicy (\<lambda>i. False) ContextCanceled (\<lambda>i. 5) broken 0 = (Err e, 4)"
    using ExecuteWithResult_outcome [of 4 DefaultPolicy broken 0 "\<lambda>i. False" "''''" ContextCanceled "\<lambda>i. 5"]
    by (auto simp: policy_defs broken_def eval_nat_numeral)
qed

text \<open>
  Whatever the function, the policy and the context do, the executor ends after at most
  \<open>MaxRetries + 1\<close> calls.
\<close>

theorem ExecuteWithResult_call_bound:
  "\<exists>n. int n \<le> max 0 (pol_MaxRetries policy + 1) \<and>
     snd (ExecuteWithResult policy ctxDone cerr rnd fn s) = state_after fn n s"
  using result_loop_calls [of policy 0 ctxDone cerr rnd fn None s] by (simp add: ExecuteWithResult_def)

end
