(* ===== verification/Circuit_Breaker.thy ===== *)
theory Circuit_Breaker
  imports Prelude
begin

text \<open>
  \<open>internal/retry/retry.go\<close>, second part: the circuit breaker as a state machine. The
  breaker's mutex is a channel of capacity one that every method tries without waiting;
  \<open>busy\<close> says that another goroutine holds it, in which case the method takes its
  \<open>default\<close> branch. The counter and the threshold are Go's \<open>int\<close>, 64 bits wide; a count past the end wraps.
\<close>

section \<open>State and operations\<close>

datatype CircuitState = CircuitClosed | CircuitOpen | CircuitHalfOpen

record CircuitBreaker =
  cb_failures :: "64 word"
  cb_threshold :: "64 word"
  cb_timeout :: duration
  cb_lastFailure :: go_time
  cb_state :: CircuitState

definition NewCircuitBreaker :: "64 word \<Rightarrow> duration \<Rightarrow> CircuitBreaker" where
  "NewCircuitBreaker threshold timeout =
     \<lparr>cb_failures = 0, cb_threshold = threshold, cb_timeout = timeout,
      cb_lastFailure = zero_time, cb_state = CircuitClosed\<rparr>"

definition Allow :: "bool \<Rightarrow> go_time \<Rightarrow> CircuitBreaker \<Rightarrow> bool \<times> CircuitBreaker" where
  "Allow busy now cb =
     (if busy then (False, cb)
      else (case cb_state cb of
              CircuitClosed \<Rightarrow> (True, cb)
            | CircuitOpen \<Rightarrow>
                if time_Sub now (cb_lastFailure cb) > sint (cb_timeout cb)
                then (True, cb\<lparr>cb_state := CircuitHalfOpen\<rparr>)
                else (False, cb)
            | CircuitHalfOpen \<Rightarrow> (True, cb)))"

definition RecordSuccess :: "bool \<Rightarrow> CircuitBreaker \<Rightarrow> CircuitBreaker" where
  "RecordSuccess busy cb =
     (if busy then cb
      else
        let cb = cb\<lparr>cb_failures := 0\<rparr>
        in if cb_state cb = CircuitHalfOpen then cb\<lparr>cb_state := CircuitClosed\<rparr> else cb)"

definition RecordFailure :: "bool \<Rightarrow> go_time \<Rightarrow> CircuitBreaker \<Rightarrow> CircuitBreaker" where
  "RecordFailure busy now cb =
     (if busy then cb
      else
        let cb = cb\<lparr>cb_failures := cb_failures cb + 1, cb_lastFailure := now\<rparr>
        in if sint (cb_failures cb) \<ge> sint (cb_threshold cb) \<and> cb_state cb \<noteq> CircuitOpen
           then cb\<lparr>cb_state := CircuitOpen\<rparr> else cb)"

definition State :: "bool \<Rightarrow> CircuitBreaker \<Rightarrow> CircuitState" where
  "State busy cb = (if busy then CircuitOpen else cb_state cb)"

text \<open>A use of the breaker: any sequence of method calls.\<close>

datatype cb_event = EvAllow bool go_time | EvSuccess bool | EvFailure bool go_time

fun cb_apply :: "cb_event \<Rightarrow> CircuitBreaker \<Rightarrow> CircuitBreaker" where
  "cb_apply (EvAllow busy now) cb = snd (Allow busy now cb)"
| "cb_apply (EvSuccess busy) cb = RecordSuccess busy cb"
| "cb_apply (EvFailure busy now) cb = RecordFailure busy now cb"

inductive cb_reach :: "64 word \<Rightarrow> duration \<Rightarrow> CircuitBreaker \<Rightarrow> bool" for threshold timeout where
  fresh: "cb_reach threshold timeout (NewCircuitBreaker threshold timeout)"
| call: "cb_reach threshold timeout cb \<Longrightarrow> cb_reach threshold timeout (cb_apply ev cb)"

lemmas cb_defs = Allow_def RecordSuccess_def RecordFailure_def Let_def

section \<open>Invariants\<close>

lemma cb_config [simp]:
  "cb_threshold (cb_apply ev cb) = cb_threshold cb" "cb_timeout (cb_apply ev cb) = cb_timeout cb"
  by (cases ev; simp add: cb_defs split: CircuitState.splits)+

lemma cb_reach_config:
  "cb_reach threshold timeout cb \<Longrightarrow> cb_threshold cb = threshold \<and> cb_timeout cb = timeout"
  by (induction rule: cb_reach.induct) (simp_all add: NewCircuitBreaker_def)

definition cb_inv :: "CircuitBreaker \<Rightarrow> bool" where
  "cb_inv cb \<longleftrightarrow> (cb_state cb = CircuitClosed \<longrightarrow> 0 \<le> sint (cb_failures cb) \<and> sint (cb_failures cb) < sint (cb_threshold cb))"

lemma sint_add_nat: "in_int64 (sint w + int n) \<Longrightarrow> sint (w + of_nat n :: 64 word) = sint w + int n"
  using sint_of_int64 [of "sint w + int n"] by simp

lemma sint_Suc: "sint w < sint (v :: 64 word) \<Longrightarrow> sint (w + 1 :: 64 word) = sint w + 1"
  using sint_add_nat [of w 1] in_int64_sint [of w] in_int64_sint [of v] by (simp add: in_int64_def)

lemma cb_inv_apply: "0 < sint (cb_threshold cb) \<Longrightarrow> cb_inv cb \<Longrightarrow> cb_inv (cb_apply ev cb)"
  using sint_Suc [of "cb_failures cb" "cb_threshold cb"]
  by (cases ev) (auto simp: cb_inv_def cb_defs split: CircuitState.splits)

lemma cb_reach_inv: "cb_reach threshold timeout cb \<Longrightarrow> 0 < sint threshold \<Longrightarrow> cb_inv cb"
proof (induction rule: cb_reach.induct)
  case fresh
  then show ?case by (simp add: cb_inv_def NewCircuitBreaker_def)
next
  case (call cb ev)
  then show ?case using cb_reach_config [OF call.hyps] by (intro cb_inv_apply) simp_all
qed

section \<open>Opening and closing\<close>

text \<open>Consecutive failures at the times \<open>ts\<close>, with the mutex free.\<close>

definition failures_at :: "go_time list \<Rightarrow> CircuitBreaker \<Rightarrow> CircuitBreaker" where
  "failures_at ts cb = fold (\<lambda>t. RecordFailure False t) ts cb"

lemma failures_at_count [simp]: "cb_failures (failures_at ts cb) = cb_failures cb + of_nat (length ts)"
  unfolding failures_at_def by (induction ts arbitrary: cb) (simp_all add: RecordFailure_def Let_def)

lemma failures_at_snoc:
  "failures_at (ts @ [t]) cb = RecordFailure False t (failures_at ts cb)"
  by (simp add: failures_at_def)

lemma failures_at_config [simp]: "cb_threshold (failures_at ts cb) = cb_threshold cb"
  unfolding failures_at_def by (induction ts arbitrary: cb) (simp_all add: RecordFailure_def Let_def)

lemma failures_at_state:
  assumes "cb_state cb = CircuitClosed" "0 \<le> sint (cb_failures cb)" "sint (cb_failures cb) < sint (cb_threshold cb)"
  shows "cb_state (failures_at ts cb) =
     (if sint (cb_threshold cb) \<le> sint (cb_failures cb) + int (length ts) then CircuitOpen else CircuitClosed)"
proof (induction ts rule: rev_induct)
  case Nil
  then show ?case using assms by (simp add: failures_at_def)
next
  case (snoc t ts)
  let ?n = "Suc (length ts)"
  show ?case
  proof (cases "sint (cb_threshold cb) \<le> sint (cb_failures cb) + int (length ts)")
    case True
    with snoc show ?thesis by (simp add: failures_at_snoc RecordFailure_def Let_def)
  next
    case False
    then have "in_int64 (sint (cb_failures cb) + int ?n)"
      using assms(2) in_int64_sint [of "cb_threshold cb"] by (auto simp: in_int64_def min_int64_def)
    from sint_add_nat [OF this] False snoc show ?thesis
      by (simp add: failures_at_snoc RecordFailure_def Let_def add_ac)
  qed
qed

text \<open>No event before \<open>t + timeout\<close> gets an open breaker out of the open state.\<close>

fun ev_within :: "go_time \<Rightarrow> go_time \<Rightarrow> cb_event \<Rightarrow> bool" where
  "ev_within lo hi (EvAllow busy now) \<longleftrightarrow> lo \<le> now \<and> now \<le> hi"
| "ev_within lo hi (EvSuccess busy) \<longleftrightarrow> True"
| "ev_within lo hi (EvFailure busy now) \<longleftrightarrow> lo \<le> now \<and> now \<le> hi"

lemma time_Sub_le: "t - u \<le> d \<Longrightarrow> min_int64 \<le> d \<Longrightarrow> time_Sub t u \<le> d"
  by (simp add: time_Sub_def)

lemma min_int64_le_sint [simp]: "min_int64 \<le> sint (w :: 64 word)"
  using in_int64_sint [of w] by (simp add: in_int64_def)

lemma cb_apply_open:
  assumes "cb_state cb = CircuitOpen" "lo \<le> cb_lastFailure cb"
    and "ev_within lo (lo + sint (cb_timeout cb)) ev"
  shows "cb_state (cb_apply ev cb) = CircuitOpen \<and> lo \<le> cb_lastFailure (cb_apply ev cb)"
proof (cases ev)
  case (EvAllow busy now)
  with assms have "time_Sub now (cb_lastFailure cb) \<le> sint (cb_timeout cb)"
    by (intro time_Sub_le) auto
  with assms EvAllow show ?thesis by (simp add: Allow_def)
qed (use assms in \<open>auto simp: cb_defs\<close>)

lemma fold_cb_apply_open:
  assumes "cb_state cb = CircuitOpen" "lo \<le> cb_lastFailure cb"
    and "list_all (ev_within lo (lo + sint (cb_timeout cb))) evs"
  shows "cb_state (fold cb_apply evs cb) = CircuitOpen"
  using assms
proof (induction evs arbitrary: cb)
  case (Cons ev evs)
  from Cons.prems have "cb_state (cb_apply ev cb) = CircuitOpen \<and> lo \<le> cb_lastFailure (cb_apply ev cb)"
    by (intro cb_apply_open) simp_all
  with Cons show ?case by simp
qed simp

section \<open>Properties\<close>

text \<open>
  In every state the breaker can reach with a positive threshold, its configuration is
  unchanged and it is closed only with fewer failures than the threshold; only an open or half-open breaker can have
  counted past the end of an \<open>int\<close>.
\<close>

theorem breaker_invariant:
  assumes "cb_reach threshold timeout cb" and "0 < sint threshold"
  shows "cb_threshold cb = threshold \<and> cb_timeout cb = timeout \<and>
    (cb_state cb = CircuitClosed \<longrightarrow> 0 \<le> sint (cb_failures cb) \<and> sint (cb_failures cb) < sint threshold)"
  using cb_reach_config [OF assms(1)] cb_reach_inv [OF assms] by (simp add: cb_inv_def)

lemma breaker_invariant_witness:
  "sint (cb_failures (cb_apply (EvFailure False 9) (NewCircuitBreaker 3 minute))) < 3"
proof -
  let ?cb = "cb_apply (EvFailure False 9) (NewCircuitBreaker 3 minute)"
  have "cb_reach 3 minute ?cb" by (intro cb_reach.intros)
  from breaker_invariant [OF this] show ?thesis
    by (simp add: RecordFailure_def NewCircuitBreaker_def)
qed

text \<open>
  C22: A fresh breaker with a positive threshold opens exactly when the number of consecutive failures reaches the
  threshold (and stays open however many follow, although its counter wraps in the end), and one success before that starts the count again.
\<close>

theorem breaker_opens:
  assumes "0 < sint threshold" and "int (length us) < sint threshold"
  shows "cb_state (failures_at ts (RecordSuccess False (failures_at us (NewCircuitBreaker threshold timeout)))) =
    (if sint threshold \<le> int (length ts) then CircuitOpen else CircuitClosed)"
proof -
  let ?b = "NewCircuitBreaker threshold timeout"
  have "cb_state (failures_at us ?b) = CircuitClosed"
    using assms by (simp add: failures_at_state NewCircuitBreaker_def)
  then show ?thesis
    using assms by (subst failures_at_state) (simp_all add: RecordSuccess_def NewCircuitBreaker_def)
qed

lemma breaker_opens_witness:
  "cb_state (failures_at [4, 5, 6] (RecordSuccess False (failures_at [1, 2] (NewCircuitBreaker 3 minute)))) =
     CircuitOpen"
  using breaker_opens [of 3 "[1, 2]" "[4, 5, 6]" minute] by simp

text \<open>
  C33: Once open, whatever calls arrive within the timeout after the last failure, the breaker
  stays open and \<open>Allow\<close> rejects; the first unhindered \<open>Allow\<close> after the timeout lets one
  through and half-opens it.
\<close>

theorem breaker_open_window:
  assumes "cb_state cb = CircuitOpen"
    and "list_all (ev_within (cb_lastFailure cb) (cb_lastFailure cb + sint (cb_timeout cb))) evs"
  shows "cb_state (fold cb_apply evs cb) = CircuitOpen \<and>
    (cb_lastFailure cb \<le> now \<and> now \<le> cb_lastFailure cb + sint (cb_timeout cb) \<longrightarrow> \<not> fst (Allow busy now cb)) \<and>
    (now > cb_lastFailure cb + sint (cb_timeout cb) \<and> sint (cb_timeout cb) < max_int64 \<longrightarrow>
      Allow False now cb = (True, cb\<lparr>cb_state := CircuitHalfOpen\<rparr>))"
proof (intro conjI impI)
  show "cb_state (fold cb_apply evs cb) = CircuitOpen"
    using assms by (intro fold_cb_apply_open [where lo = "cb_lastFailure cb"]) simp_all
next
  assume "cb_lastFailure cb \<le> now \<and> now \<le> cb_lastFailure cb + sint (cb_timeout cb)"
  then have "time_Sub now (cb_lastFailure cb) \<le> sint (cb_timeout cb)" by (intro time_Sub_le) auto
  then show "\<not> fst (Allow busy now cb)" using assms(1) by (simp add: Allow_def)
next
  assume "now > cb_lastFailure cb + sint (cb_timeout cb) \<and> sint (cb_timeout cb) < max_int64"
  then have "sint (cb_timeout cb) < time_Sub now (cb_lastFailure cb)"
    unfolding time_Sub_def by linarith
  then show "Allow False now cb = (True, cb\<lparr>cb_state := CircuitHalfOpen\<rparr>)"
    using assms(1) by (simp add: Allow_def)
qed

lemma breaker_open_window_witness:
  "let cb = failures_at [7] (NewCircuitBreaker 1 minute) in
     cb_state (fold cb_apply [EvAllow False 10, EvSuccess False, EvFailure False 20] cb) = CircuitOpen \<and>
     \<not> fst (Allow False 11 cb)"
  using breaker_open_window [of "failures_at [7] (NewCircuitBreaker 1 minute)"
      "[EvAllow False 10, EvSuccess False, EvFailure False 20]" 11 False]
  by (simp add: failures_at_def RecordFailure_def NewCircuitBreaker_def Let_def)

text \<open>
  A success reported while the breaker is open clears the failure count, so that a failing
  probe in the half-open state no longer reopens a breaker whose threshold is above one.
\<close>

theorem half_open_failure_stays_half_open:
  "\<exists>cb now. cb_reach 2 minute cb \<and> cb_state cb = CircuitHalfOpen \<and>
     cb_state (RecordFailure False now cb) = CircuitHalfOpen"
proof -
  let ?late = "100000000000 :: go_time"
  define cb where "cb = fold cb_apply
    [EvFailure False 1, EvFailure False 2, EvSuccess False, EvAllow False ?late] (NewCircuitBreaker 2 minute)"
  have "cb_reach 2 minute cb" unfolding cb_def fold.simps comp_def id_def by (intro cb_reach.intros)
  moreover have "cb_state cb = CircuitHalfOpen" "cb_state (RecordFailure False ?late cb) = CircuitHalfOpen"
    by (simp_all add: cb_def cb_defs NewCircuitBreaker_def time_Sub_def min_int64_def max_int64_def)
  ultimately show ?thesis by blast
qed

end
