(* ===== verification/Pg_Store.thy ===== *)
theory Pg_Store
  imports Job_Model "HOL-Library.Multiset"
begin

text \<open>
  \<open>internal/store/postgres.go\<close>: the job store on PostgreSQL. Every method sends fixed SQL text, which
  is a value of type \<open>stmt\<close> here; the database and its driver are the parameter \<open>'p pg\<close>. What
  the code relies on is the locale \<open>postgres\<close>: a statement does to the tables what its SQL text
  says, under the constraints and the triggers of \<open>migrations/001_init.sql\<close>.
\<close>

section \<open>Tables\<close>

text \<open>Columns that may be NULL are options.\<close>

record job_row =
  row_id :: uuid
  row_job_type :: string
  row_payload :: "json option"
  row_priority :: int
  row_status :: string
  row_scheduled_at :: go_time
  row_retry_count :: int
  row_max_retries :: int
  row_timeout_ms :: int
  row_cron_expression :: "string option"
  row_cron_next_run :: "go_time option"
  row_started_at :: "go_time option"
  row_completed_at :: "go_time option"
  row_worker_id :: "string option"
  row_error_message :: "string option"
  row_created_at :: go_time
  row_updated_at :: go_time

record hist_row =
  hr_id :: int
  hr_job_id :: uuid
  hr_old_status :: "string option"
  hr_new_status :: string
  hr_worker_id :: "string option"
  hr_error_message :: "string option"
  hr_metadata :: json
  hr_created_at :: go_time

record pgstate =
  pg_jobs :: "job_row list"
  pg_hist :: "hist_row list"
  pg_hbs :: "WorkerHeartbeat list"
  pg_seq :: int
  pg_now :: go_time

section \<open>Statements\<close>

record JobFilter =
  f_Status :: "JobStatus option"
  f_Type :: string
  f_Priority :: "int option"
  f_WorkerID :: string
  f_Limit :: int
  f_Offset :: int
  f_OrderBy :: string
  f_OrderDesc :: bool

datatype stmt =
    InsertJob job_row
  | SelectJob uuid
  | UpdateStatus JobStatus string string "go_time option" "go_time option" uuid
  | DeleteJobRow uuid
  | CountJobs JobFilter
  | SelectJobs JobFilter
  | SelectHistory uuid int int
  | SelectStats
  | UpsertHeartbeat WorkerHeartbeat
  | SelectHeartbeats go_time
  | DeleteHeartbeats go_time

datatype presult =
    Affected int
  | JobRows "job_row list"
  | HistRows "hist_row list"
  | HbRows "WorkerHeartbeat list"
  | Count int
  | Stats "int list" "(int \<times> int) option"

record 'p pg =
  pg_exec :: "stmt \<Rightarrow> 'p \<Rightarrow> (go_error + presult) \<times> 'p"

section \<open>What the SQL text says\<close>

definition statuses :: "string list" where
  "statuses = [JobStatusPending, JobStatusRunning, JobStatusCompleted, JobStatusFailed,
     JobStatusDeadLetter, JobStatusCancelled]"

text \<open>A \<open>TIMESTAMPTZ\<close> has microseconds.\<close>

definition to_us :: "go_time \<Rightarrow> go_time" where
  "to_us t = t div 1000 * 1000"

definition in_int32 :: "int \<Rightarrow> bool" where
  "in_int32 i \<longleftrightarrow> - (2 ^ 31) \<le> i \<and> i < 2 ^ 31"

text \<open>Text is valid UTF-8, and neither text nor JSONB can hold the character NUL.\<close>

definition pg_text :: "string \<Rightarrow> bool" where
  "pg_text s \<longleftrightarrow> valid_utf8 s \<and> CHR 0x00 \<notin> set s"

text \<open>
  A value assigned to a column of type \<open>VARCHAR(n)\<close>: blanks after the first \<open>n\<close> characters are cut off; a value
  that is longer all the same is refused.
\<close>

definition varchar :: "nat \<Rightarrow> string \<Rightarrow> string" where
  "varchar n s = (if list_all (\<lambda>r. r = '' '') (drop n (runes s)) then concat (take n (runes s)) else s)"

definition fits :: "nat \<Rightarrow> string \<Rightarrow> bool" where
  "fits n s \<longleftrightarrow> pg_text s \<and> length (runes (varchar n s)) \<le> n"

fun json_storable :: "json \<Rightarrow> bool" where
  "json_storable (JStr s) \<longleftrightarrow> pg_text s"
| "json_storable (JArr xs) \<longleftrightarrow> list_all json_storable xs"
| "json_storable (JObj kvs) \<longleftrightarrow> list_all (\<lambda>kv. pg_text (fst kv) \<and> json_storable (snd kv)) kvs"
| "json_storable _ \<longleftrightarrow> True"

text \<open>
  JSONB keeps the last value of a repeated key, and the keys of an object by length and then by their
  bytes.
\<close>

fun bytes_less :: "string \<Rightarrow> string \<Rightarrow> bool" where
  "bytes_less _ [] \<longleftrightarrow> False"
| "bytes_less [] (_ # _) \<longleftrightarrow> True"
| "bytes_less (a # as) (b # bs) \<longleftrightarrow> (of_char a :: nat) < of_char b \<or> a = b \<and> bytes_less as bs"

definition key_less :: "string \<Rightarrow> string \<Rightarrow> bool" where
  "key_less a b \<longleftrightarrow> length a < length b \<or> length a = length b \<and> bytes_less a b"

fun put_key :: "string \<times> json \<Rightarrow> (string \<times> json) list \<Rightarrow> (string \<times> json) list" where
  "put_key kv [] = [kv]"
| "put_key kv (x # xs) =
     (if fst x = fst kv then kv # xs else if key_less (fst kv) (fst x) then kv # x # xs else x # put_key kv xs)"

fun jsonb :: "json \<Rightarrow> json" where
  "jsonb (JArr xs) = JArr (map jsonb xs)"
| "jsonb (JObj kvs) = JObj (fold put_key (map (\<lambda>kv. (fst kv, jsonb (snd kv))) kvs) [])"
| "jsonb j = j"

text \<open>The types, NOT NULL and CHECK constraints of the table \<open>jobs\<close>.\<close>

definition row_accepted :: "job_row \<Rightarrow> bool" where
  "row_accepted w \<longleftrightarrow>
     fits 128 (row_job_type w) \<and>
     (case row_payload w of None \<Rightarrow> False | Some j \<Rightarrow> json_storable j) \<and>
     0 \<le> row_priority w \<and> row_priority w \<le> 9 \<and> row_status w \<in> set statuses \<and>
     in_int32 (row_retry_count w) \<and> 0 \<le> row_max_retries w \<and> row_max_retries w \<le> 20 \<and>
     0 < row_timeout_ms w \<and> row_timeout_ms w \<le> 3600000 \<and>
     (case row_cron_expression w of None \<Rightarrow> True | Some e \<Rightarrow> fits 64 e) \<and>
     (case row_worker_id w of None \<Rightarrow> True | Some e \<Rightarrow> fits 64 e) \<and>
     (case row_error_message w of None \<Rightarrow> True | Some e \<Rightarrow> pg_text e) \<and>
     ((row_cron_expression w = None \<and> row_cron_next_run w = None) \<or>
      (row_cron_expression w \<noteq> None \<and> row_cron_next_run w \<noteq> None))"

text \<open>The row as it is stored: its strings at the length of their columns, its payload as JSONB and its times to the
  microsecond.\<close>

definition row_us :: "job_row \<Rightarrow> job_row" where
  "row_us w = w\<lparr>row_job_type := varchar 128 (row_job_type w),
     row_cron_expression := map_option (varchar 64) (row_cron_expression w),
     row_worker_id := map_option (varchar 64) (row_worker_id w), row_payload := map_option jsonb (row_payload w), row_scheduled_at := to_us (row_scheduled_at w),
     row_cron_next_run := map_option to_us (row_cron_next_run w),
     row_started_at := map_option to_us (row_started_at w),
     row_completed_at := map_option to_us (row_completed_at w),
     row_created_at := to_us (row_created_at w), row_updated_at := to_us (row_updated_at w)\<rparr>"

definition sql_error :: "string \<Rightarrow> go_error + 'a" where
  "sql_error s = Inl (Opaque s)"

definition coalesce :: "'a option \<Rightarrow> 'a option \<Rightarrow> 'a option" where
  "coalesce a b = (case a of Some x \<Rightarrow> Some x | None \<Rightarrow> b)"

text \<open>
  \<open>UPDATE jobs SET\<close> in \<open>UpdateJobStatus\<close>: the error message parameter is a string, never NULL, so
  that its \<open>COALESCE\<close> always takes it. The trigger \<open>trg_jobs_updated_at\<close> sets \<open>updated_at\<close>.
\<close>

definition updated_row ::
  "go_time \<Rightarrow> JobStatus \<Rightarrow> string \<Rightarrow> string \<Rightarrow> go_time option \<Rightarrow> go_time option \<Rightarrow> job_row \<Rightarrow> job_row" where
  "updated_row now status wid msg started completed w =
     w\<lparr>row_status := status,
       row_worker_id := coalesce (if wid = '''' then None else Some (varchar 64 wid)) (row_worker_id w),
       row_error_message := coalesce (Some msg) (row_error_message w),
       row_started_at := coalesce (map_option to_us started) (row_started_at w),
       row_completed_at := coalesce (map_option to_us completed) (row_completed_at w),
       row_updated_at := to_us now\<rparr>"

text \<open>The trigger \<open>log_job_status_change\<close>: a history row for every change of the status.\<close>

definition history_of :: "go_time \<Rightarrow> int \<Rightarrow> job_row \<Rightarrow> job_row \<Rightarrow> hist_row list" where
  "history_of now seq old new =
     (if row_status old = row_status new then []
      else [\<lparr>hr_id = seq, hr_job_id = row_id new, hr_old_status = Some (row_status old),
             hr_new_status = row_status new, hr_worker_id = row_worker_id new,
             hr_error_message = row_error_message new,
             hr_metadata = JObj [(''retry_count'', JNum (row_retry_count new)),
                                 (''scheduled_at'', JTime (row_scheduled_at new))],
             hr_created_at = to_us now\<rparr>])"

definition find_row :: "uuid \<Rightarrow> pgstate \<Rightarrow> job_row option" where
  "find_row u s = find (\<lambda>w. row_id w = u) (pg_jobs s)"

definition do_insert :: "job_row \<Rightarrow> pgstate \<Rightarrow> (go_error + presult) \<times> pgstate" where
  "do_insert w s =
     (if \<not> row_accepted w then (sql_error ''ERROR: row violates a constraint'', s)
      else if find_row (row_id w) s \<noteq> None
      then (sql_error ''ERROR: duplicate key value violates unique constraint'', s)
      else (Inr (Affected 1), s\<lparr>pg_jobs := pg_jobs s @ [row_us w]\<rparr>))"

text \<open>
  The primary key: at most one row has the id. The server checks the encoding of the parameters and the value of
  the enumeration before it looks for the row, and the length of the worker id when it writes one.
\<close>

definition do_update :: "JobStatus \<Rightarrow> string \<Rightarrow> string \<Rightarrow> go_time option \<Rightarrow> go_time option \<Rightarrow> uuid \<Rightarrow>
    pgstate \<Rightarrow> (go_error + presult) \<times> pgstate" where
  "do_update status wid msg started completed u s =
     (if \<not> pg_text wid \<or> \<not> pg_text msg then (sql_error ''ERROR: invalid byte sequence for encoding'', s)
      else if status \<notin> set statuses then (sql_error ''ERROR: invalid input value for enum job_status'', s)
      else (case find_row u s of
              None \<Rightarrow> (Inr (Affected 0), s)
            | Some w \<Rightarrow>
                if \<not> fits 64 wid then (sql_error ''ERROR: value too long for type character varying(64)'', s)
                else
                  let new = updated_row (pg_now s) status wid msg started completed w;
                      hist = history_of (pg_now s) (pg_seq s) w new
                  in (Inr (Affected 1),
                      s\<lparr>pg_jobs := map (\<lambda>x. if row_id x = u then new else x) (pg_jobs s),
                        pg_hist := pg_hist s @ hist, pg_seq := pg_seq s + int (length hist)\<rparr>)))"

definition do_delete :: "uuid \<Rightarrow> pgstate \<Rightarrow> (go_error + presult) \<times> pgstate" where
  "do_delete u s =
     (Inr (Affected (int (length (filter (\<lambda>w. row_id w = u) (pg_jobs s))))),
      s\<lparr>pg_jobs := filter (\<lambda>w. row_id w \<noteq> u) (pg_jobs s),
        pg_hist := filter (\<lambda>h. hr_job_id h \<noteq> u) (pg_hist s)\<rparr>)"

text \<open>The \<open>WHERE\<close> clause \<open>ListJobs\<close> builds.\<close>

definition matches :: "JobFilter \<Rightarrow> job_row \<Rightarrow> bool" where
  "matches f w \<longleftrightarrow>
     (case f_Status f of None \<Rightarrow> True | Some st \<Rightarrow> row_status w = st) \<and>
     (f_Type f \<noteq> '''' \<longrightarrow> row_job_type w = f_Type f) \<and>
     (case f_Priority f of None \<Rightarrow> True | Some p \<Rightarrow> row_priority w = p) \<and>
     (f_WorkerID f \<noteq> '''' \<longrightarrow> row_worker_id w = Some (f_WorkerID f))"

text \<open>The parameters the server can take as values of the columns they are compared with.\<close>

definition params_ok :: "JobFilter \<Rightarrow> bool" where
  "params_ok f \<longleftrightarrow> (case f_Status f of None \<Rightarrow> True | Some st \<Rightarrow> st \<in> set statuses) \<and>
     pg_text (f_Type f) \<and> pg_text (f_WorkerID f) \<and>
     (case f_Priority f of None \<Rightarrow> True | Some p \<Rightarrow> - (2 ^ 15) \<le> p \<and> p < 2 ^ 15)"

text \<open>The numeric columns a query can be ordered by.\<close>

definition order_key :: "string \<Rightarrow> (job_row \<Rightarrow> int) option" where
  "order_key c = map_of [(''created_at'', row_created_at), (''updated_at'', row_updated_at),
     (''scheduled_at'', row_scheduled_at), (''priority'', row_priority),
     (''retry_count'', row_retry_count), (''max_retries'', row_max_retries), (''timeout_ms'', row_timeout_ms)] c"

definition in_order :: "bool \<Rightarrow> ('a \<Rightarrow> int) \<Rightarrow> 'a list \<Rightarrow> bool" where
  "in_order desc key xs \<longleftrightarrow> sorted_wrt (\<lambda>a b. if desc then key b \<le> key a else key a \<le> key b) xs"

text \<open>\<open>ys\<close> is a possible answer to an ordered query for the rows \<open>xs\<close>: ties come in any order.\<close>

definition page_of :: "bool \<Rightarrow> ('a \<Rightarrow> int) \<Rightarrow> int \<Rightarrow> int \<Rightarrow> 'a list \<Rightarrow> 'a list \<Rightarrow> bool" where
  "page_of desc key limit offset xs ys \<longleftrightarrow>
     (\<exists>zs. mset zs = mset xs \<and> in_order desc key zs \<and> ys = take (nat limit) (drop (nat offset) zs))"

definition count_status :: "pgstate \<Rightarrow> string \<Rightarrow> int" where
  "count_status s st = int (length (filter (\<lambda>w. row_status w = st) (pg_jobs s)))"

text \<open>\<open>AVG(EXTRACT(EPOCH FROM (completed_at - started_at))) * 1000\<close> as a fraction, NULL without rows.\<close>

definition avg_ms :: "pgstate \<Rightarrow> (int \<times> int) option" where
  "avg_ms s =
     (let ds = List.map_filter (\<lambda>w. case (row_started_at w, row_completed_at w) of
                 (Some a, Some b) \<Rightarrow> Some (b - a) | _ \<Rightarrow> None) (pg_jobs s)
      in if ds = [] then None else Some (sum_list ds, int (length ds) * 1000000))"

definition do_upsert :: "WorkerHeartbeat \<Rightarrow> pgstate \<Rightarrow> (go_error + presult) \<times> pgstate" where
  "do_upsert hb s =
     (let new = hb\<lparr>hb_WorkerID := varchar 64 (hb_WorkerID hb), hb_Hostname := varchar 256 (hb_Hostname hb),
                    hb_LastHeartbeat := to_us (hb_LastHeartbeat hb), hb_StartedAt := to_us (hb_StartedAt hb)\<rparr>
      in if \<not> fits 64 (hb_WorkerID hb) \<or> \<not> fits 256 (hb_Hostname hb) \<or>
            \<not> in_int32 (hb_Concurrency hb) \<or> \<not> in_int32 (hb_ActiveJobs hb)
         then (sql_error ''ERROR: value out of range'', s)
         else if \<exists>h \<in> set (pg_hbs s). hb_WorkerID h = hb_WorkerID new
         then (Inr (Affected 1),
               s\<lparr>pg_hbs := map (\<lambda>h. if hb_WorkerID h = hb_WorkerID new
                  then new\<lparr>hb_StartedAt := hb_StartedAt h\<rparr> else h) (pg_hbs s)\<rparr>)
         else (Inr (Affected 1), s\<lparr>pg_hbs := pg_hbs s @ [new]\<rparr>))"

text \<open>\<open>pg_allows st s x s'\<close>: executed in \<open>s\<close>, the statement may answer \<open>x\<close> and leave \<open>s'\<close>.\<close>

fun pg_allows :: "stmt \<Rightarrow> pgstate \<Rightarrow> go_error + presult \<Rightarrow> pgstate \<Rightarrow> bool" where
  "pg_allows (InsertJob w) s x s' \<longleftrightarrow> (x, s') = do_insert w s"
| "pg_allows (SelectJob u) s x s' \<longleftrightarrow>
     s' = s \<and> x = Inr (JobRows (case find_row u s of None \<Rightarrow> [] | Some w \<Rightarrow> [w]))"
| "pg_allows (UpdateStatus st wid msg a b u) s x s' \<longleftrightarrow> (x, s') = do_update st wid msg a b u s"
| "pg_allows (DeleteJobRow u) s x s' \<longleftrightarrow> (x, s') = do_delete u s"
| "pg_allows (CountJobs f) s x s' \<longleftrightarrow> s' = s \<and>
     (if params_ok f then x = Inr (Count (int (length (filter (matches f) (pg_jobs s)))))
      else isl x)"
| "pg_allows (SelectJobs f) s x s' \<longleftrightarrow> s' = s \<and>
     (if \<not> params_ok f then isl x
      else (case order_key (f_OrderBy f) of
              None \<Rightarrow> True
            | Some key \<Rightarrow> \<exists>ys. x = Inr (JobRows ys) \<and>
                page_of (f_OrderDesc f) key (f_Limit f) (f_Offset f) (filter (matches f) (pg_jobs s)) ys))"
| "pg_allows (SelectHistory u limit offset) s x s' \<longleftrightarrow> s' = s \<and>
     (if offset < 0 then x = sql_error ''ERROR: OFFSET must not be negative''
      else \<exists>ys. x = Inr (HistRows ys) \<and>
        page_of True hr_created_at limit offset (filter (\<lambda>h. hr_job_id h = u) (pg_hist s)) ys)"
| "pg_allows SelectStats s x s' \<longleftrightarrow> s' = s \<and>
     x = Inr (Stats (map (count_status s) statuses @ [int (length (pg_jobs s))]) (avg_ms s))"
| "pg_allows (UpsertHeartbeat hb) s x s' \<longleftrightarrow> (x, s') = do_upsert hb s"
| "pg_allows (SelectHeartbeats cutoff) s x s' \<longleftrightarrow> s' = s \<and> (\<exists>ys. x = Inr (HbRows ys) \<and>
     mset ys = mset (filter (\<lambda>h. hb_LastHeartbeat h > to_us cutoff) (pg_hbs s)) \<and> in_order True hb_LastHeartbeat ys)"
| "pg_allows (DeleteHeartbeats cutoff) s x s' \<longleftrightarrow>
     x = Inr (Affected (int (length (filter (\<lambda>h. hb_LastHeartbeat h < to_us cutoff) (pg_hbs s))))) \<and>
     s' = s\<lparr>pg_hbs := filter (\<lambda>h. \<not> hb_LastHeartbeat h < to_us cutoff) (pg_hbs s)\<rparr>"

text \<open>What any client, or the clock, can do to the database.\<close>

inductive pg_step :: "pgstate \<Rightarrow> pgstate \<Rightarrow> bool" where
  pg_stmt: "pg_allows st s x s' \<Longrightarrow> pg_step s s'"
| pg_tick: "pg_now s \<le> t \<Longrightarrow> pg_step s (s\<lparr>pg_now := t\<rparr>)"

text \<open>
  A database shared with other clients over a connection that may break: before the statement the
  others may have run any statements, it may fail without effect, and its answer may be lost.
\<close>

locale pg_server =
  fixes P :: "'p pg" and tables :: "'p \<Rightarrow> pgstate"
  assumes exec_law: "\<exists>s y. pg_step\<^sup>*\<^sup>* (tables p) s \<and>
    (tables (snd (pg_exec P st p)) = s \<and> isl (fst (pg_exec P st p)) \<or>
     pg_allows st s y (tables (snd (pg_exec P st p))) \<and> (fst (pg_exec P st p) = y \<or> isl (fst (pg_exec P st p))))"

text \<open>The database while one client uses it over a working connection.\<close>

locale postgres =
  fixes P :: "'p pg" and tables :: "'p \<Rightarrow> pgstate"
  assumes exec_exact: "\<exists>t \<ge> pg_now (tables p).
    pg_allows st ((tables p)\<lparr>pg_now := t\<rparr>) (fst (pg_exec P st p)) (tables (snd (pg_exec P st p)))"

sublocale postgres \<subseteq> shared: pg_server P tables
proof unfold_locales
  fix p st
  obtain t where t: "pg_now (tables p) \<le> t"
    "pg_allows st ((tables p)\<lparr>pg_now := t\<rparr>) (fst (pg_exec P st p)) (tables (snd (pg_exec P st p)))"
    using exec_exact [of p st] by blast
  moreover have "pg_step\<^sup>*\<^sup>* (tables p) ((tables p)\<lparr>pg_now := t\<rparr>)"
    using t(1) by (intro r_into_rtranclp pg_tick)
  ultimately show "\<exists>s y. pg_step\<^sup>*\<^sup>* (tables p) s \<and>
    (tables (snd (pg_exec P st p)) = s \<and> isl (fst (pg_exec P st p)) \<or>
     pg_allows st s y (tables (snd (pg_exec P st p))) \<and> (fst (pg_exec P st p) = y \<or> isl (fst (pg_exec P st p))))"
    by blast
qed

section \<open>The store's operations\<close>

definition job_to_row :: "Job \<Rightarrow> job_row" where
  "job_to_row j =
     \<lparr>row_id = job_ID j, row_job_type = job_Type j, row_payload = job_Payload j, row_priority = job_Priority j,
      row_status = job_Status j, row_scheduled_at = job_ScheduledAt j, row_retry_count = job_RetryCount j,
      row_max_retries = job_MaxRetries j, row_timeout_ms = job_Timeout j,
      row_cron_expression = Some (job_CronExpression j),
      row_cron_next_run = (if job_CronExpression j \<noteq> '''' then job_CronNextRun j else None),
      row_started_at = None, row_completed_at = None, row_worker_id = None, row_error_message = None,
      row_created_at = job_CreatedAt j, row_updated_at = job_UpdatedAt j\<rparr>"

definition CreateJob :: "'p pg \<Rightarrow> Job \<Rightarrow> 'p \<Rightarrow> unit res \<times> 'p" where
  "CreateJob P job p =
     (case pg_exec P (InsertJob (job_to_row job)) p of
        (Inl e, p') \<Rightarrow> (Err (wrapf ''insert job: '' e), p')
      | (Inr _, p') \<Rightarrow> (Ret (), p'))"

text \<open>
  \<open>Scan\<close> into the fields of a \<open>Job\<close>: the three nullable text columns go into Go strings, which cannot
  take NULL.
\<close>

definition scan_null :: "'a res" where
  "scan_null = Err (Opaque ''can't scan into dest: cannot scan NULL into *string'')"

definition scan_job :: "job_row \<Rightarrow> Job res" where
  "scan_job w =
     (case (row_cron_expression w, row_worker_id w, row_error_message w) of
        (Some cron, Some wid, Some msg) \<Rightarrow>
          Ret \<lparr>job_ID = row_id w, job_Type = row_job_type w, job_Payload = row_payload w,
               job_Priority = row_priority w, job_Status = row_status w, job_ScheduledAt = row_scheduled_at w,
               job_RetryCount = row_retry_count w, job_MaxRetries = row_max_retries w,
               job_Timeout = row_timeout_ms w, job_CronExpression = cron, job_CronNextRun = row_cron_next_run w,
               job_StartedAt = row_started_at w, job_CompletedAt = row_completed_at w, job_WorkerID = wid,
               job_ErrorMessage = msg, job_CreatedAt = row_created_at w, job_UpdatedAt = row_updated_at w\<rparr>
      | _ \<Rightarrow> scan_null)"

text \<open>\<open>QueryRow(...).Scan\<close> of the first row, or \<open>pgx.ErrNoRows\<close>.\<close>

definition scan_first :: "(job_row \<Rightarrow> 'a res) \<Rightarrow> presult \<Rightarrow> 'a res" where
  "scan_first f x = (case x of JobRows (w # ws) \<Rightarrow> f w | _ \<Rightarrow> Err ErrNoRows)"

definition GetJob :: "'p pg \<Rightarrow> uuid \<Rightarrow> 'p \<Rightarrow> Job res \<times> 'p" where
  "GetJob P u p =
     (case pg_exec P (SelectJob u) p of
        (x, p') \<Rightarrow>
          ((case (case x of Inl e \<Rightarrow> Err e | Inr y \<Rightarrow> scan_first scan_job y) of
              Ret job \<Rightarrow> Ret job
            | Err e \<Rightarrow> if errors_Is e ErrNoRows then Err ErrJobNotFound else Err (wrapf ''get job: '' e)
            | Panic s \<Rightarrow> Panic s), p'))"

record updateOpts =
  uo_workerID :: string
  uo_errorMessage :: string
  uo_startedAt :: "go_time option"
  uo_completedAt :: "go_time option"

type_synonym UpdateOpt = "updateOpts \<Rightarrow> updateOpts"

definition WithWorkerID :: "string \<Rightarrow> UpdateOpt" where
  "WithWorkerID w opts = opts\<lparr>uo_workerID := w\<rparr>"

definition WithErrorMessage :: "string \<Rightarrow> UpdateOpt" where
  "WithErrorMessage msg opts = opts\<lparr>uo_errorMessage := msg\<rparr>"

definition WithStartedAt :: "go_time \<Rightarrow> UpdateOpt" where
  "WithStartedAt t opts = opts\<lparr>uo_startedAt := Some t\<rparr>"

definition WithCompletedAt :: "go_time \<Rightarrow> UpdateOpt" where
  "WithCompletedAt t opts = opts\<lparr>uo_completedAt := Some t\<rparr>"

definition no_opts :: updateOpts where
  "no_opts = \<lparr>uo_workerID = '''', uo_errorMessage = '''', uo_startedAt = None, uo_completedAt = None\<rparr>"

definition affected :: "presult \<Rightarrow> int" where
  "affected x = (case x of Affected n \<Rightarrow> n | _ \<Rightarrow> 0)"

definition UpdateJobStatus :: "'p pg \<Rightarrow> uuid \<Rightarrow> JobStatus \<Rightarrow> UpdateOpt list \<Rightarrow> 'p \<Rightarrow> unit res \<times> 'p" where
  "UpdateJobStatus P u status opts p =
     (let options = fold (\<lambda>opt x. opt x) opts no_opts
      in (case pg_exec P (UpdateStatus status (uo_workerID options) (uo_errorMessage options)
                 (uo_startedAt options) (uo_completedAt options) u) p of
            (Inl e, p') \<Rightarrow> (Err (wrapf ''update job status: '' e), p')
          | (Inr x, p') \<Rightarrow> (if affected x = 0 then Err ErrJobNotFound else Ret (), p')))"

definition DeleteJob :: "'p pg \<Rightarrow> uuid \<Rightarrow> 'p \<Rightarrow> unit res \<times> 'p" where
  "DeleteJob P u p =
     (case pg_exec P (DeleteJobRow u) p of
        (Inl e, p') \<Rightarrow> (Err (wrapf ''delete job: '' e), p')
      | (Inr x, p') \<Rightarrow> (if affected x = 0 then Err ErrJobNotFound else Ret (), p'))"

fun collect :: "('a \<Rightarrow> 'b res) \<Rightarrow> 'a list \<Rightarrow> 'b list res" where
  "collect f [] = Ret []"
| "collect f (x # xs) = bind_res (f x) (\<lambda>y. bind_res (collect f xs) (\<lambda>ys. Ret (y # ys)))"

definition default_filter :: "JobFilter \<Rightarrow> JobFilter" where
  "default_filter f =
     f\<lparr>f_Limit := (if f_Limit f \<le> 0 \<or> f_Limit f > 1000 then 100 else f_Limit f),
       f_Offset := (if f_Offset f < 0 then 0 else f_Offset f),
       f_OrderBy := (if f_OrderBy f = '''' then ''created_at'' else f_OrderBy f)\<rparr>"

definition ListJobs :: "'p pg \<Rightarrow> JobFilter \<Rightarrow> 'p \<Rightarrow> (Job list \<times> int) res \<times> 'p" where
  "ListJobs P filter0 p =
     (let f = default_filter filter0
      in (case pg_exec P (CountJobs f) p of
            (Inl e, p1) \<Rightarrow> (Err (wrapf ''count jobs: '' e), p1)
          | (Inr c, p1) \<Rightarrow>
              (case c of
                 Count tot \<Rightarrow>
                   (case pg_exec P (SelectJobs f) p1 of
                      (Inl e, p2) \<Rightarrow> (Err (wrapf ''list jobs: '' e), p2)
                    | (Inr x, p2) \<Rightarrow>
                        (case (case x of JobRows ws \<Rightarrow> collect scan_job ws | _ \<Rightarrow> Ret []) of
                           Ret jobs \<Rightarrow> (Ret (jobs, tot), p2)
                         | Err e \<Rightarrow> (Err (wrapf ''scan jobs: '' e), p2)
                         | Panic s \<Rightarrow> (Panic s, p2)))
               | _ \<Rightarrow> (Err (wrapf ''count jobs: '' ErrNoRows), p1))))"

definition scan_history :: "hist_row \<Rightarrow> JobHistory res" where
  "scan_history h =
     (case (hr_worker_id h, hr_error_message h) of
        (Some wid, Some msg) \<Rightarrow>
          Ret \<lparr>h_ID = hr_id h, h_JobID = hr_job_id h, h_OldStatus = hr_old_status h, h_NewStatus = hr_new_status h,
               h_WorkerID = wid, h_ErrorMessage = msg, h_Metadata = hr_metadata h, h_CreatedAt = hr_created_at h\<rparr>
      | _ \<Rightarrow> scan_null)"

definition GetJobHistory :: "'p pg \<Rightarrow> uuid \<Rightarrow> int \<Rightarrow> int \<Rightarrow> 'p \<Rightarrow> JobHistory list res \<times> 'p" where
  "GetJobHistory P u limit offset p =
     (let limit = (if limit \<le> 0 \<or> limit > 1000 then 100 else limit)
      in (case pg_exec P (SelectHistory u limit offset) p of
            (Inl e, p') \<Rightarrow> (Err (wrapf ''get job history: '' e), p')
          | (Inr x, p') \<Rightarrow>
              (map_err (wrapf ''scan history: '')
                 (case x of HistRows hs \<Rightarrow> collect scan_history hs | _ \<Rightarrow> Ret []), p')))"

record QueueStats =
  qs_Pending :: int
  qs_Running :: int
  qs_Completed :: int
  qs_Failed :: int
  qs_DeadLetter :: int
  qs_Cancelled :: int
  qs_Total :: int
  qs_AvgDuration :: "duration option"

text \<open>\<open>time.Duration(*avgDurationMs)\<close> truncates the number of milliseconds towards zero.\<close>

definition GetQueueStats :: "'p pg \<Rightarrow> 'p \<Rightarrow> QueueStats res \<times> 'p" where
  "GetQueueStats P p =
     (case pg_exec P SelectStats p of
        (Inl e, p') \<Rightarrow> (Err (wrapf ''get queue stats: '' e), p')
      | (Inr x, p') \<Rightarrow>
          ((case x of
              Stats [a, b, c, d, e, f, t] avg \<Rightarrow>
                Ret \<lparr>qs_Pending = a, qs_Running = b, qs_Completed = c, qs_Failed = d, qs_DeadLetter = e,
                     qs_Cancelled = f, qs_Total = t,
                     qs_AvgDuration = map_option (\<lambda>(n, m). of_int (go_quot n m) * millisecond) avg\<rparr>
            | _ \<Rightarrow> Err (wrapf ''get queue stats: '' ErrNoRows)), p'))"

definition RecordHeartbeat :: "'p pg \<Rightarrow> WorkerHeartbeat \<Rightarrow> 'p \<Rightarrow> unit res \<times> 'p" where
  "RecordHeartbeat P hb p =
     (case pg_exec P (UpsertHeartbeat hb) p of
        (Inl e, p') \<Rightarrow> (Err (wrapf ''record heartbeat: '' e), p')
      | (Inr _, p') \<Rightarrow> (Ret (), p'))"

definition GetActiveWorkers :: "'p pg \<Rightarrow> go_time \<Rightarrow> duration \<Rightarrow> 'p \<Rightarrow> WorkerHeartbeat list res \<times> 'p" where
  "GetActiveWorkers P now since p =
     (case pg_exec P (SelectHeartbeats (time_Add now (- since))) p of
        (Inl e, p') \<Rightarrow> (Err (wrapf ''get active workers: '' e), p')
      | (Inr x, p') \<Rightarrow> (Ret (case x of HbRows hs \<Rightarrow> hs | _ \<Rightarrow> []), p'))"

definition PruneOldHeartbeats :: "'p pg \<Rightarrow> go_time \<Rightarrow> duration \<Rightarrow> 'p \<Rightarrow> int res \<times> 'p" where
  "PruneOldHeartbeats P now maxAge p =
     (case pg_exec P (DeleteHeartbeats (time_Add now (- maxAge))) p of
        (Inl e, p') \<Rightarrow> (Err (wrapf ''prune heartbeats: '' e), p')
      | (Inr x, p') \<Rightarrow> (Ret (affected x), p'))"

text \<open>The interface \<open>Store\<close> and its implementation.\<close>

record 'p Store =
  s_CreateJob :: "Job \<Rightarrow> 'p \<Rightarrow> unit res \<times> 'p"
  s_GetJob :: "uuid \<Rightarrow> 'p \<Rightarrow> Job res \<times> 'p"
  s_UpdateJobStatus :: "uuid \<Rightarrow> JobStatus \<Rightarrow> UpdateOpt list \<Rightarrow> 'p \<Rightarrow> unit res \<times> 'p"
  s_DeleteJob :: "uuid \<Rightarrow> 'p \<Rightarrow> unit res \<times> 'p"
  s_ListJobs :: "JobFilter \<Rightarrow> 'p \<Rightarrow> (Job list \<times> int) res \<times> 'p"
  s_GetJobHistory :: "uuid \<Rightarrow> int \<Rightarrow> int \<Rightarrow> 'p \<Rightarrow> JobHistory list res \<times> 'p"
  s_GetQueueStats :: "'p \<Rightarrow> QueueStats res \<times> 'p"
  s_RecordHeartbeat :: "WorkerHeartbeat \<Rightarrow> 'p \<Rightarrow> unit res \<times> 'p"
  s_GetActiveWorkers :: "go_time \<Rightarrow> duration \<Rightarrow> 'p \<Rightarrow> WorkerHeartbeat list res \<times> 'p"
  s_PruneOldHeartbeats :: "go_time \<Rightarrow> duration \<Rightarrow> 'p \<Rightarrow> int res \<times> 'p"

definition PostgreSQLStore :: "'p pg \<Rightarrow> 'p Store" where
  "PostgreSQLStore P = \<lparr>s_CreateJob = CreateJob P, s_GetJob = GetJob P, s_UpdateJobStatus = UpdateJobStatus P,
     s_DeleteJob = DeleteJob P, s_ListJobs = ListJobs P, s_GetJobHistory = GetJobHistory P,
     s_GetQueueStats = GetQueueStats P, s_RecordHeartbeat = RecordHeartbeat P,
     s_GetActiveWorkers = GetActiveWorkers P, s_PruneOldHeartbeats = PruneOldHeartbeats P\<rparr>"

section \<open>An instance\<close>

text \<open>Tables in memory; ties of an ordered query in the order of insertion.\<close>

definition order_rows :: "bool \<Rightarrow> ('a \<Rightarrow> int) \<Rightarrow> 'a list \<Rightarrow> 'a list" where
  "order_rows desc key xs = (if desc then rev (sort_key key xs) else sort_key key xs)"

lemma order_rows_ok: "mset (order_rows desc key xs) = mset xs" "in_order desc key (order_rows desc key xs)"
  using sorted_sort_key [of key xs]
  by (auto simp: order_rows_def in_order_def sorted_wrt_rev sorted_map)

definition page :: "bool \<Rightarrow> ('a \<Rightarrow> int) \<Rightarrow> int \<Rightarrow> int \<Rightarrow> 'a list \<Rightarrow> 'a list" where
  "page desc key limit offset xs = take (nat limit) (drop (nat offset) (order_rows desc key xs))"

lemma page_ok: "page_of desc key limit offset xs (page desc key limit offset xs)"
  unfolding page_of_def page_def using order_rows_ok by blast

fun mem_pg_exec :: "stmt \<Rightarrow> pgstate \<Rightarrow> (go_error + presult) \<times> pgstate" where
  "mem_pg_exec (InsertJob w) s = do_insert w s"
| "mem_pg_exec (SelectJob u) s = (Inr (JobRows (case find_row u s of None \<Rightarrow> [] | Some w \<Rightarrow> [w])), s)"
| "mem_pg_exec (UpdateStatus st wid msg a b u) s = do_update st wid msg a b u s"
| "mem_pg_exec (DeleteJobRow u) s = do_delete u s"
| "mem_pg_exec (CountJobs f) s =
     (if params_ok f then Inr (Count (int (length (filter (matches f) (pg_jobs s)))))
      else sql_error ''ERROR: invalid parameter'', s)"
| "mem_pg_exec (SelectJobs f) s =
     (if \<not> params_ok f then sql_error ''ERROR: invalid parameter''
      else (case order_key (f_OrderBy f) of
              None \<Rightarrow> sql_error ''ERROR: column does not exist''
            | Some key \<Rightarrow> Inr (JobRows (page (f_OrderDesc f) key (f_Limit f) (f_Offset f)
                (filter (matches f) (pg_jobs s))))), s)"
| "mem_pg_exec (SelectHistory u limit offset) s =
     (if offset < 0 then sql_error ''ERROR: OFFSET must not be negative''
      else Inr (HistRows (page True hr_created_at limit offset (filter (\<lambda>h. hr_job_id h = u) (pg_hist s)))), s)"
| "mem_pg_exec SelectStats s =
     (Inr (Stats (map (count_status s) statuses @ [int (length (pg_jobs s))]) (avg_ms s)), s)"
| "mem_pg_exec (UpsertHeartbeat hb) s = do_upsert hb s"
| "mem_pg_exec (SelectHeartbeats cutoff) s =
     (Inr (HbRows (order_rows True hb_LastHeartbeat (filter (\<lambda>h. hb_LastHeartbeat h > to_us cutoff) (pg_hbs s)))), s)"
| "mem_pg_exec (DeleteHeartbeats cutoff) s =
     (Inr (Affected (int (length (filter (\<lambda>h. hb_LastHeartbeat h < to_us cutoff) (pg_hbs s))))),
      s\<lparr>pg_hbs := filter (\<lambda>h. \<not> hb_LastHeartbeat h < to_us cutoff) (pg_hbs s)\<rparr>)"

definition mem_pg :: "pgstate pg" where
  "mem_pg = \<lparr>pg_exec = mem_pg_exec\<rparr>"

lemma mem_pg_allows: "pg_allows st s (fst (mem_pg_exec st s)) (snd (mem_pg_exec st s))"
  by (cases st) (auto simp: page_ok order_rows_ok sql_error_def split: option.splits)

interpretation mem_db: postgres mem_pg "\<lambda>s. s"
proof unfold_locales
  fix s st
  have "pg_allows st s (fst (pg_exec mem_pg st s)) (snd (pg_exec mem_pg st s))"
    using mem_pg_allows by (simp add: mem_pg_def)
  then show "\<exists>t \<ge> pg_now s. pg_allows st (s\<lparr>pg_now := t\<rparr>) (fst (pg_exec mem_pg st s)) (snd (pg_exec mem_pg st s))"
    by (intro exI [of _ "pg_now s"]) simp
qed

text \<open>
  The same tables behind a connection that breaks now and then: the fates of the coming statements
  say whether the statement is lost, its answer is lost, or all goes well, and what the others did
  before it.
\<close>

datatype pg_fate = PgOk | PgLost | PgNoAnswer | PgAfter stmt

definition flaky_pg :: "(pgstate \<times> pg_fate list) pg" where
  "flaky_pg = \<lparr>pg_exec = \<lambda>st (s, fs).
     (case fs of
        [] \<Rightarrow> (fst (mem_pg_exec st s), (snd (mem_pg_exec st s), []))
      | PgOk # fs' \<Rightarrow> (fst (mem_pg_exec st s), (snd (mem_pg_exec st s), fs'))
      | PgLost # fs' \<Rightarrow> (Inl (Opaque ''conn closed''), (s, fs'))
      | PgNoAnswer # fs' \<Rightarrow> (Inl (Opaque ''unexpected EOF''), (snd (mem_pg_exec st s), fs'))
      | PgAfter st0 # fs' \<Rightarrow> (let s1 = snd (mem_pg_exec st0 s) in (fst (mem_pg_exec st s1), (snd (mem_pg_exec st s1), fs'))))\<rparr>"

interpretation flaky_db: pg_server flaky_pg fst
proof unfold_locales
  fix p :: "pgstate \<times> pg_fate list" and st
  obtain s fs where p: "p = (s, fs)" by (cases p)
  have step: "pg_step\<^sup>*\<^sup>* s (snd (mem_pg_exec st0 s))" for st0
    by (intro r_into_rtranclp pg_stmt) (rule mem_pg_allows)
  show "\<exists>s y. pg_step\<^sup>*\<^sup>* (fst p) s \<and>
    (fst (snd (pg_exec flaky_pg st p)) = s \<and> isl (fst (pg_exec flaky_pg st p)) \<or>
     pg_allows st s y (fst (snd (pg_exec flaky_pg st p))) \<and>
       (fst (pg_exec flaky_pg st p) = y \<or> isl (fst (pg_exec flaky_pg st p))))"
  proof (cases fs)
    case Nil
    then show ?thesis using mem_pg_allows [of st s] by (auto simp: p flaky_pg_def)
  next
    case (Cons f fs')
    then show ?thesis
    proof (cases f)
      case (PgAfter st0)
      then show ?thesis using step [of st0] mem_pg_allows [of st "snd (mem_pg_exec st0 s)"] Cons
        by (auto simp: p flaky_pg_def Let_def)
    qed (use mem_pg_allows [of st s] in \<open>auto simp: p flaky_pg_def\<close>)
  qed
qed

section \<open>Invariants of the tables\<close>

fun chained :: "string \<Rightarrow> hist_row list \<Rightarrow> bool" where
  "chained st [] \<longleftrightarrow> True"
| "chained st (h # hs) \<longleftrightarrow> hr_old_status h = Some st \<and> hr_new_status h \<noteq> st \<and> chained (hr_new_status h) hs"

fun end_status :: "string \<Rightarrow> hist_row list \<Rightarrow> string" where
  "end_status st [] = st"
| "end_status st (h # hs) = end_status (hr_new_status h) hs"

definition trail :: "pgstate \<Rightarrow> uuid \<Rightarrow> hist_row list" where
  "trail s u = filter (\<lambda>h. hr_job_id h = u) (pg_hist s)"

text \<open>
  Job ids and worker ids are unique, history belongs to existing jobs, and the history of a job is an
  unbroken chain of status changes that ends in the job's present status.
\<close>

definition pg_inv :: "pgstate \<Rightarrow> bool" where
  "pg_inv s \<longleftrightarrow> distinct (map row_id (pg_jobs s)) \<and> distinct (map hb_WorkerID (pg_hbs s)) \<and>
     (\<forall>h \<in> set (pg_hist s). hr_job_id h \<in> row_id ` set (pg_jobs s)) \<and>
     (\<forall>w \<in> set (pg_jobs s). \<exists>st. chained st (trail s (row_id w)) \<and> end_status st (trail s (row_id w)) = row_status w)"

lemma chained_append: "chained st (hs @ ks) \<longleftrightarrow> chained st hs \<and> chained (end_status st hs) ks"
  by (induction hs arbitrary: st) auto

lemma end_status_append [simp]: "end_status st (hs @ ks) = end_status (end_status st hs) ks"
  by (induction hs arbitrary: st) auto

lemma find_row_Some: "find_row u s = Some w \<Longrightarrow> w \<in> set (pg_jobs s) \<and> row_id w = u"
  unfolding find_row_def by (metis (mono_tags, lifting) find_Some_iff nth_mem)

lemma find_row_None: "find_row u s = None \<longleftrightarrow> u \<notin> row_id ` set (pg_jobs s)"
  by (auto simp: find_row_def find_None_iff)

lemma updated_row_sel [simp]:
  "row_id (updated_row now st wid msg a b w) = row_id w"
  "row_status (updated_row now st wid msg a b w) = st"
  by (simp_all add: updated_row_def)

lemma row_us_sel [simp]: "row_id (row_us w) = row_id w" "row_status (row_us w) = row_status w"
  by (simp_all add: row_us_def)

lemma history_of_props:
  "chained (row_status old) (history_of now n old new) \<and>
   end_status (row_status old) (history_of now n old new) = row_status new \<and>
   (\<forall>h \<in> set (history_of now n old new). hr_job_id h = row_id new)"
  by (auto simp: history_of_def)

lemma pg_inv_insert: "pg_inv s \<Longrightarrow> pg_inv (snd (do_insert w s))"
proof (cases "row_accepted w \<and> find_row (row_id w) s = None")
  case True
  assume inv: "pg_inv s"
  have fresh: "row_id w \<notin> row_id ` set (pg_jobs s)" using True by (simp add: find_row_None)
  have "hr_job_id h \<noteq> row_id w" if "h \<in> set (pg_hist s)" for h
  proof -
    have "hr_job_id h \<in> row_id ` set (pg_jobs s)" using inv that by (simp add: pg_inv_def)
    with fresh show ?thesis by metis
  qed
  then have "trail s (row_id w) = []" by (simp add: trail_def filter_empty_conv)
  with inv True fresh show ?thesis
    by (auto simp: pg_inv_def do_insert_def trail_def intro: exI [of _ "row_status w"])
qed (auto simp: do_insert_def)

lemma filter_all: "(\<forall>h \<in> set hs. P h) \<Longrightarrow> filter P hs = hs"
  by (induction hs) auto

lemma filter_no: "(\<forall>h \<in> set hs. \<not> P h) \<Longrightarrow> filter P hs = []"
  by (induction hs) auto

lemma pg_inv_update:
  assumes "pg_inv s"
  shows "pg_inv (snd (do_update st wid msg a b u s))"
proof (cases "find_row u s")
  case (Some w)
  show ?thesis
  proof (cases "st \<in> set statuses \<and> fits 64 wid \<and> pg_text wid \<and> pg_text msg")
    case True
    define new where "new = updated_row (pg_now s) st wid msg a b w"
    define hist where "hist = history_of (pg_now s) (pg_seq s) w new"
    define s' where "s' = s\<lparr>pg_jobs := map (\<lambda>x. if row_id x = u then new else x) (pg_jobs s),
      pg_hist := pg_hist s @ hist, pg_seq := pg_seq s + int (length hist)\<rparr>"
    have s': "snd (do_update st wid msg a b u s) = s'"
      using Some True by (simp add: do_update_def s'_def new_def hist_def Let_def)
    have w: "w \<in> set (pg_jobs s)" "row_id w = u" using find_row_Some [OF Some] by simp_all
    have ids: "map row_id (pg_jobs s') = map row_id (pg_jobs s)"
      by (auto simp: s'_def new_def w(2) comp_def)
    then have set_ids: "row_id ` set (pg_jobs s') = row_id ` set (pg_jobs s)"
      by (metis set_map)
    note h = history_of_props [of w "pg_now s" "pg_seq s" new, folded hist_def]
    have uid: "row_id new = u" by (simp add: new_def w(2))
    have trail: "trail s' v = trail s v @ (if v = u then hist else [])" for v
      using h uid by (auto simp: trail_def s'_def filter_no filter_all)
    have "\<exists>st. chained st (trail s' (row_id x)) \<and> end_status st (trail s' (row_id x)) = row_status x"
      if x: "x \<in> set (pg_jobs s')" for x
    proof (cases "row_id x = u")
      case True
      then have "x = new" using x by (auto simp: s'_def split: if_splits)
      moreover obtain st0 where "chained st0 (trail s u)" "end_status st0 (trail s u) = row_status w"
        using assms w by (auto simp: pg_inv_def)
      ultimately show ?thesis using h True by (auto simp: trail chained_append)
    next
      case False
      then have "x \<in> set (pg_jobs s)" using x uid by (auto simp: s'_def split: if_splits)
      then show ?thesis using assms False by (simp add: trail pg_inv_def)
    qed
    moreover have "hr_job_id k \<in> row_id ` set (pg_jobs s')" if "k \<in> set (pg_hist s')" for k
    proof -
      have "u \<in> row_id ` set (pg_jobs s)" using w by (metis imageI)
      moreover have "k \<in> set (pg_hist s) \<or> k \<in> set hist" using that by (simp add: s'_def)
      ultimately show ?thesis using assms h uid unfolding set_ids by (auto simp: pg_inv_def)
    qed
    moreover have "distinct (map row_id (pg_jobs s'))" "distinct (map hb_WorkerID (pg_hbs s'))"
      using assms unfolding ids by (simp_all add: pg_inv_def s'_def)
    ultimately show ?thesis unfolding s' pg_inv_def by blast
  qed (use assms in \<open>auto simp: do_update_def Some\<close>)
qed (use assms in \<open>auto simp: do_update_def\<close>)

lemma distinct_map_filter_id: "distinct (map f xs) \<Longrightarrow> distinct (map f (filter P xs))"
  by (rule distinct_map_filter)

lemma pg_inv_delete:
  assumes "pg_inv s"
  shows "pg_inv (snd (do_delete u s))"
proof -
  have t: "trail (snd (do_delete u s)) v = trail s v" if "v \<noteq> u" for v
    using that by (auto simp: trail_def do_delete_def intro: filter_cong)
  show ?thesis
    using assms t by (auto simp: pg_inv_def do_delete_def distinct_map_filter_id)
qed

lemma pg_inv_upsert: "pg_inv s \<Longrightarrow> pg_inv (snd (do_upsert hb s))"
proof -
  assume inv: "pg_inv s"
  have comp: "hb_WorkerID \<circ> (\<lambda>h. if hb_WorkerID h = u then new\<lparr>hb_StartedAt := hb_StartedAt h\<rparr> else h) = hb_WorkerID"
    if "hb_WorkerID new = u" for u and new :: WorkerHeartbeat
    using that by (intro ext) simp
  define new where "new = hb\<lparr>hb_WorkerID := varchar 64 (hb_WorkerID hb), hb_Hostname := varchar 256 (hb_Hostname hb),
    hb_LastHeartbeat := to_us (hb_LastHeartbeat hb), hb_StartedAt := to_us (hb_StartedAt hb)\<rparr>"
  have "snd (do_upsert hb s) \<in> {s, s\<lparr>pg_hbs := map (\<lambda>h. if hb_WorkerID h = hb_WorkerID new
      then new\<lparr>hb_StartedAt := hb_StartedAt h\<rparr> else h) (pg_hbs s)\<rparr>} \<or>
    hb_WorkerID new \<notin> hb_WorkerID ` set (pg_hbs s) \<and> snd (do_upsert hb s) = s\<lparr>pg_hbs := pg_hbs s @ [new]\<rparr>"
    unfolding do_upsert_def Let_def new_def [symmetric] by auto
  with inv show ?thesis by (auto simp: pg_inv_def trail_def comp)
qed

lemma pg_inv_allows: "pg_allows st s x s' \<Longrightarrow> pg_inv s \<Longrightarrow> pg_inv s'"
proof (cases st)
  case (DeleteHeartbeats cutoff)
  assume "pg_allows st s x s'" "pg_inv s"
  with DeleteHeartbeats show ?thesis by (auto simp: pg_inv_def trail_def distinct_map_filter_id)
qed (auto dest: arg_cong [where f = snd] simp: pg_inv_insert pg_inv_update pg_inv_delete pg_inv_upsert)

lemma pg_inv_step: "pg_step s s' \<Longrightarrow> pg_inv s \<Longrightarrow> pg_inv s'"
proof (induction rule: pg_step.induct)
  case (pg_stmt st s x s')
  then show ?case by (rule pg_inv_allows)
qed (simp add: pg_inv_def trail_def)

lemma pg_inv_steps: "pg_step\<^sup>*\<^sup>* s s' \<Longrightarrow> pg_inv s \<Longrightarrow> pg_inv s'"
  by (induction rule: rtranclp_induct) (auto intro: pg_inv_step)

text \<open>Every operation of the store runs one statement; \<open>ListJobs\<close> may run two.\<close>

definition update_stmt :: "uuid \<Rightarrow> JobStatus \<Rightarrow> UpdateOpt list \<Rightarrow> stmt" where
  "update_stmt u status opts =
     (let options = fold (\<lambda>opt x. opt x) opts no_opts
      in UpdateStatus status (uo_workerID options) (uo_errorMessage options) (uo_startedAt options)
           (uo_completedAt options) u)"

lemma ops_exec:
  "snd (CreateJob P job p) = snd (pg_exec P (InsertJob (job_to_row job)) p)"
  "snd (GetJob P u p) = snd (pg_exec P (SelectJob u) p)"
  "snd (UpdateJobStatus P u status opts p) = snd (pg_exec P (update_stmt u status opts) p)"
  "snd (DeleteJob P u p) = snd (pg_exec P (DeleteJobRow u) p)"
  "snd (GetJobHistory P u limit offset p) =
     snd (pg_exec P (SelectHistory u (if limit \<le> 0 \<or> limit > 1000 then 100 else limit) offset) p)"
  "snd (GetQueueStats P p) = snd (pg_exec P SelectStats p)"
  "snd (RecordHeartbeat P hb p) = snd (pg_exec P (UpsertHeartbeat hb) p)"
  "snd (GetActiveWorkers P now since p) = snd (pg_exec P (SelectHeartbeats (time_Add now (- since))) p)"
  "snd (PruneOldHeartbeats P now since p) = snd (pg_exec P (DeleteHeartbeats (time_Add now (- since))) p)"
  by (simp_all add: CreateJob_def GetJob_def UpdateJobStatus_def DeleteJob_def GetJobHistory_def GetQueueStats_def
      RecordHeartbeat_def GetActiveWorkers_def PruneOldHeartbeats_def update_stmt_def Let_def
      split: prod.split sum.split)

lemma ListJobs_exec:
  "snd (ListJobs P f p) =
     (let q = pg_exec P (CountJobs (default_filter f)) p in
      case fst q of Inr (Count n) \<Rightarrow> snd (pg_exec P (SelectJobs (default_filter f)) (snd q)) | _ \<Rightarrow> snd q)"
  by (auto simp: ListJobs_def Let_def split: prod.split sum.split presult.split res.split)

context pg_server
begin

lemma exec_inv: "pg_inv (tables p) \<Longrightarrow> pg_inv (tables (snd (pg_exec P st p)))"
  using exec_law [of p st] by (auto intro: pg_inv_steps pg_inv_allows)

lemma ops_inv:
  assumes inv: "pg_inv (tables p)"
  shows "pg_inv (tables (snd (CreateJob P job p)))" "pg_inv (tables (snd (GetJob P u p)))"
    "pg_inv (tables (snd (UpdateJobStatus P u status opts p)))" "pg_inv (tables (snd (DeleteJob P u p)))"
    "pg_inv (tables (snd (ListJobs P f p)))" "pg_inv (tables (snd (GetJobHistory P u limit offset p)))"
    "pg_inv (tables (snd (GetQueueStats P p)))" "pg_inv (tables (snd (RecordHeartbeat P hb p)))"
    "pg_inv (tables (snd (GetActiveWorkers P now since p)))"
    "pg_inv (tables (snd (PruneOldHeartbeats P now since p)))"
  by (auto simp: ops_exec ListJobs_exec Let_def exec_inv inv split: sum.split presult.split)

end

section \<open>What the store promises\<close>

text \<open>
  The contract of the interface \<open>Store\<close> the scheduler core and the workers rely on, over the rows a
  client can see: which jobs \<open>CreateJob\<close> accepts, and what every operation on a job returns and does.
\<close>

definition opts_ok :: "updateOpts \<Rightarrow> bool" where
  "opts_ok o1 \<longleftrightarrow> fits 64 (uo_workerID o1) \<and> pg_text (uo_errorMessage o1)"

lemma fits_text: "fits n s \<Longrightarrow> pg_text s"
  by (simp add: fits_def)

lemma varchar_short: "length s \<le> n \<Longrightarrow> varchar n s = s"
  using length_runes_le [of s] by (simp add: varchar_def)

lemma fits_short: "length s \<le> n \<Longrightarrow> fits n s \<longleftrightarrow> pg_text s"
  using length_runes_le [of s] by (simp add: fits_def varchar_short)

lemma pg_text_ascii: "list_all is_ascii s \<Longrightarrow> CHR 0x00 \<notin> set s \<Longrightarrow> pg_text s"
  by (simp add: pg_text_def valid_utf8_ascii)

lemma pg_text_Nil [simp]: "pg_text []"
  by (simp add: pg_text_ascii)

lemma pg_text_append: "pg_text s \<Longrightarrow> pg_text t \<Longrightarrow> pg_text (s @ t)"
  by (simp add: pg_text_def valid_utf8_append)

lemma json_string_text [simp]: "pg_text s \<Longrightarrow> json_string s = s"
  by (simp add: pg_text_def)

lemma fits_Nil [simp]: "fits n []"
  by (simp add: fits_short)

locale job_store =
  fixes S :: "'p Store" and rows :: "'p \<Rightarrow> uuid \<Rightarrow> job_row option"
  assumes row_key: "rows p u = Some w \<Longrightarrow> row_id w = u"
    and create_new: "row_accepted (job_to_row job) \<Longrightarrow> rows p (job_ID job) = None \<Longrightarrow>
      \<exists>p'. s_CreateJob S job p = (Ret (), p') \<and> rows p' = (rows p)(job_ID job \<mapsto> row_us (job_to_row job))"
    and create_bad: "\<not> row_accepted (job_to_row job) \<or> rows p (job_ID job) \<noteq> None \<Longrightarrow>
      \<exists>e p'. s_CreateJob S job p = (Err (wrapf ''insert job: '' e), p') \<and> rows p' = rows p"
    and get_some: "rows p u = Some w \<Longrightarrow>
      \<exists>p'. s_GetJob S u p = (map_err (wrapf ''get job: '') (scan_job w), p') \<and> rows p' = rows p"
    and get_none: "rows p u = None \<Longrightarrow> \<exists>p'. s_GetJob S u p = (Err ErrJobNotFound, p') \<and> rows p' = rows p"
    and update_some: "rows p u = Some w \<Longrightarrow> status \<in> set statuses \<Longrightarrow>
      opts_ok (fold (\<lambda>opt x. opt x) opts no_opts) \<Longrightarrow>
      \<exists>p' t. s_UpdateJobStatus S u status opts p = (Ret (), p') \<and>
        rows p' = (rows p)(u \<mapsto> (let o1 = fold (\<lambda>opt x. opt x) opts no_opts in
          updated_row t status (uo_workerID o1) (uo_errorMessage o1) (uo_startedAt o1) (uo_completedAt o1) w))"
    and update_none: "rows p u = None \<Longrightarrow> status \<in> set statuses \<Longrightarrow>
      opts_ok (fold (\<lambda>opt x. opt x) opts no_opts) \<Longrightarrow>
      \<exists>p'. s_UpdateJobStatus S u status opts p = (Err ErrJobNotFound, p') \<and> rows p' = rows p"
    and delete_some: "rows p u = Some w \<Longrightarrow>
      \<exists>p'. s_DeleteJob S u p = (Ret (), p') \<and> rows p' = (rows p)(u := None)"
    and delete_none: "rows p u = None \<Longrightarrow> \<exists>p'. s_DeleteJob S u p = (Err ErrJobNotFound, p') \<and> rows p' = rows p"

lemma find_row_now [simp]: "find_row u (s\<lparr>pg_now := t\<rparr>) = find_row u s"
  by (simp add: find_row_def)

lemma find_append: "find Q (xs @ ys) = (case find Q xs of None \<Rightarrow> find Q ys | Some x \<Rightarrow> Some x)"
  by (induction xs) auto

lemma find_replace:
  assumes "row_id new = u"
  shows "find (\<lambda>w. row_id w = v) (map (\<lambda>x. if row_id x = u then new else x) ws) =
    (if v = u \<and> find (\<lambda>w. row_id w = u) ws \<noteq> None then Some new else find (\<lambda>w. row_id w = v) ws)"
  using assms by (induction ws) auto

lemma find_filter: "find (\<lambda>w. row_id w = v) (filter (\<lambda>w. row_id w \<noteq> u) ws) =
    (if v = u then None else find (\<lambda>w. row_id w = v) ws)"
  by (induction ws) auto

lemma do_insert_rows:
  "row_accepted w \<Longrightarrow> find_row (row_id w) s = None \<Longrightarrow>
     fst (do_insert w s) = Inr (Affected 1) \<and>
     find_row v (snd (do_insert w s)) = (if v = row_id w then Some (row_us w) else find_row v s)"
  "\<not> row_accepted w \<or> find_row (row_id w) s \<noteq> None \<Longrightarrow>
     isl (fst (do_insert w s)) \<and> snd (do_insert w s) = s"
  by (auto simp: do_insert_def find_row_def find_append sql_error_def split: option.splits)

lemma do_update_rows:
  "st \<in> set statuses \<Longrightarrow> fits 64 wid \<Longrightarrow> pg_text msg \<Longrightarrow> find_row u s = Some w \<Longrightarrow>
     fst (do_update st wid msg a b u s) = Inr (Affected 1) \<and>
     find_row v (snd (do_update st wid msg a b u s)) =
       (if v = u then Some (updated_row (pg_now s) st wid msg a b w) else find_row v s)"
  "st \<in> set statuses \<Longrightarrow> pg_text wid \<Longrightarrow> pg_text msg \<Longrightarrow> find_row u s = None \<Longrightarrow>
     do_update st wid msg a b u s = (Inr (Affected 0), s)"
  using find_row_Some [of u s w] fits_text [of 64 wid]
  by (auto simp: do_update_def find_row_def find_replace Let_def)

lemma do_delete_rows:
  "find_row v (snd (do_delete u s)) = (if v = u then None else find_row v s)"
  "\<exists>n. fst (do_delete u s) = Inr (Affected n) \<and> (n = 0 \<longleftrightarrow> find_row u s = None)"
  by (auto simp: do_delete_def find_row_def find_filter find_None_iff filter_empty_conv)

lemma job_to_row_id [simp]: "row_id (job_to_row job) = job_ID job"
  by (simp add: job_to_row_def)

context postgres
begin

lemma exec_case:
  obtains t x p' where "pg_exec P st p = (x, p')" "pg_now (tables p) \<le> t"
    "pg_allows st ((tables p)\<lparr>pg_now := t\<rparr>) x (tables p')"
  using exec_exact [of p st] by (cases "pg_exec P st p") auto

lemma CreateJob_rows:
  "row_accepted (job_to_row job) \<Longrightarrow> find_row (job_ID job) (tables p) = None \<Longrightarrow>
    \<exists>p'. CreateJob P job p = (Ret (), p') \<and>
      (\<lambda>u. find_row u (tables p')) = (\<lambda>u. find_row u (tables p))(job_ID job \<mapsto> row_us (job_to_row job))"
  "\<not> row_accepted (job_to_row job) \<or> find_row (job_ID job) (tables p) \<noteq> None \<Longrightarrow>
    \<exists>e p'. CreateJob P job p = (Err (wrapf ''insert job: '' e), p') \<and>
      (\<lambda>u. find_row u (tables p')) = (\<lambda>u. find_row u (tables p))"
proof -
  obtain t x p' where e: "pg_exec P (InsertJob (job_to_row job)) p = (x, p')"
    and d: "(x, tables p') = do_insert (job_to_row job) ((tables p)\<lparr>pg_now := t\<rparr>)"
    by (rule exec_case [of "InsertJob (job_to_row job)" p]) auto
  have x: "x = fst (do_insert (job_to_row job) ((tables p)\<lparr>pg_now := t\<rparr>))"
    "tables p' = snd (do_insert (job_to_row job) ((tables p)\<lparr>pg_now := t\<rparr>))"
    using d by (metis fst_conv snd_conv)+
  show "\<exists>p'. CreateJob P job p = (Ret (), p') \<and>
      (\<lambda>u. find_row u (tables p')) = (\<lambda>u. find_row u (tables p))(job_ID job \<mapsto> row_us (job_to_row job))"
    if "row_accepted (job_to_row job)" "find_row (job_ID job) (tables p) = None"
    using do_insert_rows(1) [of "job_to_row job" "(tables p)\<lparr>pg_now := t\<rparr>"] that x
    by (simp add: CreateJob_def e fun_eq_iff)
  show "\<exists>e p'. CreateJob P job p = (Err (wrapf ''insert job: '' e), p') \<and>
      (\<lambda>u. find_row u (tables p')) = (\<lambda>u. find_row u (tables p))"
    if "\<not> row_accepted (job_to_row job) \<or> find_row (job_ID job) (tables p) \<noteq> None"
    using do_insert_rows(2) [of "job_to_row job" "(tables p)\<lparr>pg_now := t\<rparr>"] that x
    by (auto simp: CreateJob_def e isl_def)
qed

lemma GetJob_rows:
  "\<exists>p'. GetJob P u p = (case find_row u (tables p) of None \<Rightarrow> Err ErrJobNotFound
      | Some w \<Rightarrow> map_err (wrapf ''get job: '') (scan_job w), p') \<and>
    (\<lambda>u. find_row u (tables p')) = (\<lambda>u. find_row u (tables p))"
proof -
  obtain t x p' where "pg_exec P (SelectJob u) p = (x, p')"
    "pg_allows (SelectJob u) ((tables p)\<lparr>pg_now := t\<rparr>) x (tables p')"
    by (rule exec_case)
  then show ?thesis
    by (auto simp: GetJob_def scan_first_def scan_job_def scan_null_def split: option.split)
qed

lemma UpdateJobStatus_rows:
  assumes "status \<in> set statuses"
  shows "find_row u (tables p) = None \<Longrightarrow> opts_ok (fold (\<lambda>opt x. opt x) opts no_opts) \<Longrightarrow>
    \<exists>p'. UpdateJobStatus P u status opts p = (Err ErrJobNotFound, p') \<and>
      (\<lambda>u. find_row u (tables p')) = (\<lambda>u. find_row u (tables p))"
    and "find_row u (tables p) = Some w \<Longrightarrow> opts_ok (fold (\<lambda>opt x. opt x) opts no_opts) \<Longrightarrow>
    \<exists>p' t. UpdateJobStatus P u status opts p = (Ret (), p') \<and> pg_now (tables p) \<le> t \<and>
      (\<lambda>u. find_row u (tables p')) = (\<lambda>u. find_row u (tables p))(u \<mapsto>
        (let o1 = fold (\<lambda>opt x. opt x) opts no_opts in
          updated_row t status (uo_workerID o1) (uo_errorMessage o1) (uo_startedAt o1) (uo_completedAt o1) w)) \<and>
      trail (tables p') u = trail (tables p) u @ history_of t (pg_seq (tables p)) w
        (let o1 = fold (\<lambda>opt x. opt x) opts no_opts in
          updated_row t status (uo_workerID o1) (uo_errorMessage o1) (uo_startedAt o1) (uo_completedAt o1) w)"
proof -
  let ?o = "fold (\<lambda>opt x. opt x) opts no_opts"
  obtain t x p' where e: "pg_exec P (update_stmt u status opts) p = (x, p')" "pg_now (tables p) \<le> t"
    and d: "(x, tables p') = do_update status (uo_workerID ?o) (uo_errorMessage ?o) (uo_startedAt ?o)
      (uo_completedAt ?o) u ((tables p)\<lparr>pg_now := t\<rparr>)"
    by (rule exec_case [of "update_stmt u status opts" p]) (auto simp: update_stmt_def Let_def)
  note x = arg_cong [OF d, of fst, simplified] arg_cong [OF d, of snd, simplified]
  show "\<exists>p'. UpdateJobStatus P u status opts p = (Err ErrJobNotFound, p') \<and>
      (\<lambda>u. find_row u (tables p')) = (\<lambda>u. find_row u (tables p))" if "find_row u (tables p) = None" "opts_ok ?o"
    using e that x assms fits_text [of 64 "uo_workerID ?o"]
    by (simp add: opts_ok_def UpdateJobStatus_def update_stmt_def Let_def affected_def do_update_rows(2))
  show "\<exists>p' t. UpdateJobStatus P u status opts p = (Ret (), p') \<and> pg_now (tables p) \<le> t \<and>
      (\<lambda>u. find_row u (tables p')) = (\<lambda>u. find_row u (tables p))(u \<mapsto> (let o1 = ?o in
        updated_row t status (uo_workerID o1) (uo_errorMessage o1) (uo_startedAt o1) (uo_completedAt o1) w)) \<and>
      trail (tables p') u = trail (tables p) u @ history_of t (pg_seq (tables p)) w (let o1 = ?o in
        updated_row t status (uo_workerID o1) (uo_errorMessage o1) (uo_startedAt o1) (uo_completedAt o1) w)"
    if "find_row u (tables p) = Some w" "opts_ok ?o"
  proof -
    have "trail (tables p') u = trail (tables p) u @ history_of t (pg_seq (tables p)) w
        (updated_row t status (uo_workerID ?o) (uo_errorMessage ?o) (uo_startedAt ?o) (uo_completedAt ?o) w)"
      using x(2) that assms find_row_Some [OF that(1)] fits_text [of 64 "uo_workerID ?o"]
      by (auto simp: do_update_def Let_def trail_def history_of_def opts_ok_def)
    with do_update_rows(1) [OF assms, of "uo_workerID ?o" "uo_errorMessage ?o" u "(tables p)\<lparr>pg_now := t\<rparr>" w
        "uo_startedAt ?o" "uo_completedAt ?o"] that e x
    show ?thesis
      by (intro exI [of _ p'] exI [of _ t])
        (simp add: UpdateJobStatus_def update_stmt_def Let_def affected_def fun_eq_iff opts_ok_def)
  qed
qed

lemma DeleteJob_rows:
  "\<exists>p'. DeleteJob P u p = (if find_row u (tables p) = None then Err ErrJobNotFound else Ret (), p') \<and>
    (\<lambda>u. find_row u (tables p')) = (\<lambda>u. find_row u (tables p))(u := None)"
proof -
  obtain t x p' where e: "pg_exec P (DeleteJobRow u) p = (x, p')"
    and d: "(x, tables p') = do_delete u ((tables p)\<lparr>pg_now := t\<rparr>)"
    by (rule exec_case [of "DeleteJobRow u" p]) auto
  note x = arg_cong [OF d, of fst, simplified] arg_cong [OF d, of snd, simplified]
  show ?thesis
    using do_delete_rows(1) [of _ u "(tables p)\<lparr>pg_now := t\<rparr>"] do_delete_rows(2) [of u "(tables p)\<lparr>pg_now := t\<rparr>"] x
    by (auto simp: DeleteJob_def e affected_def fun_eq_iff)
qed

end

sublocale postgres \<subseteq> ps: job_store "PostgreSQLStore P" "\<lambda>p u. find_row u (tables p)"
proof unfold_locales
  fix job p
  show "row_accepted (job_to_row job) \<Longrightarrow> find_row (job_ID job) (tables p) = None \<Longrightarrow>
    \<exists>p'. s_CreateJob (PostgreSQLStore P) job p = (Ret (), p') \<and>
      (\<lambda>u. find_row u (tables p')) = (\<lambda>u. find_row u (tables p))(job_ID job \<mapsto> row_us (job_to_row job))"
    using CreateJob_rows(1) by (simp add: PostgreSQLStore_def)
  show "\<not> row_accepted (job_to_row job) \<or> find_row (job_ID job) (tables p) \<noteq> None \<Longrightarrow>
    \<exists>e p'. s_CreateJob (PostgreSQLStore P) job p = (Err (wrapf ''insert job: '' e), p') \<and>
      (\<lambda>u. find_row u (tables p')) = (\<lambda>u. find_row u (tables p))"
    using CreateJob_rows(2) by (simp add: PostgreSQLStore_def)
next
  fix u w p and opts :: "UpdateOpt list" and status
  show "find_row u (tables p) = Some w \<Longrightarrow> row_id w = u" using find_row_Some by blast
  show "find_row u (tables p) = Some w \<Longrightarrow>
    \<exists>p'. s_GetJob (PostgreSQLStore P) u p = (map_err (wrapf ''get job: '') (scan_job w), p') \<and>
      (\<lambda>u. find_row u (tables p')) = (\<lambda>u. find_row u (tables p))"
    using GetJob_rows [of u p] by (simp add: PostgreSQLStore_def)
  show "find_row u (tables p) = None \<Longrightarrow>
    \<exists>p'. s_GetJob (PostgreSQLStore P) u p = (Err ErrJobNotFound, p') \<and>
      (\<lambda>u. find_row u (tables p')) = (\<lambda>u. find_row u (tables p))"
    using GetJob_rows [of u p] by (simp add: PostgreSQLStore_def)
  show "find_row u (tables p) = Some w \<Longrightarrow> status \<in> set statuses \<Longrightarrow>
    opts_ok (fold (\<lambda>opt x. opt x) opts no_opts) \<Longrightarrow>
    \<exists>p' t. s_UpdateJobStatus (PostgreSQLStore P) u status opts p = (Ret (), p') \<and>
      (\<lambda>u. find_row u (tables p')) = (\<lambda>u. find_row u (tables p))(u \<mapsto>
        (let o1 = fold (\<lambda>opt x. opt x) opts no_opts in
          updated_row t status (uo_workerID o1) (uo_errorMessage o1) (uo_startedAt o1) (uo_completedAt o1) w))"
    using UpdateJobStatus_rows(2) [of status u p w opts] by (auto simp: PostgreSQLStore_def)
  show "find_row u (tables p) = None \<Longrightarrow> status \<in> set statuses \<Longrightarrow>
    opts_ok (fold (\<lambda>opt x. opt x) opts no_opts) \<Longrightarrow>
    \<exists>p'. s_UpdateJobStatus (PostgreSQLStore P) u status opts p = (Err ErrJobNotFound, p') \<and>
      (\<lambda>u. find_row u (tables p')) = (\<lambda>u. find_row u (tables p))"
    using UpdateJobStatus_rows(1) by (simp add: PostgreSQLStore_def)
  show "find_row u (tables p) = Some w \<Longrightarrow>
    \<exists>p'. s_DeleteJob (PostgreSQLStore P) u p = (Ret (), p') \<and>
      (\<lambda>u. find_row u (tables p')) = (\<lambda>u. find_row u (tables p))(u := None)"
    using DeleteJob_rows [of u p] by (simp add: PostgreSQLStore_def)
  show "find_row u (tables p) = None \<Longrightarrow>
    \<exists>p'. s_DeleteJob (PostgreSQLStore P) u p = (Err ErrJobNotFound, p') \<and>
      (\<lambda>u. find_row u (tables p')) = (\<lambda>u. find_row u (tables p))"
    using DeleteJob_rows [of u p] by (auto simp: PostgreSQLStore_def fun_eq_iff)
qed

context postgres
begin

lemmas store_contract = ps.job_store_axioms

end

end
