(* ===== verification/Store_Facts.thy ===== *)
theory Store_Facts
  imports Pg_Store
begin

text \<open>
  What the store on PostgreSQL does: the audit trail under any interleaving and any failure, the
  exact effect of a status update, which jobs are accepted and can be read back, and the pages of
  \<open>ListJobs\<close>.
\<close>

section \<open>Helpers\<close>

lemma scan_never_run: "row_worker_id w = None \<Longrightarrow> scan_job w = scan_null"
  by (simp add: scan_job_def split: option.split)

lemma no_cron_rejected: "job_CronExpression job = '''' \<Longrightarrow> \<not> row_accepted (job_to_row job)"
  by (simp add: row_accepted_def job_to_row_def)

lemma created_row_null [simp]: "row_worker_id (row_us (job_to_row job)) = None"
  by (simp add: row_us_def job_to_row_def)

definition scannable :: "job_row \<Rightarrow> bool" where
  "scannable w \<longleftrightarrow> row_cron_expression w \<noteq> None \<and> row_worker_id w \<noteq> None \<and> row_error_message w \<noteq> None"

lemma scannable_scan: "scannable w \<Longrightarrow> \<exists>job. scan_job w = Ret job"
  by (auto simp: scannable_def scan_job_def)

lemma collect_all: "\<forall>w \<in> set ws. \<exists>y. f w = Ret y \<Longrightarrow> \<exists>ys. collect f ws = Ret ys \<and> map f ws = map Ret ys"
proof (induction ws)
  case (Cons w ws)
  then obtain y ys where "f w = Ret y" "collect f ws = Ret ys" "map f ws = map Ret ys" by auto
  then show ?case by (intro exI [of _ "y # ys"]) simp
qed simp

lemma matches_default [simp]: "matches (default_filter f) = matches f" "params_ok (default_filter f) = params_ok f"
  by (simp_all add: fun_eq_iff matches_def params_ok_def default_filter_def)

lemma page_of_subset: "page_of d key l off xs ys \<Longrightarrow> set ys \<subseteq> set xs \<and> length ys \<le> nat l"
  by (auto simp: page_of_def dest: in_set_takeD in_set_dropD) (metis in_set_dropD in_set_takeD set_mset_mset)

text \<open>
  The job read back from its row: its strings at the length of their columns, the payload as JSONB and the times to
  the microsecond.
\<close>

definition read_back :: "string \<Rightarrow> go_time \<Rightarrow> go_time \<Rightarrow> Job \<Rightarrow> Job" where
  "read_back wid started t job =
     job\<lparr>job_Type := varchar 128 (job_Type job), job_CronExpression := varchar 64 (job_CronExpression job),
       job_Payload := map_option jsonb (job_Payload job), job_Status := JobStatusRunning, job_ScheduledAt := to_us (job_ScheduledAt job),
       job_CronNextRun := map_option to_us (job_CronNextRun job), job_StartedAt := Some (to_us started),
       job_CompletedAt := None, job_WorkerID := wid, job_ErrorMessage := '''',
       job_CreatedAt := to_us (job_CreatedAt job), job_UpdatedAt := to_us t\<rparr>"

section \<open>Properties\<close>

text \<open>
  C5: job ids and worker ids stay unique, history rows belong to existing jobs, and the history of
  every job stays an unbroken chain of status changes ending in the job's present status: every
  operation of the store keeps this, whatever other clients do in between and whichever statements or
  answers are lost.
\<close>

theorem store_keeps_audit_trail:
  assumes "pg_server P tables" "pg_inv (tables p)"
  shows "pg_inv (tables (snd (CreateJob P job p))) \<and> pg_inv (tables (snd (GetJob P u p))) \<and>
    pg_inv (tables (snd (UpdateJobStatus P u status opts p))) \<and> pg_inv (tables (snd (DeleteJob P u p))) \<and>
    pg_inv (tables (snd (ListJobs P f p))) \<and> pg_inv (tables (snd (GetJobHistory P u limit offset p))) \<and>
    pg_inv (tables (snd (GetQueueStats P p))) \<and> pg_inv (tables (snd (RecordHeartbeat P hb p))) \<and>
    pg_inv (tables (snd (GetActiveWorkers P now since p))) \<and>
    pg_inv (tables (snd (PruneOldHeartbeats P now since p)))"
  using pg_server.ops_inv [OF assms] by blast

definition empty_tables :: pgstate where
  "empty_tables = \<lparr>pg_jobs = [], pg_hist = [], pg_hbs = [], pg_seq = 1, pg_now = 0\<rparr>"

definition cron_demo :: Job where
  "cron_demo = \<lparr>job_ID = 7, job_Type = ''report'', job_Payload = Some JNull, job_Priority = 5,
     job_Status = JobStatusPending, job_ScheduledAt = 1500, job_RetryCount = 0, job_MaxRetries = 3,
     job_Timeout = 30000, job_CronExpression = ''0 * * * *'', job_CronNextRun = Some 3600000000000,
     job_StartedAt = None, job_CompletedAt = None, job_WorkerID = '''', job_ErrorMessage = '''',
     job_CreatedAt = 1500, job_UpdatedAt = 1500\<rparr>"

lemma empty_tables_inv [simp]: "pg_inv empty_tables"
  by (simp add: pg_inv_def empty_tables_def)

lemma cron_demo_accepted [simp]: "row_accepted (job_to_row cron_demo)"
  by code_simp

lemma find_row_empty [simp]: "find_row u empty_tables = None"
  by (simp add: find_row_def empty_tables_def)

lemma store_keeps_audit_trail_witness:
  "pg_inv (fst (snd (UpdateJobStatus flaky_pg 7 JobStatusRunning [] (empty_tables, [PgAfter (InsertJob (job_to_row cron_demo)), PgNoAnswer]))))"
  using store_keeps_audit_trail [OF flaky_db.pg_server_axioms,
      of "(empty_tables, [PgAfter (InsertJob (job_to_row cron_demo)), PgNoAnswer])" cron_demo 7 JobStatusRunning "[]"]
  by simp

text \<open>The options of a call: those that are given, in the order the callers write them.\<close>

definition given :: "('a \<Rightarrow> 'b) \<Rightarrow> 'a option \<Rightarrow> 'b list" where
  "given f x = (case x of None \<Rightarrow> [] | Some y \<Rightarrow> [f y])"

definition call_opts :: "string option \<Rightarrow> string option \<Rightarrow> go_time option \<Rightarrow> go_time option \<Rightarrow> UpdateOpt list" where
  "call_opts wid msg started completed =
     given WithWorkerID wid @ given WithErrorMessage msg @ given WithStartedAt started @ given WithCompletedAt completed"

definition or_empty :: "string option \<Rightarrow> string" where
  "or_empty x = (case x of None \<Rightarrow> '''' | Some s \<Rightarrow> s)"

lemma fold_call_opts:
  "fold (\<lambda>opt x. opt x) (call_opts wid msg started completed) no_opts =
    \<lparr>uo_workerID = or_empty wid, uo_errorMessage = or_empty msg, uo_startedAt = started, uo_completedAt = completed\<rparr>"
  by (simp add: call_opts_def given_def or_empty_def WithWorkerID_def WithErrorMessage_def WithStartedAt_def
      WithCompletedAt_def no_opts_def split: option.splits)

text \<open>
  C12: \<open>UpdateJobStatus\<close> with any choice of the four options. On an existing job it sets the status; the error
  message, to the empty string when no message is given; the worker id, when one is given that is not empty; the
  start and the completion time, each to the microsecond, when given. It keeps what is not given, sets
  \<open>updated_at\<close> to the time of the server, leaves every other job alone, and appends one history row, with the old and
  the new status, exactly if the status changes. For an unknown job it returns \<open>ErrJobNotFound\<close> and changes nothing.
  The calls of the worker pool and of the scheduler are instances.
\<close>

theorem UpdateJobStatus_exact:
  assumes "postgres P tables" "status \<in> set statuses"
    and "length (or_empty wid) \<le> 64" "pg_text (or_empty wid)" "pg_text (or_empty msg)"
  shows "(find_row u (tables p) = None \<longrightarrow>
      (\<exists>p'. UpdateJobStatus P u status (call_opts wid msg started completed) p = (Err ErrJobNotFound, p') \<and>
        (\<forall>v. find_row v (tables p') = find_row v (tables p)))) \<and>
    (\<forall>w. find_row u (tables p) = Some w \<longrightarrow>
      (\<exists>p' t. UpdateJobStatus P u status (call_opts wid msg started completed) p = (Ret (), p') \<and> pg_now (tables p) \<le> t \<and>
        (\<forall>v. v \<noteq> u \<longrightarrow> find_row v (tables p') = find_row v (tables p)) \<and>
        find_row u (tables p') = Some (w\<lparr>row_status := status,
          row_worker_id := (if or_empty wid = '''' then row_worker_id w else wid),
          row_error_message := Some (or_empty msg),
          row_started_at := (if started = None then row_started_at w else map_option to_us started),
          row_completed_at := (if completed = None then row_completed_at w else map_option to_us completed),
          row_updated_at := to_us t\<rparr>) \<and>
        (status = row_status w \<longrightarrow> trail (tables p') u = trail (tables p) u) \<and>
        (status \<noteq> row_status w \<longrightarrow> (\<exists>h. trail (tables p') u = trail (tables p) u @ [h] \<and>
          hr_old_status h = Some (row_status w) \<and> hr_new_status h = status \<and> hr_error_message h = Some (or_empty msg)))))"
proof -
  let ?opts = "call_opts wid msg started completed"
  let ?new = "\<lambda>t w. updated_row t status (or_empty wid) (or_empty msg) started completed w"
  have ok: "opts_ok (fold (\<lambda>opt x. opt x) ?opts no_opts)"
    unfolding fold_call_opts using assms(3-5) by (simp add: opts_ok_def fits_short)
  have new: "?new t w = w\<lparr>row_status := status,
      row_worker_id := (if or_empty wid = '''' then row_worker_id w else wid), row_error_message := Some (or_empty msg),
      row_started_at := (if started = None then row_started_at w else map_option to_us started),
      row_completed_at := (if completed = None then row_completed_at w else map_option to_us completed),
      row_updated_at := to_us t\<rparr>" for t w
    using assms(3)
    by (cases wid; cases started; cases completed) (simp_all add: updated_row_def coalesce_def or_empty_def varchar_short)
  show ?thesis
  proof (cases "find_row u (tables p)")
    case None
    with postgres.UpdateJobStatus_rows(1) [OF assms(1,2) None ok] show ?thesis by (auto simp: fun_eq_iff)
  next
    case (Some w)
    obtain p' t where p': "UpdateJobStatus P u status ?opts p = (Ret (), p')" "pg_now (tables p) \<le> t"
      "(\<lambda>u. find_row u (tables p')) = (\<lambda>u. find_row u (tables p))(u \<mapsto> ?new t w)"
      "trail (tables p') u = trail (tables p) u @ history_of t (pg_seq (tables p)) w (?new t w)"
      using postgres.UpdateJobStatus_rows(2) [OF assms(1,2) Some ok] unfolding fold_call_opts by (auto simp: Let_def)
    have row: "find_row v (tables p') = (if v = u then Some (?new t w) else find_row v (tables p))" for v
      using fun_cong [OF p'(3), of v] by (simp split: if_splits)
    from Some p'(1,2) row p'(4) show ?thesis
      unfolding new by (intro conjI allI impI exI [of _ p'] exI [of _ t]) (auto simp: history_of_def)
  qed
qed

definition one_row :: pgstate where
  "one_row = snd (do_insert (job_to_row cron_demo) empty_tables)"

lemma find_one_row [simp]: "find_row u one_row = (if u = 7 then Some (row_us (job_to_row cron_demo)) else None)"
proof -
  have "job_ID cron_demo = 7" by (simp add: cron_demo_def)
  then show ?thesis using do_insert_rows(1) [of "job_to_row cron_demo" empty_tables u] by (simp add: one_row_def)
qed

lemma UpdateJobStatus_exact_witness:
  "\<exists>p' w. UpdateJobStatus mem_pg 7 JobStatusFailed [WithWorkerID ''w1'', WithErrorMessage ''boom'', WithCompletedAt 1234567] one_row =
       (Ret (), p') \<and>
     find_row 7 p' = Some w \<and> row_status w = JobStatusFailed \<and> row_error_message w = Some ''boom'' \<and>
     row_completed_at w = Some 1234000 \<and> row_started_at w = None"
proof -
  have "JobStatusFailed \<in> set statuses" "length (or_empty (Some ''w1'')) \<le> 64" "pg_text (or_empty (Some ''w1''))"
    "pg_text (or_empty (Some ''boom''))" "to_us 1234567 = 1234000"
    by code_simp+
  moreover have "row_started_at (row_us (job_to_row cron_demo)) = None" by (simp add: row_us_def job_to_row_def)
  ultimately show ?thesis
    using UpdateJobStatus_exact [OF mem_db.postgres_axioms, of JobStatusFailed "Some ''w1''" "Some ''boom''" 7 one_row None "Some 1234567"]
    by (auto simp: call_opts_def given_def or_empty_def)
qed

text \<open>
  \<open>CreateJob\<close> refuses every job without a cron expression, which it stores as the empty string
  with a NULL next run, against the constraint \<open>chk_cron_valid\<close>. A job it accepts is stored, but
  \<open>GetJob\<close> fails on it until a worker has updated it, because it scans the NULL worker id into a
  string.
\<close>

theorem CreateJob_then_GetJob:
  assumes "postgres P tables"
  shows "(job_CronExpression job = '''' \<longrightarrow>
      (\<exists>e p'. CreateJob P job p = (Err (wrapf ''insert job: '' e), p') \<and>
        (\<forall>v. find_row v (tables p') = find_row v (tables p)))) \<and>
    (row_accepted (job_to_row job) \<and> find_row (job_ID job) (tables p) = None \<longrightarrow>
      (\<exists>p' p''. CreateJob P job p = (Ret (), p') \<and> find_row (job_ID job) (tables p') = Some (row_us (job_to_row job)) \<and>
        (\<exists>e. GetJob P (job_ID job) p' = (Err (wrapf ''get job: '' e), p'')) \<and>
        find_row (job_ID job) (tables p'') = find_row (job_ID job) (tables p')))"
proof (intro conjI impI)
  assume "job_CronExpression job = ''''"
  then have "\<not> row_accepted (job_to_row job) \<or> find_row (job_ID job) (tables p) \<noteq> None"
    by (simp add: no_cron_rejected)
  from postgres.CreateJob_rows(2) [OF assms this]
  show "\<exists>e p'. CreateJob P job p = (Err (wrapf ''insert job: '' e), p') \<and>
        (\<forall>v. find_row v (tables p') = find_row v (tables p))"
    by (auto simp: fun_eq_iff)
next
  assume *: "row_accepted (job_to_row job) \<and> find_row (job_ID job) (tables p) = None"
  then obtain p' where p': "CreateJob P job p = (Ret (), p')"
    "(\<lambda>u. find_row u (tables p')) = (\<lambda>u. find_row u (tables p))(job_ID job \<mapsto> row_us (job_to_row job))"
    using postgres.CreateJob_rows(1) [OF assms] by blast
  have row: "find_row (job_ID job) (tables p') = Some (row_us (job_to_row job))"
    using fun_cong [OF p'(2), of "job_ID job"] by simp
  obtain p'' where "GetJob P (job_ID job) p' = (map_err (wrapf ''get job: '') (scan_job (row_us (job_to_row job))), p'')"
    "(\<lambda>u. find_row u (tables p'')) = (\<lambda>u. find_row u (tables p'))"
    using postgres.GetJob_rows [OF assms, of "job_ID job" p'] row by auto
  then have "(\<exists>e. GetJob P (job_ID job) p' = (Err (wrapf ''get job: '' e), p'')) \<and>
      find_row (job_ID job) (tables p'') = find_row (job_ID job) (tables p')"
    by (auto simp: scan_never_run scan_null_def fun_eq_iff)
  with p' row show "\<exists>p' p''. CreateJob P job p = (Ret (), p') \<and>
      find_row (job_ID job) (tables p') = Some (row_us (job_to_row job)) \<and>
      (\<exists>e. GetJob P (job_ID job) p' = (Err (wrapf ''get job: '' e), p'')) \<and>
      find_row (job_ID job) (tables p'') = find_row (job_ID job) (tables p')"
    by blast
qed

lemma CreateJob_then_GetJob_witness:
  "\<exists>e p' p''. CreateJob mem_pg cron_demo empty_tables = (Ret (), p') \<and>
     GetJob mem_pg (job_ID cron_demo) p' = (Err (wrapf ''get job: '' e), p'')"
  using CreateJob_then_GetJob [OF mem_db.postgres_axioms, of cron_demo empty_tables] by auto

text \<open>
  C27: once a worker has marked it running, an accepted job is read back with the values it was created
  with (a string without the blanks its column cuts off), its payload in the normal form of JSONB and its times to the microsecond, and the worker, the start time and the status of the update.
\<close>

theorem store_roundtrip:
  assumes "postgres P tables" "row_accepted (job_to_row job)" "find_row (job_ID job) (tables p) = None"
    and "wid \<noteq> ''''" "length wid \<le> 64" "pg_text wid"
  shows "\<exists>p1 p2 p3 t. CreateJob P job p = (Ret (), p1) \<and>
    UpdateJobStatus P (job_ID job) JobStatusRunning [WithWorkerID wid, WithStartedAt started] p1 = (Ret (), p2) \<and>
    GetJob P (job_ID job) p2 = (Ret (read_back wid started t job), p3)"
proof -
  let ?opts = "[WithWorkerID wid, WithStartedAt started]"
  have o1: "fold (\<lambda>opt x. opt x) ?opts no_opts =
      \<lparr>uo_workerID = wid, uo_errorMessage = '''', uo_startedAt = Some started, uo_completedAt = None\<rparr>"
    by (simp add: WithWorkerID_def WithStartedAt_def no_opts_def)
  obtain p1 where p1: "CreateJob P job p = (Ret (), p1)"
    "find_row (job_ID job) (tables p1) = Some (row_us (job_to_row job))"
    using postgres.CreateJob_rows(1) [OF assms(1-3)] by (auto simp: fun_eq_iff split: if_splits)
  have run: "JobStatusRunning \<in> set statuses" by (simp add: statuses_def)
  have len: "opts_ok (fold (\<lambda>opt x. opt x) ?opts no_opts)"
    unfolding o1 using assms(5,6) by (simp add: opts_ok_def fits_short)
  obtain p2 t where p2: "UpdateJobStatus P (job_ID job) JobStatusRunning ?opts p1 = (Ret (), p2)"
    "find_row (job_ID job) (tables p2) =
      Some (updated_row t JobStatusRunning wid '''' (Some started) None (row_us (job_to_row job)))"
    using postgres.UpdateJobStatus_rows(2) [OF assms(1) run p1(2) len] unfolding o1
    by (auto simp: Let_def fun_eq_iff split: if_splits)
  have cron: "job_CronExpression job = '''' \<Longrightarrow> False" using assms(2) no_cron_rejected by blast
  have "scan_job (updated_row t JobStatusRunning wid '''' (Some started) None (row_us (job_to_row job))) =
      Ret (read_back wid started t job)"
    using assms(4,5) cron
    by (auto simp: varchar_short scan_job_def updated_row_def row_us_def job_to_row_def read_back_def coalesce_def)
  then obtain p3 where "GetJob P (job_ID job) p2 = (Ret (read_back wid started t job), p3)"
    using postgres.GetJob_rows [OF assms(1), of "job_ID job" p2] p2(2) by auto
  with p1 p2 show ?thesis by blast
qed

lemma store_roundtrip_witness:
  "\<exists>p1 p2 p3 t. CreateJob mem_pg cron_demo empty_tables = (Ret (), p1) \<and>
    UpdateJobStatus mem_pg (job_ID cron_demo) JobStatusRunning [WithWorkerID ''w1'', WithStartedAt 5] p1 = (Ret (), p2) \<and>
    GetJob mem_pg (job_ID cron_demo) p2 = (Ret (read_back ''w1'' 5 t cron_demo), p3)"
proof -
  have "''w1'' \<noteq> ''''" "length ''w1'' \<le> 64" "pg_text ''w1''" by code_simp+
  from store_roundtrip [OF mem_db.postgres_axioms cron_demo_accepted find_row_empty this]
  show ?thesis .
qed

text \<open>
  C36: \<open>ListJobs\<close> returns the number of all jobs that match the filter and one page of them: at most
  the limit, which is 100 unless it is between 1 and 1000, from the offset on in the order of the
  column, if every matching job has been run and the column is one of the numeric ones.
\<close>

theorem ListJobs_page:
  assumes "postgres P tables" "params_ok f" "order_key (f_OrderBy (default_filter f)) = Some key"
    and "\<forall>w \<in> set (pg_jobs (tables p)). matches f w \<longrightarrow> scannable w"
  shows "\<exists>jobs ws p'.
    ListJobs P f p = (Ret (jobs, int (length (filter (matches f) (pg_jobs (tables p))))), p') \<and>
    map scan_job ws = map Ret jobs \<and> length jobs \<le> 1000 \<and>
    (0 < f_Limit f \<and> f_Limit f \<le> 1000 \<longrightarrow> length jobs \<le> nat (f_Limit f)) \<and>
    page_of (f_OrderDesc f) key (f_Limit (default_filter f)) (max 0 (f_Offset f))
      (filter (matches f) (pg_jobs (tables p))) ws"
proof -
  let ?f = "default_filter f" and ?ms = "filter (matches f) (pg_jobs (tables p))"
  obtain t x p1 where 1: "pg_exec P (CountJobs ?f) p = (x, p1)"
    "pg_allows (CountJobs ?f) ((tables p)\<lparr>pg_now := t\<rparr>) x (tables p1)"
    by (rule postgres.exec_case [OF assms(1)])
  obtain t' y p2 where 2: "pg_exec P (SelectJobs ?f) p1 = (y, p2)"
    "pg_allows (SelectJobs ?f) ((tables p1)\<lparr>pg_now := t'\<rparr>) y (tables p2)"
    by (rule postgres.exec_case [OF assms(1)])
  have x: "x = Inr (Count (int (length ?ms)))" "pg_jobs (tables p1) = pg_jobs (tables p)"
    using 1(2) assms(2) by simp_all
  obtain ws where y: "y = Inr (JobRows ws)"
    and ws: "page_of (f_OrderDesc ?f) key (f_Limit ?f) (f_Offset ?f) ?ms ws"
    using 2(2) assms(2,3) x(2) by auto
  have "\<forall>w \<in> set ws. \<exists>job. scan_job w = Ret job"
    using page_of_subset [OF ws] assms(4) scannable_scan by fastforce
  then obtain jobs where jobs: "collect scan_job ws = Ret jobs" "map scan_job ws = map Ret jobs"
    using collect_all by blast
  have len: "length jobs \<le> nat (f_Limit ?f)"
    using page_of_subset [OF ws] jobs(2) by (metis length_map)
  have f: "f_OrderDesc ?f = f_OrderDesc f" "f_Offset ?f = max 0 (f_Offset f)"
    by (simp_all add: default_filter_def)
  show ?thesis
  proof (intro exI conjI)
    show "ListJobs P f p = (Ret (jobs, int (length ?ms)), p2)"
      by (simp add: ListJobs_def Let_def 1 2 x y jobs)
    show "page_of (f_OrderDesc f) key (f_Limit ?f) (max 0 (f_Offset f)) ?ms ws" using ws by (simp add: f)
  qed (use jobs len in \<open>auto simp: default_filter_def split: if_splits\<close>)
qed

lemma ListJobs_page_witness:
  "\<exists>jobs p'. ListJobs mem_pg \<lparr>f_Status = Some JobStatusPending, f_Type = '''', f_Priority = None, f_WorkerID = '''',
      f_Limit = 10, f_Offset = 0, f_OrderBy = '''', f_OrderDesc = True\<rparr>
      (empty_tables\<lparr>pg_jobs := [(job_to_row cron_demo)\<lparr>row_worker_id := Some ''w1'', row_error_message := Some ''''\<rparr>]\<rparr>) =
      (Ret (jobs, 1), p') \<and> length jobs \<le> 10"
proof -
  let ?f = "\<lparr>f_Status = Some JobStatusPending, f_Type = '''', f_Priority = None, f_WorkerID = '''',
      f_Limit = 10, f_Offset = 0, f_OrderBy = '''', f_OrderDesc = True\<rparr>"
  let ?p = "empty_tables\<lparr>pg_jobs := [(job_to_row cron_demo)\<lparr>row_worker_id := Some ''w1'', row_error_message := Some ''''\<rparr>]\<rparr>"
  have 1: "params_ok ?f" by (simp add: params_ok_def statuses_def)
  have 2: "order_key (f_OrderBy (default_filter ?f)) = Some row_created_at"
    by (simp add: default_filter_def order_key_def)
  have 3: "\<forall>w \<in> set (pg_jobs ?p). matches ?f w \<longrightarrow> scannable w"
    by (simp add: scannable_def job_to_row_def)
  have 4: "filter (matches ?f) (pg_jobs ?p) = pg_jobs ?p"
    by (simp add: matches_def job_to_row_def cron_demo_def)
  show ?thesis
    using ListJobs_page [OF mem_db.postgres_axioms 1 2, of ?p, OF 3, unfolded 4] by auto
qed

end
