(* ===== verification/Pg_Views.thy ===== *)
theory Pg_Views
  imports Store_Facts
begin

text \<open>
  The monitoring views of \<open>migrations/001_init.sql\<close>, and that they agree with \<open>GetQueueStats\<close>. A view has
  one row per group; the order of its rows is not determined, here they come in the order in which the
  groups appear in the table.
\<close>

section \<open>Views\<close>

definition group_by :: "('a \<Rightarrow> 'k) \<Rightarrow> ('k \<Rightarrow> 'a list \<Rightarrow> 'b) \<Rightarrow> 'a list \<Rightarrow> 'b list" where
  "group_by key agg xs = map (\<lambda>k. agg k (filter (\<lambda>x. key x = k) xs)) (remdups (map key xs))"

record summary_row =
  sm_status :: string
  sm_job_type :: string
  sm_count :: int
  sm_oldest_job :: go_time
  sm_newest_job :: go_time

definition v_job_status_summary :: "pgstate \<Rightarrow> summary_row list" where
  "v_job_status_summary s =
     group_by (\<lambda>w. (row_status w, row_job_type w))
       (\<lambda>(st, ty) ws. \<lparr>sm_status = st, sm_job_type = ty, sm_count = int (length ws),
          sm_oldest_job = Min (set (map row_created_at ws)), sm_newest_job = Max (set (map row_created_at ws))\<rparr>)
       (pg_jobs s)"

record depth_row =
  qd_priority :: int
  qd_depth :: int
  qd_oldest_scheduled :: go_time

definition v_queue_depth :: "pgstate \<Rightarrow> depth_row list" where
  "v_queue_depth s =
     group_by row_priority
       (\<lambda>p ws. \<lparr>qd_priority = p, qd_depth = int (length ws), qd_oldest_scheduled = Min (set (map row_scheduled_at ws))\<rparr>)
       (filter (\<lambda>w. row_status w = JobStatusPending) (pg_jobs s))"

section \<open>Groups\<close>

lemma sum_groups:
  assumes "distinct ks" "key ` set xs \<subseteq> set ks"
  shows "sum_list (map (\<lambda>k. int (length (filter (\<lambda>x. key x = k) xs))) ks) = int (length xs)"
  using assms(2)
proof (induction xs)
  case (Cons x xs)
  have "(\<Sum>k\<leftarrow>ks. int (length (filter (\<lambda>y. key y = k) (x # xs)))) =
      (\<Sum>k\<leftarrow>ks. of_bool (key x = k) + int (length (filter (\<lambda>y. key y = k) xs)))"
    by (intro arg_cong [where f = sum_list] map_cong) auto
  also have "\<dots> = (\<Sum>k\<leftarrow>ks. of_bool (key x = k)) + int (length xs)"
    using Cons by (simp add: sum_list_addf)
  also have "(\<Sum>k\<leftarrow>ks. of_bool (key x = k)) = (1 :: int)"
    using Cons.prems assms(1) by (simp add: sum_list_distinct_conv_sum_set)
  finally show ?case by simp
qed (simp add: sum_list_0)

lemma group_by_counts:
  assumes "\<And>k ys. cnt (agg k ys) = int (length ys)"
  shows "sum_list (map cnt (group_by key agg xs)) = int (length xs)"
  unfolding group_by_def using sum_groups [of "remdups (map key xs)" key xs] by (simp add: comp_def assms)

lemma summary_counts:
  "sum_list (map sm_count (filter (\<lambda>r. sm_status r = st) (v_job_status_summary s))) = count_status s st"
proof -
  let ?key = "\<lambda>w. (row_status w, row_job_type w)" and ?ws = "filter (\<lambda>w. row_status w = st) (pg_jobs s)"
  let ?ks = "remdups (map ?key (pg_jobs s))"
  have "(\<Sum>r\<leftarrow>filter (\<lambda>r. sm_status r = st) (v_job_status_summary s). sm_count r) =
      (\<Sum>k\<leftarrow>?ks. if fst k = st then int (length (filter (\<lambda>w. ?key w = k) (pg_jobs s))) else 0)"
    unfolding v_job_status_summary_def group_by_def sum_list_map_filter'
    by (intro arg_cong [where f = sum_list]) (auto simp: comp_def)
  also have "\<dots> = (\<Sum>k\<leftarrow>?ks. int (length (filter (\<lambda>w. ?key w = k) ?ws)))"
    by (intro arg_cong [where f = sum_list] map_cong)
      (auto intro!: arg_cong [where f = length] filter_cong simp: filter_empty_conv)
  also have "\<dots> = int (length ?ws)" by (rule sum_groups) auto
  finally show ?thesis by (simp add: count_status_def)
qed

lemma summary_total: "sum_list (map sm_count (v_job_status_summary s)) = int (length (pg_jobs s))"
  unfolding v_job_status_summary_def by (rule group_by_counts) auto

lemma depth_total: "sum_list (map qd_depth (v_queue_depth s)) = count_status s JobStatusPending"
  unfolding v_queue_depth_def count_status_def by (rule group_by_counts) simp

lemma statuses_total:
  assumes "\<forall>w \<in> set (pg_jobs s). row_status w \<in> set statuses"
  shows "sum_list (map (count_status s) statuses) = int (length (pg_jobs s))"
  unfolding count_status_def by (rule sum_groups) (use assms in \<open>auto simp: statuses_def\<close>)

lemma count_status_now [simp]: "count_status (s\<lparr>pg_now := t\<rparr>) = count_status s"
  by (rule ext) (simp add: count_status_def)

section \<open>Properties\<close>

text \<open>
  C20: the statistics and the two views agree: while no one else writes, \<open>GetQueueStats\<close> succeeds and
  changes no job; its number of pending jobs is the sum of the depths of \<open>v_queue_depth\<close>, its number for
  each status is the sum over the groups of \<open>v_job_status_summary\<close> with that status, and its total is the
  sum of both the groups and the six numbers.
\<close>

theorem stats_agree_with_views:
  assumes "postgres P tables" "\<forall>w \<in> set (pg_jobs (tables p)). row_status w \<in> set statuses"
  shows "\<exists>st p'. GetQueueStats P p = (Ret st, p') \<and> pg_jobs (tables p') = pg_jobs (tables p) \<and>
    qs_Pending st = sum_list (map qd_depth (v_queue_depth (tables p))) \<and>
    [qs_Pending st, qs_Running st, qs_Completed st, qs_Failed st, qs_DeadLetter st, qs_Cancelled st] =
      map (\<lambda>x. sum_list (map sm_count (filter (\<lambda>r. sm_status r = x) (v_job_status_summary (tables p))))) statuses \<and>
    qs_Total st = sum_list (map sm_count (v_job_status_summary (tables p))) \<and>
    qs_Total st = qs_Pending st + qs_Running st + qs_Completed st + qs_Failed st + qs_DeadLetter st + qs_Cancelled st"
proof -
  obtain t where "pg_allows SelectStats ((tables p)\<lparr>pg_now := t\<rparr>) (fst (pg_exec P SelectStats p)) (tables (snd (pg_exec P SelectStats p)))"
    using postgres.exec_exact [OF assms(1), of p SelectStats] by blast
  then have x: "pg_exec P SelectStats p =
      (Inr (Stats (map (count_status (tables p)) statuses @ [int (length (pg_jobs (tables p)))]) (avg_ms ((tables p)\<lparr>pg_now := t\<rparr>))),
       snd (pg_exec P SelectStats p))"
    and s: "tables (snd (pg_exec P SelectStats p)) = (tables p)\<lparr>pg_now := t\<rparr>"
    by (simp_all add: prod_eq_iff)
  show ?thesis
    unfolding GetQueueStats_def summary_counts summary_total depth_total
    by (subst x) (use statuses_total [OF assms(2)] s in \<open>simp add: statuses_def\<close>)
qed

lemma stats_agree_with_views_witness:
  "\<exists>st p'. GetQueueStats mem_pg one_row = (Ret st, p') \<and> qs_Total st = sum_list (map sm_count (v_job_status_summary one_row))"
proof -
  have "\<forall>w \<in> set (pg_jobs one_row). row_status w \<in> set statuses" by code_simp
  from stats_agree_with_views [OF mem_db.postgres_axioms this] show ?thesis by blast
qed

end
