(* ===== verification/Metrics.thy ===== *)
theory Metrics
  imports Prelude
begin

text \<open>
  \<open>internal/metrics/prometheus.go\<close>: the collector as the values of its instruments. A counter or gauge
  with labels maps the label values to its value; a histogram keeps the durations observed, in
  nanoseconds. The registry that exports them is not modelled.
\<close>

type_synonym CounterVec = "string list \<Rightarrow> int"
type_synonym GaugeVec = "string list \<Rightarrow> int"
type_synonym HistogramVec = "string list \<Rightarrow> int list"

record Collector =
  JobsSubmitted :: CounterVec
  JobsExecuted :: CounterVec
  JobsFailed :: CounterVec
  JobsRetried :: CounterVec
  JobsDLQ :: CounterVec
  JobsCancelled :: CounterVec
  JobLatency :: HistogramVec
  JobExecutionTime :: HistogramVec
  EnqueueLatency :: "int list"
  DequeueLatency :: "int list"
  WorkersActive :: GaugeVec
  QueueDepthGauge :: GaugeVec
  JobsInflight :: int
  CronJobsActive :: int
  SchedulerLoopDuration :: "int list"
  DelayedJobsMoved :: int
  RetryAttempts :: CounterVec
  CircuitBreakerState :: GaugeVec

definition NewCollector :: Collector where
  "NewCollector = \<lparr>JobsSubmitted = (\<lambda>_. 0), JobsExecuted = (\<lambda>_. 0), JobsFailed = (\<lambda>_. 0), JobsRetried = (\<lambda>_. 0),
     JobsDLQ = (\<lambda>_. 0), JobsCancelled = (\<lambda>_. 0), JobLatency = (\<lambda>_. []), JobExecutionTime = (\<lambda>_. []),
     EnqueueLatency = [], DequeueLatency = [], WorkersActive = (\<lambda>_. 0), QueueDepthGauge = (\<lambda>_. 0),
     JobsInflight = 0, CronJobsActive = 0, SchedulerLoopDuration = [], DelayedJobsMoved = 0,
     RetryAttempts = (\<lambda>_. 0), CircuitBreakerState = (\<lambda>_. 0)\<rparr>"

text \<open>\<open>WithLabelValues(...).Inc()\<close>, \<open>.Set\<close> and \<open>.Observe\<close>.\<close>

definition inc :: "string list \<Rightarrow> CounterVec \<Rightarrow> CounterVec" where
  "inc ls v = v(ls := v ls + 1)"

definition observe :: "string list \<Rightarrow> int \<Rightarrow> HistogramVec \<Rightarrow> HistogramVec" where
  "observe ls d v = v(ls := v ls @ [d])"

definition RecordJobSubmitted :: "string \<Rightarrow> int \<Rightarrow> Collector \<Rightarrow> Collector" where
  "RecordJobSubmitted jobType priority c = c\<lparr>JobsSubmitted := inc [jobType, show_int priority] (JobsSubmitted c)\<rparr>"

definition RecordJobExecuted :: "string \<Rightarrow> string \<Rightarrow> Collector \<Rightarrow> Collector" where
  "RecordJobExecuted jobType status c = c\<lparr>JobsExecuted := inc [jobType, status] (JobsExecuted c)\<rparr>"

definition RecordJobFailed :: "string \<Rightarrow> string \<Rightarrow> Collector \<Rightarrow> Collector" where
  "RecordJobFailed jobType workerID c = c\<lparr>JobsFailed := inc [jobType, workerID] (JobsFailed c)\<rparr>"

definition RecordJobRetried :: "string \<Rightarrow> Collector \<Rightarrow> Collector" where
  "RecordJobRetried jobType c = c\<lparr>JobsRetried := inc [jobType] (JobsRetried c)\<rparr>"

definition RecordJobDLQ :: "string \<Rightarrow> Collector \<Rightarrow> Collector" where
  "RecordJobDLQ jobType c = c\<lparr>JobsDLQ := inc [jobType] (JobsDLQ c)\<rparr>"

definition RecordJobCancelled :: "string \<Rightarrow> Collector \<Rightarrow> Collector" where
  "RecordJobCancelled jobType c = c\<lparr>JobsCancelled := inc [jobType] (JobsCancelled c)\<rparr>"

definition RecordJobLatency :: "string \<Rightarrow> int \<Rightarrow> Collector \<Rightarrow> Collector" where
  "RecordJobLatency jobType d c = c\<lparr>JobLatency := observe [jobType] d (JobLatency c)\<rparr>"

definition RecordJobExecutionTime :: "string \<Rightarrow> int \<Rightarrow> Collector \<Rightarrow> Collector" where
  "RecordJobExecutionTime jobType d c = c\<lparr>JobExecutionTime := observe [jobType] d (JobExecutionTime c)\<rparr>"

definition RecordEnqueueLatency :: "int \<Rightarrow> Collector \<Rightarrow> Collector" where
  "RecordEnqueueLatency d c = c\<lparr>EnqueueLatency := EnqueueLatency c @ [d]\<rparr>"

definition RecordDequeueLatency :: "int \<Rightarrow> Collector \<Rightarrow> Collector" where
  "RecordDequeueLatency d c = c\<lparr>DequeueLatency := DequeueLatency c @ [d]\<rparr>"

definition SetWorkerActive :: "string \<Rightarrow> int \<Rightarrow> Collector \<Rightarrow> Collector" where
  "SetWorkerActive workerID active c = c\<lparr>WorkersActive := (WorkersActive c)([workerID] := active)\<rparr>"

definition SetQueueDepth :: "int \<Rightarrow> int \<Rightarrow> Collector \<Rightarrow> Collector" where
  "SetQueueDepth priority depth c = c\<lparr>QueueDepthGauge := (QueueDepthGauge c)([show_int priority] := depth)\<rparr>"

definition SetJobsInflight :: "int \<Rightarrow> Collector \<Rightarrow> Collector" where
  "SetJobsInflight n c = c\<lparr>JobsInflight := n\<rparr>"

definition SetCronJobsActive :: "int \<Rightarrow> Collector \<Rightarrow> Collector" where
  "SetCronJobsActive n c = c\<lparr>CronJobsActive := n\<rparr>"

definition RecordSchedulerLoop :: "int \<Rightarrow> Collector \<Rightarrow> Collector" where
  "RecordSchedulerLoop d c = c\<lparr>SchedulerLoopDuration := SchedulerLoopDuration c @ [d]\<rparr>"

definition RecordDelayedJobsMoved :: "int \<Rightarrow> Collector \<Rightarrow> Collector" where
  "RecordDelayedJobsMoved n c = c\<lparr>DelayedJobsMoved := DelayedJobsMoved c + n\<rparr>"

definition RecordRetryAttempt :: "string \<Rightarrow> string \<Rightarrow> Collector \<Rightarrow> Collector" where
  "RecordRetryAttempt jobType status c = c\<lparr>RetryAttempts := inc [jobType, status] (RetryAttempts c)\<rparr>"

definition SetCircuitBreakerState :: "string \<Rightarrow> int \<Rightarrow> Collector \<Rightarrow> Collector" where
  "SetCircuitBreakerState jobType st c = c\<lparr>CircuitBreakerState := (CircuitBreakerState c)([jobType] := st)\<rparr>"

text \<open>The worker's tracker: the collector and the worker id.\<close>

definition RecordJobProcessed :: "string \<Rightarrow> string \<Rightarrow> bool \<Rightarrow> Collector \<Rightarrow> Collector" where
  "RecordJobProcessed workerID jobType success c =
     (let c1 = (if success then c else RecordJobFailed jobType workerID c)
      in RecordJobExecuted jobType (if success then ''success'' else ''failure'') c1)"

definition SetActive :: "string \<Rightarrow> bool \<Rightarrow> Collector \<Rightarrow> Collector" where
  "SetActive workerID active c = SetWorkerActive workerID (if active then 1 else 0) c"

text \<open>
  A Go map is ranged over in any order: \<open>order\<close> lists the entries. Each entry sets the gauge of its own
  priority.
\<close>

definition UpdateQueueDepth :: "(int \<times> int) list \<Rightarrow> Collector \<Rightarrow> Collector" where
  "UpdateQueueDepth order c = fold (\<lambda>(priority, n). SetQueueDepth priority n) order c"

lemmas recorder_defs = RecordJobSubmitted_def RecordJobExecuted_def RecordJobFailed_def RecordJobRetried_def
  RecordJobDLQ_def RecordJobCancelled_def RecordJobLatency_def RecordJobExecutionTime_def RecordEnqueueLatency_def
  RecordDequeueLatency_def SetWorkerActive_def SetQueueDepth_def SetJobsInflight_def SetCronJobsActive_def
  RecordSchedulerLoop_def RecordDelayedJobsMoved_def RecordRetryAttempt_def SetCircuitBreakerState_def
  RecordJobProcessed_def SetActive_def inc_def observe_def

end
