(* ===== verification/Job_Json.thy ===== *)
theory Job_Json
  imports Job_Model
begin

text \<open>
  What \<open>encoding/json\<close> makes of \<open>models.Job\<close> and \<open>models.SubmitJobRequest\<close> by their
  struct tags: \<open>json.Marshal\<close> writes the fields in order, drops an empty \<open>omitempty\<close>
  field and fails for a time whose year has no four digits; a string is quoted, which puts U+FFFD for every byte
  that is not valid UTF-8 (\<open>json_string\<close>); \<open>json.Unmarshal\<close> goes through the members of the object, sets the field of that
  name (up to case), ignores other names, leaves a field alone for \<open>null\<close> (a \<open>json.RawMessage\<close> takes
  it, a pointer becomes nil) and reports a value of the wrong type.
\<close>

section \<open>Encoding\<close>

definition omit_str :: "string \<Rightarrow> string \<Rightarrow> (string \<times> json) list" where
  "omit_str k s = (if s = '''' then [] else [(k, JStr (json_string s))])"

definition omit_time :: "string \<Rightarrow> go_time option \<Rightarrow> (string \<times> json) list" where
  "omit_time k t = (case t of None \<Rightarrow> [] | Some u \<Rightarrow> [(k, JTime u)])"

definition marshal_job :: "uuid_lib \<Rightarrow> Job \<Rightarrow> json" where
  "marshal_job U j = JObj
     ([(''id'', JStr (u_String U (job_ID j))),
       (''type'', JStr (json_string (job_Type j))),
       (''payload'', case job_Payload j of None \<Rightarrow> JNull | Some p \<Rightarrow> p),
       (''priority'', JNum (job_Priority j)),
       (''status'', JStr (json_string (job_Status j))),
       (''scheduled_at'', JTime (job_ScheduledAt j)),
       (''retry_count'', JNum (job_RetryCount j)),
       (''max_retries'', JNum (job_MaxRetries j)),
       (''timeout'', JNum (job_Timeout j))] @
      (omit_str ''cron'' (job_CronExpression j) @
      (omit_time ''cron_next_run'' (job_CronNextRun j) @
      (omit_time ''started_at'' (job_StartedAt j) @
      (omit_time ''completed_at'' (job_CompletedAt j) @
      (omit_str ''worker_id'' (job_WorkerID j) @
      (omit_str ''error_message'' (job_ErrorMessage j) @
      [(''created_at'', JTime (job_CreatedAt j)),
       (''updated_at'', JTime (job_UpdatedAt j))])))))))"

text \<open>
  \<open>json.Marshal\<close> fails for a time whose year is not between 0 and 9999; nothing else in a job can
  fail.
\<close>

definition time_encodable :: "go_time \<Rightarrow> bool" where
  "time_encodable t \<longleftrightarrow> - 62167219200 * 1000000000 \<le> t \<and> t < 253402300800 * 1000000000"

definition job_encodable :: "Job \<Rightarrow> bool" where
  "job_encodable j \<longleftrightarrow>
     list_all time_encodable ([job_ScheduledAt j, job_CreatedAt j, job_UpdatedAt j] @
       List.map_filter id [job_CronNextRun j, job_StartedAt j, job_CompletedAt j])"

definition Marshal_job :: "uuid_lib \<Rightarrow> Job \<Rightarrow> json res" where
  "Marshal_job U j =
     (if job_encodable j then Ret (marshal_job U j)
      else Err (Opaque ''json: error calling MarshalJSON for type time.Time: year outside of range [0,9999]''))"

section \<open>Decoding\<close>

definition type_mismatch :: "'a res" where
  "type_mismatch = Err (Opaque ''json: cannot unmarshal'')"

fun dec_str :: "json \<Rightarrow> (string \<Rightarrow> 'a \<Rightarrow> 'a) \<Rightarrow> 'a \<Rightarrow> 'a res" where
  "dec_str (JStr s) upd j = Ret (upd s j)"
| "dec_str JNull upd j = Ret j"
| "dec_str _ upd j = type_mismatch"

fun dec_int :: "json \<Rightarrow> (int \<Rightarrow> 'a \<Rightarrow> 'a) \<Rightarrow> 'a \<Rightarrow> 'a res" where
  "dec_int (JNum n) upd j = (if in_int64 n then Ret (upd n j) else type_mismatch)"
| "dec_int JNull upd j = Ret j"
| "dec_int _ upd j = type_mismatch"

fun dec_time :: "json \<Rightarrow> (go_time \<Rightarrow> 'a \<Rightarrow> 'a) \<Rightarrow> 'a \<Rightarrow> 'a res" where
  "dec_time (JTime t) upd j = Ret (upd t j)"
| "dec_time JNull upd j = Ret j"
| "dec_time _ upd j = type_mismatch"

fun dec_time_ptr :: "json \<Rightarrow> (go_time option \<Rightarrow> 'a \<Rightarrow> 'a) \<Rightarrow> 'a \<Rightarrow> 'a res" where
  "dec_time_ptr (JTime t) upd j = Ret (upd (Some t) j)"
| "dec_time_ptr JNull upd j = Ret (upd None j)"
| "dec_time_ptr _ upd j = type_mismatch"

definition dec_uuid :: "uuid_lib \<Rightarrow> json \<Rightarrow> (uuid \<Rightarrow> 'a \<Rightarrow> 'a) \<Rightarrow> 'a \<Rightarrow> 'a res" where
  "dec_uuid U v upd j =
     (case v of
        JStr s \<Rightarrow> (case u_Parse U s of Some u \<Rightarrow> Ret (upd u j) | None \<Rightarrow> type_mismatch)
      | JNull \<Rightarrow> Ret j
      | _ \<Rightarrow> type_mismatch)"

definition zero_job :: Job where
  "zero_job = \<lparr>job_ID = 0, job_Type = '''', job_Payload = None, job_Priority = 0,
     job_Status = '''', job_ScheduledAt = zero_time, job_RetryCount = 0, job_MaxRetries = 0,
     job_Timeout = 0, job_CronExpression = '''', job_CronNextRun = None, job_StartedAt = None,
     job_CompletedAt = None, job_WorkerID = '''', job_ErrorMessage = '''',
     job_CreatedAt = zero_time, job_UpdatedAt = zero_time\<rparr>"

definition unmarshal_job_field :: "uuid_lib \<Rightarrow> string \<Rightarrow> json \<Rightarrow> Job \<Rightarrow> Job res" where
  "unmarshal_job_field U k v j =
     (if k = ''id'' then dec_uuid U v (\<lambda>u j. j\<lparr>job_ID := u\<rparr>) j
      else if k = ''type'' then dec_str v (\<lambda>s j. j\<lparr>job_Type := s\<rparr>) j
      else if k = ''payload'' then Ret (j\<lparr>job_Payload := Some v\<rparr>)
      else if k = ''priority'' then dec_int v (\<lambda>n j. j\<lparr>job_Priority := n\<rparr>) j
      else if k = ''status'' then dec_str v (\<lambda>s j. j\<lparr>job_Status := s\<rparr>) j
      else if k = ''scheduled_at'' then dec_time v (\<lambda>t j. j\<lparr>job_ScheduledAt := t\<rparr>) j
      else if k = ''retry_count'' then dec_int v (\<lambda>n j. j\<lparr>job_RetryCount := n\<rparr>) j
      else if k = ''max_retries'' then dec_int v (\<lambda>n j. j\<lparr>job_MaxRetries := n\<rparr>) j
      else if k = ''timeout'' then dec_int v (\<lambda>n j. j\<lparr>job_Timeout := n\<rparr>) j
      else if k = ''cron'' then dec_str v (\<lambda>s j. j\<lparr>job_CronExpression := s\<rparr>) j
      else if k = ''cron_next_run'' then dec_time_ptr v (\<lambda>t j. j\<lparr>job_CronNextRun := t\<rparr>) j
      else if k = ''started_at'' then dec_time_ptr v (\<lambda>t j. j\<lparr>job_StartedAt := t\<rparr>) j
      else if k = ''completed_at'' then dec_time_ptr v (\<lambda>t j. j\<lparr>job_CompletedAt := t\<rparr>) j
      else if k = ''worker_id'' then dec_str v (\<lambda>s j. j\<lparr>job_WorkerID := s\<rparr>) j
      else if k = ''error_message'' then dec_str v (\<lambda>s j. j\<lparr>job_ErrorMessage := s\<rparr>) j
      else if k = ''created_at'' then dec_time v (\<lambda>t j. j\<lparr>job_CreatedAt := t\<rparr>) j
      else if k = ''updated_at'' then dec_time v (\<lambda>t j. j\<lparr>job_UpdatedAt := t\<rparr>) j
      else Ret j)"

text \<open>Field names are compared up to the case of ASCII letters; those of the tags are lower case.\<close>

definition lower_char :: "char \<Rightarrow> char" where
  "lower_char c = (if 65 \<le> (of_char c :: nat) \<and> (of_char c :: nat) \<le> 90
     then char_of ((of_char c :: nat) + 32) else c)"

definition fold_name :: "string \<Rightarrow> string" where
  "fold_name k = map lower_char k"

fun dec_members :: "(string \<Rightarrow> json \<Rightarrow> 'a \<Rightarrow> 'a res) \<Rightarrow> (string \<times> json) list \<Rightarrow> 'a \<Rightarrow> 'a res" where
  "dec_members f [] j = Ret j"
| "dec_members f ((k, v) # kvs) j = bind_res (f (fold_name k) v j) (dec_members f kvs)"

fun dec_struct :: "(string \<Rightarrow> json \<Rightarrow> 'a \<Rightarrow> 'a res) \<Rightarrow> 'a \<Rightarrow> json \<Rightarrow> 'a res" where
  "dec_struct f zero (JObj kvs) = dec_members f kvs zero"
| "dec_struct f zero JNull = Ret zero"
| "dec_struct f zero _ = type_mismatch"

definition unmarshal_job :: "uuid_lib \<Rightarrow> json \<Rightarrow> Job res" where
  "unmarshal_job U v = dec_struct (unmarshal_job_field U) zero_job v"

definition unmarshal_submit_field :: "string \<Rightarrow> json \<Rightarrow> SubmitJobRequest \<Rightarrow> SubmitJobRequest res" where
  "unmarshal_submit_field k v r =
     (if k = ''type'' then dec_str v (\<lambda>s r. r\<lparr>req_Type := s\<rparr>) r
      else if k = ''payload'' then Ret (r\<lparr>req_Payload := Some v\<rparr>)
      else if k = ''priority'' then dec_int v (\<lambda>n r. r\<lparr>req_Priority := n\<rparr>) r
      else if k = ''max_retries'' then dec_int v (\<lambda>n r. r\<lparr>req_MaxRetries := n\<rparr>) r
      else if k = ''timeout'' then dec_int v (\<lambda>n r. r\<lparr>req_Timeout := n\<rparr>) r
      else if k = ''scheduled_at'' then dec_time_ptr v (\<lambda>t r. r\<lparr>req_ScheduledAt := t\<rparr>) r
      else if k = ''cron'' then dec_str v (\<lambda>s r. r\<lparr>req_Cron := s\<rparr>) r
      else Ret r)"

definition zero_submit :: SubmitJobRequest where
  "zero_submit = \<lparr>req_Type = '''', req_Payload = None, req_Priority = 0, req_MaxRetries = 0,
     req_Timeout = 0, req_ScheduledAt = None, req_Cron = ''''\<rparr>"

definition unmarshal_submit :: "json \<Rightarrow> SubmitJobRequest res" where
  "unmarshal_submit v = dec_struct unmarshal_submit_field zero_submit v"

section \<open>Round trip\<close>

text \<open>
  The documented behaviour of the \<open>uuid\<close> package: \<open>Parse\<close> reads back what \<open>String\<close>
  wrote.
\<close>

definition uuid_ok :: "uuid_lib \<Rightarrow> bool" where
  "uuid_ok U \<longleftrightarrow> (\<forall>u. u_Parse U (u_String U u) = Some u)"

lemma uuid_String_inject: "uuid_ok U \<Longrightarrow> u_String U u = u_String U w \<longleftrightarrow> u = w"
  by (metis option.inject uuid_ok_def)

text \<open>An instance, for examples: a UUID written as its decimal value.\<close>

definition demo_uuid :: uuid_lib where
  "demo_uuid = \<lparr>u_String = \<lambda>u. show_nat (unat u),
     u_Parse = \<lambda>s. (case parse_digits s of None \<Rightarrow> None | Some i \<Rightarrow> Some (of_int i)),
     u_ID = \<lambda>u. ucast u\<rparr>"

lemma demo_uuid_ok [simp]: "uuid_ok demo_uuid"
  by (simp add: uuid_ok_def demo_uuid_def)

definition job_int64 :: "Job \<Rightarrow> bool" where
  "job_int64 j \<longleftrightarrow> in_int64 (job_Priority j) \<and> in_int64 (job_RetryCount j) \<and>
     in_int64 (job_MaxRetries j) \<and> in_int64 (job_Timeout j)"

lemma dec_members_append:
  "dec_members f (xs @ ys) j = bind_res (dec_members f xs j) (dec_members f ys)"
proof (induction xs arbitrary: j)
  case (Cons x xs)
  obtain k v where "x = (k, v)" by (cases x)
  then show ?case using Cons by (cases "f (fold_name k) v j") simp_all
qed simp

lemma dec_omit_str:
  assumes "\<And>s. f k (JStr s) j = Ret (upd s j)" and "upd '''' j = j" and "fold_name k = k"
  shows "dec_members f (omit_str k s @ rest) j = dec_members f rest (upd (json_string s) j)"
  using assms by (simp add: omit_str_def)

lemma dec_omit_time:
  assumes "\<And>t. f k (JTime t) j = Ret (upd (Some t) j)" and "upd None j = j" and "fold_name k = k"
  shows "dec_members f (omit_time k t @ rest) j = dec_members f rest (upd t j)"
  using assms by (cases t) (simp_all add: omit_time_def)

lemmas unmarshal_job_omit =
  dec_omit_str [where f = "unmarshal_job_field U" and k = "''cron''" and
    upd = "\<lambda>s j. j\<lparr>job_CronExpression := s\<rparr>" for U]
  dec_omit_time [where f = "unmarshal_job_field U" and k = "''cron_next_run''" and
    upd = "\<lambda>t j. j\<lparr>job_CronNextRun := t\<rparr>" for U]
  dec_omit_time [where f = "unmarshal_job_field U" and k = "''started_at''" and
    upd = "\<lambda>t j. j\<lparr>job_StartedAt := t\<rparr>" for U]
  dec_omit_time [where f = "unmarshal_job_field U" and k = "''completed_at''" and
    upd = "\<lambda>t j. j\<lparr>job_CompletedAt := t\<rparr>" for U]
  dec_omit_str [where f = "unmarshal_job_field U" and k = "''worker_id''" and
    upd = "\<lambda>s j. j\<lparr>job_WorkerID := s\<rparr>" for U]
  dec_omit_str [where f = "unmarshal_job_field U" and k = "''error_message''" and
    upd = "\<lambda>s j. j\<lparr>job_ErrorMessage := s\<rparr>" for U]

text \<open>
  A job as it comes back from JSON: its strings with U+FFFD for the bytes that are not UTF-8, a nil payload as the
  document \<open>null\<close>.
\<close>

definition from_json :: "Job \<Rightarrow> Job" where
  "from_json j = j\<lparr>job_Type := json_string (job_Type j),
     job_Payload := Some (case job_Payload j of None \<Rightarrow> JNull | Some p \<Rightarrow> p),
     job_Status := json_string (job_Status j), job_CronExpression := json_string (job_CronExpression j),
     job_WorkerID := json_string (job_WorkerID j), job_ErrorMessage := json_string (job_ErrorMessage j)\<rparr>"

definition job_strings_utf8 :: "Job \<Rightarrow> bool" where
  "job_strings_utf8 j \<longleftrightarrow> list_all valid_utf8
     [job_Type j, job_Status j, job_CronExpression j, job_WorkerID j, job_ErrorMessage j]"

lemma json_string_status [simp]:
  "json_string JobStatusPending = JobStatusPending" "json_string JobStatusRunning = JobStatusRunning"
  "json_string JobStatusCompleted = JobStatusCompleted" "json_string JobStatusFailed = JobStatusFailed"
  "json_string JobStatusDeadLetter = JobStatusDeadLetter" "json_string JobStatusCancelled = JobStatusCancelled"
  by code_simp+

lemma from_json_sel [simp]:
  "job_ID (from_json j) = job_ID j" "job_Type (from_json j) = json_string (job_Type j)"
  "job_Status (from_json j) = json_string (job_Status j)"
  "job_RetryCount (from_json j) = job_RetryCount j" "job_Priority (from_json j) = job_Priority j"
  "job_encodable (from_json j) = job_encodable j" "job_int64 (from_json j) = job_int64 j"
  by (simp_all add: from_json_def job_encodable_def job_int64_def)

lemma from_json_id_iff: "from_json j = j \<longleftrightarrow> job_Payload j \<noteq> None \<and> job_strings_utf8 j"
  by (cases j; cases "job_Payload j") (auto simp: from_json_def job_strings_utf8_def json_string_id_iff)

lemma from_json_id: "job_Payload j \<noteq> None \<Longrightarrow> job_strings_utf8 j \<Longrightarrow> from_json j = j"
  by (simp add: from_json_id_iff)

lemma from_json_normal [simp]: "job_Payload (from_json j) \<noteq> None" "job_strings_utf8 (from_json j)"
  by (simp_all add: from_json_def job_strings_utf8_def)

lemma unmarshal_marshal:
  assumes "uuid_ok U" and "job_int64 j"
  shows "unmarshal_job U (marshal_job U j) = Ret (from_json j)"
  using assms
  by (simp add: unmarshal_job_def marshal_job_def unmarshal_job_omit unmarshal_job_field_def from_json_def
      dec_uuid_def uuid_ok_def job_int64_def zero_job_def fold_name_def lower_char_def)

lemma unmarshal_job_not_Panic [simp]: "unmarshal_job U v \<noteq> Panic p"
proof -
  have field: "unmarshal_job_field U k v j \<noteq> Panic p" for k v j
    by (cases v) (auto simp: unmarshal_job_field_def dec_uuid_def type_mismatch_def split: option.splits)
  have members: "dec_members (unmarshal_job_field U) kvs j \<noteq> Panic p" for kvs j
  proof (induction kvs arbitrary: j)
    case (Cons x kvs)
    obtain k v where "x = (k, v)" by (cases x)
    then show ?case using Cons field [of "fold_name k" v j]
      by (cases "unmarshal_job_field U (fold_name k) v j") auto
  qed simp
  show ?thesis
    using members by (cases v) (simp_all add: unmarshal_job_def type_mismatch_def)
qed

section \<open>Properties\<close>

text \<open>
  C26: Writing a job as JSON and reading it back. \<open>json.Marshal\<close> fails exactly for a job with a time outside the years
  0 to 9999; otherwise \<open>json.Unmarshal\<close> succeeds on what it wrote and gives \<open>from_json\<close> of the job: every field of
  its own (times as instants), a nil payload as \<open>null\<close> and every string byte that is not UTF-8 as U+FFFD. This is the
  same job exactly if the payload is not nil and the strings are valid UTF-8, and a second round trip changes nothing.
\<close>

theorem job_json_roundtrip:
  assumes "uuid_ok U" and "job_int64 j"
  shows "(case Marshal_job U j of
       Ret d \<Rightarrow> job_encodable j \<and> unmarshal_job U d = Ret (from_json j)
     | Err e \<Rightarrow> \<not> job_encodable j
     | Panic p \<Rightarrow> False) \<and>
    (from_json j = j \<longleftrightarrow> job_Payload j \<noteq> None \<and> job_strings_utf8 j) \<and>
    from_json (from_json j) = from_json j"
  using assms by (simp add: Marshal_job_def unmarshal_marshal from_json_id_iff)

lemma job_json_roundtrip_witness:
  "let j = zero_job\<lparr>job_ID := 42, job_Type := [CHR ''a'', CHR 0xFF], job_Payload := Some (JNum 1)\<rparr> in
     (case Marshal_job demo_uuid j of Ret d \<Rightarrow> unmarshal_job demo_uuid d | Err e \<Rightarrow> Err e | Panic p \<Rightarrow> Panic p) =
       Ret (j\<lparr>job_Type := [CHR ''a'', CHR 0xEF, CHR 0xBF, CHR 0xBD]\<rparr>)"
proof -
  let ?j = "zero_job\<lparr>job_ID := 42, job_Type := [CHR ''a'', CHR 0xFF], job_Payload := Some (JNum 1)\<rparr>"
  have "job_encodable ?j" "json_string [CHR ''a'', CHR 0xFF] = [CHR ''a'', CHR 0xEF, CHR 0xBF, CHR 0xBD]" by code_simp+
  moreover from this have "from_json ?j = ?j\<lparr>job_Type := [CHR ''a'', CHR 0xEF, CHR 0xBF, CHR 0xBD]\<rparr>"
    by (simp add: from_json_def zero_job_def)
  moreover have "job_int64 ?j"
    by (simp add: job_int64_def zero_job_def in_int64_def min_int64_def max_int64_def)
  ultimately show ?thesis
    using job_json_roundtrip [of demo_uuid ?j] by (simp add: Marshal_job_def Let_def)
qed

end
