(* ===== verification/Redis_Server.thy ===== *)
theory Redis_Server
  imports Job_Json "HOL-Library.Finite_Map" "HOL-Library.List_Lexorder" "HOL-Library.Char_ord" "HOL-Library.Product_Lexorder"
begin

text \<open>
  Redis as the queue and the lock see it. The server and the client library are not part of
  the repository: they are the parameter \<open>'r redis\<close> of every operation. What the code relies
  on is stated by two locales: \<open>redis_server\<close>, a server other clients use too, over a
  connection that may fail before or after the server has acted; and \<open>redis_isolated\<close>, an
  undisturbed call. Both describe the server's commands by \<open>redis_doc\<close>, the effect the Redis
  command reference gives each command on the key space.
\<close>

section \<open>Commands and replies\<close>

text \<open>A bulk string is a text or a serialised JSON document.\<close>

datatype bulk = Text string | Doc json

datatype reply =
    RNil | ROk | RInt int | RBulk bulk | RArr "reply list" | RErr string

datatype rcmd =
    SET string bulk | SET_EX string bulk int | SET_PX string bulk int
  | EXPIRE string int | PEXPIRE string int
  | GET string | DEL string | EXISTS string
  | LPUSH string string | RPOP string | LLEN string | LRANGE string int int
  | ZADD string int string | ZREM string string | ZCARD string
  | ZRANGEBYSCORE string int int "int option"
  | TIME

text \<open>
  The client: \<open>exec\<close> is the server executing one command; \<open>rtt\<close> sends one request (a command
  or a script, given by what the server does for it) and waits for its reply; \<open>evalsha\<close> is
  the same for a script named by its hash; \<open>pipe\<close> sends several commands at once and
  collects their replies; \<open>scan\<close> iterates over the keys with a prefix and ends with an error
  or not.
\<close>

record 'r redis =
  exec :: "rcmd \<Rightarrow> 'r \<Rightarrow> reply \<times> 'r"
  rtt :: "('r \<Rightarrow> reply \<times> 'r) \<Rightarrow> 'r \<Rightarrow> (go_error + reply) \<times> 'r"
  evalsha :: "('r \<Rightarrow> reply \<times> 'r) \<Rightarrow> 'r \<Rightarrow> (go_error + reply) \<times> 'r"
  pipe :: "rcmd list \<Rightarrow> 'r \<Rightarrow> (go_error + reply list) \<times> 'r"
  scan :: "string \<Rightarrow> 'r \<Rightarrow> (string list \<times> go_error option) \<times> 'r"

text \<open>\<open>redis.call\<close> in a Lua script: an error reply ends the script with that error.\<close>

definition lua_call :: "'r redis \<Rightarrow> rcmd \<Rightarrow> (reply \<Rightarrow> 'r \<Rightarrow> reply \<times> 'r) \<Rightarrow> 'r \<Rightarrow> reply \<times> 'r" where
  "lua_call R c k r =
     (case exec R c r of
        (RErr e, r') \<Rightarrow> (RErr e, r')
      | (x, r') \<Rightarrow> k x r')"

definition lua_return :: "reply \<Rightarrow> 'r \<Rightarrow> reply \<times> 'r" where
  "lua_return x r = (x, r)"

text \<open>How the client library reports a reply: a nil reply is the error \<open>redis.Nil\<close>.\<close>

fun client_reply :: "reply \<Rightarrow> go_error + reply" where
  "client_reply RNil = Inl RedisNil"
| "client_reply (RErr e) = Inl (Opaque e)"
| "client_reply x = Inr x"

text \<open>\<open>Pipeline.Exec\<close> returns the error of the first command that has one.\<close>

fun pipe_reply :: "reply list \<Rightarrow> go_error + reply list" where
  "pipe_reply [] = Inr []"
| "pipe_reply (x # xs) =
     (case client_reply x of
        Inl e \<Rightarrow> Inl e
      | Inr y \<Rightarrow> (case pipe_reply xs of Inl e \<Rightarrow> Inl e | Inr ys \<Rightarrow> Inr (y # ys)))"

section \<open>The documented key space\<close>

text \<open>
  A key holds a string, a list or a sorted set, with an optional deadline in milliseconds.
  A list has its head first; a sorted set is a list sorted by score, then by member. Scores
  are integers: a double represents every millisecond timestamp below 2^53 exactly.
\<close>

datatype rvalue = VStr bulk | VList "string list" | VZset "(int \<times> string) list"

record rstate =
  rs_db :: "(string, rvalue \<times> int option) fmap"
  rs_us :: int

definition now_ms :: "rstate \<Rightarrow> int" where
  "now_ms s = rs_us s div 1000"

definition entry :: "rstate \<Rightarrow> string \<Rightarrow> (rvalue \<times> int option) option" where
  "entry s k =
     (case fmlookup (rs_db s) k of
        Some (v, Some d) \<Rightarrow> if now_ms s \<le> d then Some (v, Some d) else None
      | x \<Rightarrow> x)"

definition put :: "string \<Rightarrow> (rvalue \<times> int option) option \<Rightarrow> rstate \<Rightarrow> rstate" where
  "put k x s =
     s\<lparr>rs_db := (case x of None \<Rightarrow> fmdrop k (rs_db s) | Some e \<Rightarrow> fmupd k e (rs_db s))\<rparr>"

definition ttl_of :: "(rvalue \<times> int option) option \<Rightarrow> int option" where
  "ttl_of x = (case x of Some (v, d) \<Rightarrow> d | None \<Rightarrow> None)"

definition put_list :: "string \<Rightarrow> string list \<Rightarrow> rstate \<Rightarrow> rstate" where
  "put_list k xs s = put k (if xs = [] then None else Some (VList xs, ttl_of (entry s k))) s"

definition put_zset :: "string \<Rightarrow> (int \<times> string) list \<Rightarrow> rstate \<Rightarrow> rstate" where
  "put_zset k z s = put k (if z = [] then None else Some (VZset z, ttl_of (entry s k))) s"

definition wrongtype :: reply where
  "wrongtype = RErr ''WRONGTYPE Operation against a key holding the wrong kind of value''"

definition on_list :: "string \<Rightarrow> rstate \<Rightarrow> (string list \<Rightarrow> reply \<times> rstate) \<Rightarrow> reply \<times> rstate" where
  "on_list k s f =
     (case entry s k of
        None \<Rightarrow> f []
      | Some (VList xs, d) \<Rightarrow> f xs
      | _ \<Rightarrow> (wrongtype, s))"

definition on_zset :: "string \<Rightarrow> rstate \<Rightarrow> ((int \<times> string) list \<Rightarrow> reply \<times> rstate) \<Rightarrow> reply \<times> rstate" where
  "on_zset k s f =
     (case entry s k of
        None \<Rightarrow> f []
      | Some (VZset z, d) \<Rightarrow> f z
      | _ \<Rightarrow> (wrongtype, s))"

definition zrem :: "string \<Rightarrow> (int \<times> string) list \<Rightarrow> (int \<times> string) list" where
  "zrem m z = filter (\<lambda>e. snd e \<noteq> m) z"

definition zadd :: "int \<Rightarrow> string \<Rightarrow> (int \<times> string) list \<Rightarrow> (int \<times> string) list" where
  "zadd sc m z = insort (sc, m) (zrem m z)"

definition zrange :: "int \<Rightarrow> int \<Rightarrow> int option \<Rightarrow> (int \<times> string) list \<Rightarrow> string list" where
  "zrange mn mx lim z =
     (let ms = map snd (filter (\<lambda>e. mn \<le> fst e \<and> fst e \<le> mx) z)
      in case lim of Some n \<Rightarrow> if n < 0 then ms else take (nat n) ms | None \<Rightarrow> ms)"

text \<open>\<open>LRANGE\<close>: both ends are included, a negative index counts from the end.\<close>

definition lrange :: "int \<Rightarrow> int \<Rightarrow> string list \<Rightarrow> string list" where
  "lrange start stop xs =
     (let n = int (length xs);
          a = (if start < 0 then max 0 (n + start) else start);
          b = (if stop < 0 then n + stop else stop)
      in take (nat (b - a + 1)) (drop (nat a) xs))"

definition bulks :: "string list \<Rightarrow> reply" where
  "bulks xs = RArr (map (\<lambda>x. RBulk (Text x)) xs)"

definition bad_expire :: reply where
  "bad_expire = RErr ''ERR invalid expire time in 'set' command''"

fun redis_doc :: "rcmd \<Rightarrow> rstate \<Rightarrow> reply \<times> rstate" where
  "redis_doc (SET k v) s = (ROk, put k (Some (VStr v, None)) s)"
| "redis_doc (SET_EX k v sec) s =
     (if sec \<le> 0 then (bad_expire, s)
      else (ROk, put k (Some (VStr v, Some (now_ms s + 1000 * sec))) s))"
| "redis_doc (SET_PX k v ms) s =
     (if ms \<le> 0 then (bad_expire, s)
      else (ROk, put k (Some (VStr v, Some (now_ms s + ms))) s))"
| "redis_doc (EXPIRE k sec) s =
     (case entry s k of
        None \<Rightarrow> (RInt 0, s)
      | Some (v, d) \<Rightarrow>
          (RInt 1, put k (if sec \<le> 0 then None else Some (v, Some (now_ms s + 1000 * sec))) s))"
| "redis_doc (PEXPIRE k ms) s =
     (case entry s k of
        None \<Rightarrow> (RInt 0, s)
      | Some (v, d) \<Rightarrow>
          (RInt 1, put k (if ms \<le> 0 then None else Some (v, Some (now_ms s + ms))) s))"
| "redis_doc (GET k) s =
     (case entry s k of
        None \<Rightarrow> (RNil, s)
      | Some (VStr v, d) \<Rightarrow> (RBulk v, s)
      | _ \<Rightarrow> (wrongtype, s))"
| "redis_doc (DEL k) s = (RInt (if entry s k = None then 0 else 1), put k None s)"
| "redis_doc (EXISTS k) s = (RInt (if entry s k = None then 0 else 1), s)"
| "redis_doc (LPUSH k m) s =
     on_list k s (\<lambda>xs. (RInt (int (length xs) + 1), put_list k (m # xs) s))"
| "redis_doc (RPOP k) s =
     on_list k s (\<lambda>xs. if xs = [] then (RNil, s)
                       else (RBulk (Text (last xs)), put_list k (butlast xs) s))"
| "redis_doc (LLEN k) s = on_list k s (\<lambda>xs. (RInt (int (length xs)), s))"
| "redis_doc (LRANGE k a b) s = on_list k s (\<lambda>xs. (bulks (lrange a b xs), s))"
| "redis_doc (ZADD k sc m) s =
     on_zset k s (\<lambda>z. (RInt (if m \<in> snd ` set z then 0 else 1), put_zset k (zadd sc m z) s))"
| "redis_doc (ZREM k m) s =
     on_zset k s (\<lambda>z. (RInt (if m \<in> snd ` set z then 1 else 0), put_zset k (zrem m z) s))"
| "redis_doc (ZCARD k) s = on_zset k s (\<lambda>z. (RInt (int (length z)), s))"
| "redis_doc (ZRANGEBYSCORE k mn mx lim) s = on_zset k s (\<lambda>z. (bulks (zrange mn mx lim z), s))"
| "redis_doc TIME s =
     (RArr [RBulk (Text (show_int (rs_us s div 1000000))), RBulk (Text (show_int (rs_us s mod 1000000)))], s)"

text \<open>The key a command may change.\<close>

fun cmd_key :: "rcmd \<Rightarrow> string option" where
  "cmd_key (SET k v) = Some k" | "cmd_key (SET_EX k v t) = Some k" | "cmd_key (SET_PX k v t) = Some k"
| "cmd_key (EXPIRE k t) = Some k" | "cmd_key (PEXPIRE k t) = Some k" | "cmd_key (DEL k) = Some k"
| "cmd_key (LPUSH k m) = Some k" | "cmd_key (RPOP k) = Some k"
| "cmd_key (ZADD k sc m) = Some k" | "cmd_key (ZREM k m) = Some k"
| "cmd_key _ = None"

section \<open>Facts about the key space\<close>

lemma lookup_put [simp]:
  "fmlookup (rs_db (put k x s)) k' = (if k' = k then x else fmlookup (rs_db s) k')"
  by (simp add: put_def split: option.splits)

lemma put_clock [simp]: "rs_us (put k x s) = rs_us s" "now_ms (put k x s) = now_ms s"
  by (simp_all add: put_def now_ms_def split: option.splits)

lemma put_list_clock [simp]: "rs_us (put_list k x s) = rs_us s" "now_ms (put_list k x s) = now_ms s"
  by (simp_all add: put_list_def)

lemma put_zset_clock [simp]: "rs_us (put_zset k x s) = rs_us s" "now_ms (put_zset k x s) = now_ms s"
  by (simp_all add: put_zset_def)

lemma on_list_snd: "snd (on_list k s f) = s \<or> (\<exists>xs. snd (on_list k s f) = snd (f xs))"
  by (auto simp: on_list_def split: option.splits rvalue.splits)

lemma on_zset_snd: "snd (on_zset k s f) = s \<or> (\<exists>z. snd (on_zset k s f) = snd (f z))"
  by (auto simp: on_zset_def split: option.splits rvalue.splits)

text \<open>A command changes at most the key it names and never the clock.\<close>

lemma redis_doc_frame:
  "cmd_key c \<noteq> Some k \<Longrightarrow> fmlookup (rs_db (snd (redis_doc c s))) k = fmlookup (rs_db s) k"
  by (cases c) (auto simp: on_list_def on_zset_def put_list_def put_zset_def
      split: option.splits rvalue.splits)

lemma redis_doc_clock [simp]: "rs_us (snd (redis_doc c s)) = rs_us s"
  by (cases c) (auto simp: on_list_def on_zset_def split: option.splits rvalue.splits)

lemma redis_doc_now [simp]: "now_ms (snd (redis_doc c s)) = now_ms s"
  by (simp add: now_ms_def)

text \<open>The list, the sorted set and the string at a key.\<close>

definition list_at :: "rstate \<Rightarrow> string \<Rightarrow> string list" where
  "list_at s k = (case entry s k of Some (VList xs, d) \<Rightarrow> xs | _ \<Rightarrow> [])"

definition zset_at :: "rstate \<Rightarrow> string \<Rightarrow> (int \<times> string) list" where
  "zset_at s k = (case entry s k of Some (VZset z, d) \<Rightarrow> z | _ \<Rightarrow> [])"

definition str_at :: "rstate \<Rightarrow> string \<Rightarrow> bulk option" where
  "str_at s k = (case entry s k of Some (VStr b, d) \<Rightarrow> Some b | _ \<Rightarrow> None)"

definition members :: "(int \<times> string) list \<Rightarrow> string set" where
  "members z = snd ` set z"

lemma members_zrem [simp]: "members (zrem m z) = members z - {m}"
  by (auto simp: members_def zrem_def)

lemma members_zadd [simp]: "members (zadd sc m z) = insert m (members z)"
  by (simp add: zadd_def members_def set_insort_key) (auto simp: zrem_def)

lemma sorted_zadd: "sorted z \<Longrightarrow> sorted (zadd sc m z)"
  by (simp add: zadd_def zrem_def sorted_insort sorted_filter [where f = "\<lambda>x. x", simplified])

lemma sorted_zrem: "sorted z \<Longrightarrow> sorted (zrem m z)"
  by (simp add: zrem_def sorted_filter [where f = "\<lambda>x. x", simplified])

section \<open>Contracts of the client library\<close>

fun run_all :: "'r redis \<Rightarrow> rcmd list \<Rightarrow> 'r \<Rightarrow> reply list \<times> 'r" where
  "run_all R [] r = ([], r)"
| "run_all R (c # cs) r =
     (let (x, r1) = exec R c r; (xs, r2) = run_all R cs r1 in (x # xs, r2))"

text \<open>Commands of one connection with the effects \<open>env\<close> of other clients in between.\<close>

inductive shared_run ::
  "'r redis \<Rightarrow> ('r \<Rightarrow> rstate) \<Rightarrow> (rstate \<Rightarrow> rstate \<Rightarrow> bool) \<Rightarrow> rcmd list \<Rightarrow> 'r \<Rightarrow> reply list \<Rightarrow> 'r \<Rightarrow> bool"
  for R view env where
  finished: "env (view r) (view r') \<Longrightarrow> shared_run R view env [] r [] r'"
| command: "env (view r) (view r0) \<Longrightarrow> exec R c r0 = (x, r1) \<Longrightarrow> shared_run R view env cs r1 xs r' \<Longrightarrow>
    shared_run R view env (c # cs) r (x # xs) r'"

locale redis_commands =
  fixes R :: "'r redis" and view :: "'r \<Rightarrow> rstate"
  assumes exec_reply: "fst (exec R c r) = fst (redis_doc c (view r))"
    and exec_view: "view (snd (exec R c r)) = snd (redis_doc c (view r))"

context redis_commands
begin

text \<open>What a script does, in terms of the documented key space.\<close>

lemma lua_call_fst:
  "fst (lua_call R c k r) =
     (case fst (redis_doc c (view r)) of RErr e \<Rightarrow> RErr e
      | x \<Rightarrow> fst (k x (snd (exec R c r))))"
  using exec_reply [of c r] by (cases "exec R c r") (auto simp: lua_call_def split: reply.splits)

lemma lua_call_view:
  "view (snd (lua_call R c k r)) =
     (case fst (redis_doc c (view r)) of RErr e \<Rightarrow> snd (redis_doc c (view r))
      | x \<Rightarrow> view (snd (k x (snd (exec R c r)))))"
  using exec_reply [of c r] exec_view [of c r]
  by (cases "exec R c r") (auto simp: lua_call_def split: reply.splits)

lemma lua_return_sel: "fst (lua_return x r) = x" "snd (lua_return x r) = r"
  by (simp_all add: lua_return_def)

lemmas script_simps = lua_call_fst lua_call_view lua_return_sel exec_view

end

text \<open>
  The client sends a request again when the connection breaks (\<open>MaxRetries\<close>, three times unless it is set, which
  \<open>NewRedisQueue\<close> does not do). \<open>lost\<close>: the request \<open>f\<close> may have been carried out any number of times, its answers
  lost, with the effects of other clients before each time. \<open>broken_runs\<close>: the same for a pipeline, whose abandoned
  attempts may have stopped anywhere.
\<close>

inductive lost :: "('r \<Rightarrow> rstate) \<Rightarrow> (rstate \<Rightarrow> rstate \<Rightarrow> bool) \<Rightarrow> ('r \<Rightarrow> 'a \<times> 'r) \<Rightarrow> 'r \<Rightarrow> 'r \<Rightarrow> bool"
  for view env f where
  lost_none: "env (view r) (view r0) \<Longrightarrow> lost view env f r r0"
| lost_more: "lost view env f r r0 \<Longrightarrow> env (view (snd (f r0))) (view r1) \<Longrightarrow> lost view env f r r1"

inductive broken_runs ::
  "'r redis \<Rightarrow> ('r \<Rightarrow> rstate) \<Rightarrow> (rstate \<Rightarrow> rstate \<Rightarrow> bool) \<Rightarrow> rcmd list \<Rightarrow> 'r \<Rightarrow> 'r \<Rightarrow> bool"
  for R view env cs where
  no_run: "broken_runs R view env cs r r"
| one_more: "broken_runs R view env cs r r0 \<Longrightarrow> shared_run R view env (take m cs) r0 xs r1 \<Longrightarrow>
    broken_runs R view env cs r r1"

text \<open>
  A server with other clients: after attempts that were lost, a request takes effect and is answered, or takes
  effect or not and the call returns an error; a pipeline stops somewhere. \<open>env\<close> is what others, and time, may do.
\<close>

locale redis_server = redis_commands +
  fixes env :: "rstate \<Rightarrow> rstate \<Rightarrow> bool"
  assumes rtt_law: "\<exists>r0. lost view env f r r0 \<and>
      (rtt R f r = (client_reply (fst (f r0)), snd (f r0)) \<or>
       (\<exists>e. \<not> errors_Is e RedisNil \<and> (rtt R f r = (Inl e, r0) \<or> rtt R f r = (Inl e, snd (f r0)))))"
    and evalsha_law: "\<exists>r0. lost view env f r r0 \<and>
      (evalsha R f r = (client_reply (fst (f r0)), snd (f r0)) \<or>
       (\<exists>e. \<not> errors_Is e RedisNil \<and> (evalsha R f r = (Inl e, r0) \<or> evalsha R f r = (Inl e, snd (f r0)))))"
    and pipe_law: "\<exists>r0 n xs r'. broken_runs R view env cs r r0 \<and> shared_run R view env (take n cs) r0 xs r' \<and>
      ((\<exists>e. \<not> errors_Is e RedisNil \<and> pipe R cs r = (Inl e, r')) \<or>
       length cs \<le> n \<and> pipe R cs r = (pipe_reply xs, r'))"
    and scan_law: "env (view r) (view (snd (scan R p r)))"
    and scan_match: "k \<in> set (fst (fst (scan R p r))) \<Longrightarrow> HasPrefix k p"

context redis_server
begin

text \<open>An assertion that other clients and each command keep survives every call.\<close>

lemma lost_inv:
  assumes "lost view env f r r0" and "\<forall>s s'. env s s' \<longrightarrow> I s \<longrightarrow> I s'"
    and "\<And>r. I (view r) \<Longrightarrow> I (view (snd (f r)))" and "I (view r)"
  shows "I (view r0)"
  using assms(1,4)
proof (induction rule: lost.induct)
  case (lost_more r r0 r1)
  then have "I (view (snd (f r0)))" by (intro assms(3)) simp
  then show ?case using lost_more.hyps(2) assms(2) by blast
qed (use assms(2) in blast)

lemma call_inv:
  assumes "\<forall>s s'. env s s' \<longrightarrow> I s \<longrightarrow> I s'" and "\<And>r. I (view r) \<Longrightarrow> I (view (snd (f r)))" and "I (view r)"
  shows "I (view (snd (rtt R f r)))" and "I (view (snd (evalsha R f r)))"
proof -
  have I: "I (view r')" if e: "lost view env f r r0" and c: "r' = r0 \<or> r' = snd (f r0)" for r0 r'
  proof -
    have "I (view r0)" using lost_inv [OF e assms] .
    then show ?thesis using assms(2) [of r0] c by auto
  qed
  show "I (view (snd (rtt R f r)))"
  proof (rule exE [OF rtt_law [of f r]], elim conjE)
    fix r0
    assume e: "lost view env f r r0" and c: "rtt R f r = (client_reply (fst (f r0)), snd (f r0)) \<or>
       (\<exists>e. \<not> errors_Is e RedisNil \<and> (rtt R f r = (Inl e, r0) \<or> rtt R f r = (Inl e, snd (f r0))))"
    from c have "snd (rtt R f r) = r0 \<or> snd (rtt R f r) = snd (f r0)" by (elim disjE exE conjE) simp_all
    with e show ?thesis by (rule I)
  qed
  show "I (view (snd (evalsha R f r)))"
  proof (rule exE [OF evalsha_law [of f r]], elim conjE)
    fix r0
    assume e: "lost view env f r r0" and c: "evalsha R f r = (client_reply (fst (f r0)), snd (f r0)) \<or>
       (\<exists>e. \<not> errors_Is e RedisNil \<and> (evalsha R f r = (Inl e, r0) \<or> evalsha R f r = (Inl e, snd (f r0))))"
    from c have "snd (evalsha R f r) = r0 \<or> snd (evalsha R f r) = snd (f r0)" by (elim disjE exE conjE) simp_all
    with e show ?thesis by (rule I)
  qed
qed

lemma shared_run_inv:
  assumes "shared_run R view env cs r xs r'" and "\<forall>s s'. env s s' \<longrightarrow> I s \<longrightarrow> I s'"
    and "\<forall>c \<in> set cs. \<forall>s. I s \<longrightarrow> I (snd (redis_doc c s))" and "I (view r)"
  shows "I (view r')"
  using assms
proof (induction rule: shared_run.induct)
  case (command r r0 c x r1 cs xs r')
  have "I (view r1)"
    using command exec_view [of c r0] by (metis list.set_intros(1) snd_conv)
  with command show ?case by simp
qed blast

text \<open>Assertions that change from command to command: wherever a pipeline stops, one of them holds.\<close>

lemma shared_run_stages:
  assumes "shared_run R view env cs r xs r'" and "\<forall>i s s'. env s s' \<longrightarrow> Is i s \<longrightarrow> Is i s'"
    and "\<forall>i < length cs. \<forall>s. Is i s \<longrightarrow> Is (Suc i) (snd (redis_doc (cs ! i) s))" and "Is 0 (view r)"
  shows "Is (length cs) (view r')"
  using assms
proof (induction arbitrary: Is rule: shared_run.induct)
  case (finished r r')
  then show ?case by (metis list.size(3))
next
  case (command r r0 c x r1 cs xs r')
  have "Is 0 (view r0)" using command.prems(1,3) command.hyps(1) by blast
  moreover have "view r1 = snd (redis_doc c (view r0))" using exec_view [of c r0] command.hyps(2) by simp
  ultimately have "Is (Suc 0) (view r1)" using command.prems(2) by fastforce
  moreover have "\<forall>i<length cs. \<forall>s. Is (Suc i) s \<longrightarrow> Is (Suc (Suc i)) (snd (redis_doc (cs ! i) s))"
    using command.prems(2) by auto
  ultimately have "Is (Suc (length cs)) (view r')"
    using command.IH [of "\<lambda>i. Is (Suc i)"] command.prems(1) by blast
  then show ?case by simp
qed

text \<open>Every assertion implies the first one, so that an attempt may be abandoned anywhere and the pipeline sent again.\<close>

lemma pipe_stages:
  assumes "\<forall>i s s'. env s s' \<longrightarrow> Is i s \<longrightarrow> Is i s'" and "\<forall>i s. Is i s \<longrightarrow> Is 0 s"
    and "\<forall>i < length cs. \<forall>s. Is i s \<longrightarrow> Is (Suc i) (snd (redis_doc (cs ! i) s))" and "Is 0 (view r)"
  shows "\<exists>i \<le> length cs. Is i (view (snd (pipe R cs r)))"
proof -
  have run: "Is (length (take n cs)) (view r2)" if "shared_run R view env (take n cs) r1 ys r2" "Is 0 (view r1)" for n r1 ys r2
    using shared_run_stages [OF that(1) assms(1) _ that(2)] assms(3) by simp
  obtain r0 n xs r' where n: "broken_runs R view env cs r r0" "shared_run R view env (take n cs) r0 xs r'"
    "snd (pipe R cs r) = r'"
    using pipe_law [of cs r] by force
  have "Is 0 (view r0)" using n(1) assms(4)
  proof (induction rule: broken_runs.induct)
    case (one_more r r0 m xs r1)
    then show ?case using run [OF one_more.hyps(2)] assms(2) by blast
  qed
  with run [OF n(2)] n(3) show ?thesis by (intro exI [of _ "length (take n cs)"]) simp
qed

lemma pipe_inv:
  assumes "\<forall>s s'. env s s' \<longrightarrow> I s \<longrightarrow> I s'" and "\<forall>c \<in> set cs. \<forall>s. I s \<longrightarrow> I (snd (redis_doc c s))"
    and "I (view r)"
  shows "I (view (snd (pipe R cs r)))"
proof -
  have "\<exists>i \<le> length cs. I (view (snd (pipe R cs r)))"
    by (rule pipe_stages [where Is = "\<lambda>i. I"]) (use assms in auto)
  then show ?thesis by blast
qed

end

text \<open>
  An undisturbed server and connection: no other client, no lost request, and no time passes on the server during a
  call or between the calls of an operation, so that no key expires in between. What is shown of this instance about
  locks and deadlines is shown for operations that end before the lifetimes they rely on.
\<close>

locale redis_isolated = redis_commands +
  assumes rtt_iso: "rtt R f r = (client_reply (fst (f r)), snd (f r))"
    and evalsha_iso: "evalsha R f r = (client_reply (fst (f r)), snd (f r))"
    and pipe_iso: "pipe R cs r = (case run_all R cs r of (xs, r') \<Rightarrow> (pipe_reply xs, r'))"
    and scan_iso: "\<exists>ks. scan R p r = ((ks, None), r) \<and>
      set ks = {k. HasPrefix k p \<and> entry (view r) k \<noteq> None}"

lemma run_all_shared:
  assumes "run_all R cs r = (xs, r')"
  shows "shared_run R view (=) cs r xs r'"
  using assms
  by (induction cs arbitrary: r xs) (auto intro: shared_run.intros split: prod.splits)

sublocale redis_isolated \<subseteq> alone: redis_server R view "(=)"
proof unfold_locales
  fix cs r
  obtain xs r' where run: "run_all R cs r = (xs, r')" by (cases "run_all R cs r")
  then have "shared_run R view (=) (take (length cs) cs) r xs r'"
    by (simp add: run_all_shared)
  moreover have "pipe R cs r = (pipe_reply xs, r')" by (simp add: pipe_iso run)
  ultimately show "\<exists>r0 n xs r'. broken_runs R view (=) cs r r0 \<and> shared_run R view (=) (take n cs) r0 xs r' \<and>
      ((\<exists>e. \<not> errors_Is e RedisNil \<and> pipe R cs r = (Inl e, r')) \<or>
       length cs \<le> n \<and> pipe R cs r = (pipe_reply xs, r'))"
    by (intro exI conjI) (rule no_run, assumption, rule disjI2, simp)
next
  fix p r
  show "view r = view (snd (scan R p r))" using scan_iso [of p r] by auto
  show "HasPrefix k p" if "k \<in> set (fst (fst (scan R p r)))" for k
    using scan_iso [of p r] that by auto
qed (auto simp: rtt_iso evalsha_iso intro!: exI lost_none)

lemma shared_run_start:
  "shared_run R view (=) cs r0 xs r' \<Longrightarrow> view r = view r0 \<Longrightarrow> shared_run R view (=) cs r xs r'"
  by (induction rule: shared_run.cases) (auto intro: shared_run.intros)

section \<open>Instances\<close>

text \<open>An in-memory server, undisturbed.\<close>

definition mem_redis :: "rstate redis" where
  "mem_redis = \<lparr>exec = redis_doc, rtt = (\<lambda>f r. (client_reply (fst (f r)), snd (f r))),
     evalsha = (\<lambda>f r. (client_reply (fst (f r)), snd (f r))),
     pipe = (\<lambda>cs r. let (r', xs) = fold (\<lambda>c (r, xs). let (x, r') = redis_doc c r in (r', xs @ [x])) cs (r, [])
                    in (pipe_reply xs, r')),
     scan = (\<lambda>p r. ((filter (\<lambda>k. HasPrefix k p \<and> entry r k \<noteq> None)
        (sorted_list_of_fset (fmdom (rs_db r))), None), r))\<rparr>"

lemma mem_exec [simp]: "exec mem_redis = redis_doc"
  by (simp add: mem_redis_def)

lemma mem_pipe_fold:
  "fold (\<lambda>c (r, xs). let (x, r') = redis_doc c r in (r', xs @ [x])) cs (r, ys) =
     (snd (run_all mem_redis cs r), ys @ fst (run_all mem_redis cs r))"
  by (induction cs arbitrary: r ys) (simp_all add: Let_def split: prod.splits)

interpretation mem: redis_isolated mem_redis "\<lambda>s. s"
proof unfold_locales
  fix cs r
  show "pipe mem_redis cs r = (case run_all mem_redis cs r of (xs, r') \<Rightarrow> (pipe_reply xs, r'))"
    using mem_pipe_fold [of cs r "[]"] by (simp add: mem_redis_def split: prod.splits)
next
  fix p r
  have "entry r k \<noteq> None \<Longrightarrow> k |\<in>| fmdom (rs_db r)" for k
    by (auto simp: entry_def fmlookup_dom_iff split: option.splits)
  then show "\<exists>ks. scan mem_redis p r = ((ks, None), r) \<and> set ks = {k. HasPrefix k p \<and> entry r k \<noteq> None}"
    by (intro exI [of _ "filter (\<lambda>k. HasPrefix k p \<and> entry r k \<noteq> None)
        (sorted_list_of_fset (fmdom (rs_db r)))"]) (auto simp: mem_redis_def)
qed (simp_all add: mem_redis_def)

text \<open>
  An in-memory server behind a connection that does to each request what its list of fates
  says: it arrives and is answered, is lost before the server, its answer is lost, or its answer is lost and the
  client sends it again.
\<close>

datatype fate = Delivered | NotSent | AnswerLost | Resent

definition conn_error :: go_error where
  "conn_error = Opaque ''i/o timeout''"

fun lossy_send :: "(rstate \<times> fate list \<Rightarrow> 'a \<times> (rstate \<times> fate list)) \<Rightarrow> ('a \<Rightarrow> go_error + 'b) \<Rightarrow>
    rstate \<Rightarrow> fate list \<Rightarrow> (go_error + 'b) \<times> (rstate \<times> fate list)" where
  "lossy_send f ans s [] = (ans (fst (f (s, []))), snd (f (s, [])))"
| "lossy_send f ans s (Delivered # fs) = (ans (fst (f (s, fs))), snd (f (s, fs)))"
| "lossy_send f ans s (NotSent # fs) = (Inl conn_error, (s, fs))"
| "lossy_send f ans s (AnswerLost # fs) = (Inl conn_error, snd (f (s, fs)))"
| "lossy_send f ans s (Resent # fs) = lossy_send f ans (fst (snd (f (s, fs)))) fs"

definition lossy_exec :: "rcmd \<Rightarrow> rstate \<times> fate list \<Rightarrow> reply \<times> (rstate \<times> fate list)" where
  "lossy_exec c r = (fst (redis_doc c (fst r)), (snd (redis_doc c (fst r)), snd r))"

fun lossy_all :: "rcmd list \<Rightarrow> rstate \<times> fate list \<Rightarrow> reply list \<times> (rstate \<times> fate list)" where
  "lossy_all [] r = ([], r)"
| "lossy_all (c # cs) r =
     (fst (lossy_exec c r) # fst (lossy_all cs (snd (lossy_exec c r))), snd (lossy_all cs (snd (lossy_exec c r))))"

definition lossy_redis :: "(rstate \<times> fate list) redis" where
  "lossy_redis = \<lparr>exec = lossy_exec, rtt = (\<lambda>f r. lossy_send f client_reply (fst r) (snd r)),
     evalsha = (\<lambda>f r. lossy_send f client_reply (fst r) (snd r)),
     pipe = (\<lambda>cs r. lossy_send (lossy_all cs) pipe_reply (fst r) (snd r)),
     scan = (\<lambda>p r. ((filter (\<lambda>k. HasPrefix k p \<and> entry (fst r) k \<noteq> None)
        (sorted_list_of_fset (fmdom (rs_db (fst r)))), None), r))\<rparr>"

lemma lossy_all_shared: "shared_run lossy_redis fst (=) cs r (fst (lossy_all cs r)) (snd (lossy_all cs r))"
proof (induction cs arbitrary: r)
  case Nil
  show ?case by (simp add: shared_run.finished)
next
  case (Cons c cs)
  have "exec lossy_redis c r = (fst (lossy_exec c r), snd (lossy_exec c r))"
    by (simp add: lossy_redis_def)
  from shared_run.command [where env = "(=)" and view = fst, OF refl this Cons.IH] show ?case
    by simp
qed

lemma lost_start: "lost fst (=) f (fst (snd (f r)), fs) r0 \<Longrightarrow> lost fst (=) f r r0"
proof (induction "(fst (snd (f r)), fs)" r0 rule: lost.induct)
  case (lost_none r0)
  then show ?case using lost_more [where env = "(=)" and view = fst, OF lost.lost_none [of "(=)" fst r r]] by simp
qed (auto intro: lost_more)

lemma lost_same: "lost fst (=) f r r0 \<Longrightarrow> fst r' = fst r \<Longrightarrow> lost fst (=) f r' r0"
  by (induction rule: lost.induct) (auto intro: lost.intros)

lemma lossy_send_law:
  "\<exists>r0. lost fst (=) f (s, fs) r0 \<and> (lossy_send f ans s fs = (ans (fst (f r0)), snd (f r0)) \<or>
     (\<exists>e. \<not> errors_Is e RedisNil \<and> (lossy_send f ans s fs = (Inl e, r0) \<or> lossy_send f ans s fs = (Inl e, snd (f r0)))))"
proof (induction f ans s fs rule: lossy_send.induct)
  case (5 f ans s fs)
  have "lost fst (=) f (s, Resent # fs) r0" if "lost fst (=) f (fst (snd (f (s, fs))), fs) r0" for r0
    using lost_same [OF lost_start [OF that], of "(s, Resent # fs)"] by simp
  with 5 show ?case by (metis lossy_send.simps(5))
next
  case (1 f ans s)
  show ?case by (rule exI [of _ "(s, [])"]) (simp add: lost_none)
next
  case (2 f ans s fs)
  show ?case by (rule exI [of _ "(s, fs)"]) (simp add: lost_none)
next
  case (3 f ans s fs)
  have "\<not> errors_Is conn_error RedisNil" by (simp add: conn_error_def)
  then show ?case by (intro exI [of _ "(s, fs)"] conjI disjI2 exI [of _ conn_error] disjI1) (simp_all add: lost_none)
next
  case (4 f ans s fs)
  have "\<not> errors_Is conn_error RedisNil" by (simp add: conn_error_def)
  then show ?case by (intro exI [of _ "(s, fs)"] conjI disjI2 exI [of _ conn_error]) (simp_all add: lost_none)
qed

lemma lossy_broken:
  assumes "lost fst (=) (lossy_all cs) r r0"
  shows "\<exists>r1. broken_runs lossy_redis fst (=) cs r r1 \<and> fst r1 = fst r0"
  using assms
proof (induction rule: lost.induct)
  case (lost_none r r0)
  then show ?case using no_run [of lossy_redis fst "(=)" cs r] by (intro exI [of _ r]) simp
next
  case (lost_more r r0 r1)
  then obtain r2 where r2: "broken_runs lossy_redis fst (=) cs r r2" "fst r2 = fst r0" by blast
  have "shared_run lossy_redis fst (=) (take (length cs) cs) r2 (fst (lossy_all cs r0)) (snd (lossy_all cs r0))"
    using shared_run_start [OF lossy_all_shared r2(2)] by simp
  from one_more [OF r2(1) this] lost_more.hyps(2) show ?case by (intro exI [of _ "snd (lossy_all cs r0)"]) simp
qed

interpretation lossy: redis_server lossy_redis fst "(=)"
proof unfold_locales
  fix cs and r :: "rstate \<times> fate list"
  obtain r0 where r0: "lost fst (=) (lossy_all cs) r r0"
    "pipe lossy_redis cs r = (pipe_reply (fst (lossy_all cs r0)), snd (lossy_all cs r0)) \<or>
     (\<exists>e. \<not> errors_Is e RedisNil \<and> (pipe lossy_redis cs r = (Inl e, r0) \<or> pipe lossy_redis cs r = (Inl e, snd (lossy_all cs r0))))"
    using lossy_send_law [of "lossy_all cs" "fst r" "snd r" pipe_reply] unfolding lossy_redis_def redis.simps by auto
  obtain r1 where r1: "broken_runs lossy_redis fst (=) cs r r1" "fst r1 = fst r0" using lossy_broken [OF r0(1)] by blast
  have full: "shared_run lossy_redis fst (=) (take (length cs) cs) r1 (fst (lossy_all cs r0)) (snd (lossy_all cs r0))"
    using shared_run_start [OF lossy_all_shared r1(2)] by simp
  have none: "shared_run lossy_redis fst (=) (take 0 cs) r1 [] r0"
    using r1(2) by (auto intro: shared_run.intros)
  show "\<exists>r1 n xs r'. broken_runs lossy_redis fst (=) cs r r1 \<and> shared_run lossy_redis fst (=) (take n cs) r1 xs r' \<and>
      ((\<exists>e. \<not> errors_Is e RedisNil \<and> pipe lossy_redis cs r = (Inl e, r')) \<or>
       length cs \<le> n \<and> pipe lossy_redis cs r = (pipe_reply xs, r'))"
    using r0(2) full none r1(1) by blast
next
  fix f and r :: "rstate \<times> fate list"
  show "\<exists>r0. lost fst (=) f r r0 \<and> (rtt lossy_redis f r = (client_reply (fst (f r0)), snd (f r0)) \<or>
      (\<exists>e. \<not> errors_Is e RedisNil \<and> (rtt lossy_redis f r = (Inl e, r0) \<or> rtt lossy_redis f r = (Inl e, snd (f r0)))))"
    using lossy_send_law [of f "fst r" "snd r" client_reply] by (simp add: lossy_redis_def)
  show "\<exists>r0. lost fst (=) f r r0 \<and> (evalsha lossy_redis f r = (client_reply (fst (f r0)), snd (f r0)) \<or>
      (\<exists>e. \<not> errors_Is e RedisNil \<and> (evalsha lossy_redis f r = (Inl e, r0) \<or> evalsha lossy_redis f r = (Inl e, snd (f r0)))))"
    using lossy_send_law [of f "fst r" "snd r" client_reply] by (simp add: lossy_redis_def)
qed (simp_all add: lossy_redis_def lossy_exec_def)

end
