(* ===== verification/Redis_Keys.thy ===== *)
theory Redis_Keys
  imports Redis_Server "HOL-Library.Multiset"
begin

text \<open>
  The keys of \<open>internal/queue/redis.go\<close> and \<open>internal/lock/redis_lock.go\<close>, what each family of
  keys holds, and the invariant \<open>typed\<close> every operation of the repository keeps: job data
  and locks are strings, ready queues and the dead-letter queue are lists, the delayed set and
  the in-flight sets are sorted sets with distinct members; the members of lists and sets are keys
  of jobs; only strings have a deadline.
\<close>

section \<open>Key templates\<close>

definition readyKey :: "int \<Rightarrow> string" where
  "readyKey p = ''scheduler:queue:ready:p'' @ show_int p"

definition delayedQueueKey :: string where
  "delayedQueueKey = ''scheduler:queue:delayed''"

definition dlqKey :: string where
  "dlqKey = ''scheduler:queue:dlq''"

definition inflightPrefix :: string where
  "inflightPrefix = ''scheduler:inflight:''"

definition inflightKey :: "string \<Rightarrow> string" where
  "inflightKey w = inflightPrefix @ w"

definition jobDataKey :: "uuid_lib \<Rightarrow> uuid \<Rightarrow> string" where
  "jobDataKey U u = ''scheduler:job:'' @ u_String U u"

definition lockKey :: "string \<Rightarrow> string" where
  "lockKey k = ''scheduler:lock:'' @ k"

lemmas key_defs = readyKey_def delayedQueueKey_def dlqKey_def inflightKey_def inflightPrefix_def
  jobDataKey_def lockKey_def

section \<open>Kinds of keys\<close>

datatype kind = KJob | KList | KZset | KLock | KOther

definition key_kind :: "string \<Rightarrow> kind" where
  "key_kind k =
     (if HasPrefix k ''scheduler:job:'' then KJob
      else if HasPrefix k ''scheduler:queue:ready:p'' \<or> k = dlqKey then KList
      else if k = delayedQueueKey \<or> HasPrefix k inflightPrefix then KZset
      else if HasPrefix k ''scheduler:lock:'' then KLock
      else KOther)"

lemma key_kind_simps [simp, key_simps]:
  "key_kind (jobDataKey U u) = KJob" "key_kind (readyKey p) = KList" "key_kind dlqKey = KList"
  "key_kind delayedQueueKey = KZset" "key_kind (inflightKey w) = KZset" "key_kind (lockKey l) = KLock"
  by (simp_all add: key_kind_def key_defs HasPrefix_def)

lemma key_inject [simp, key_simps]:
  "readyKey p = readyKey q \<longleftrightarrow> p = q" "inflightKey v = inflightKey w \<longleftrightarrow> v = w"
  "lockKey k = lockKey l \<longleftrightarrow> k = l"
  by (simp_all add: readyKey_def inflightKey_def lockKey_def)

lemma key_neq [simp, key_simps]:
  "readyKey p \<noteq> dlqKey" "dlqKey \<noteq> readyKey p" "delayedQueueKey \<noteq> inflightKey w" "inflightKey w \<noteq> delayedQueueKey"
  by (simp_all add: key_defs)

lemma kind_neq: "key_kind k \<noteq> key_kind l \<Longrightarrow> k \<noteq> l"
  by auto

lemma key_kind_neq [simp, key_simps]:
  "jobDataKey U u \<noteq> readyKey p" "readyKey p \<noteq> jobDataKey U u" "jobDataKey U u \<noteq> dlqKey" "dlqKey \<noteq> jobDataKey U u"
  "jobDataKey U u \<noteq> delayedQueueKey" "delayedQueueKey \<noteq> jobDataKey U u"
  "jobDataKey U u \<noteq> inflightKey w" "inflightKey w \<noteq> jobDataKey U u"
  "readyKey p \<noteq> delayedQueueKey" "delayedQueueKey \<noteq> readyKey p" "readyKey p \<noteq> inflightKey w" "inflightKey w \<noteq> readyKey p"
  "dlqKey \<noteq> delayedQueueKey" "delayedQueueKey \<noteq> dlqKey" "dlqKey \<noteq> inflightKey w" "inflightKey w \<noteq> dlqKey"
  by (rule kind_neq, simp)+

fun fits_kind :: "kind \<Rightarrow> rvalue \<times> int option \<Rightarrow> bool" where
  "fits_kind KJob (VStr (Doc j), d) \<longleftrightarrow> True"
| "fits_kind KLock (VStr (Text t), d) \<longleftrightarrow> True"
| "fits_kind KList (VList xs, None) \<longleftrightarrow> list_all (\<lambda>k. key_kind k = KJob) xs"
| "fits_kind KZset (VZset z, None) \<longleftrightarrow>
     sorted z \<and> distinct (map snd z) \<and> list_all (\<lambda>e. key_kind (snd e) = KJob) z"
| "fits_kind KOther e \<longleftrightarrow> True"
| "fits_kind _ e \<longleftrightarrow> False"

definition typed :: "rstate \<Rightarrow> bool" where
  "typed s \<longleftrightarrow> fmpred (\<lambda>k e. fits_kind (key_kind k) e) (rs_db s)"

lemma typed_iff: "typed s \<longleftrightarrow> (\<forall>k e. fmlookup (rs_db s) k = Some e \<longrightarrow> fits_kind (key_kind k) e)"
  by (auto simp: typed_def fmpred_iff)

lemma typedD: "typed s \<Longrightarrow> fmlookup (rs_db s) k = Some e \<Longrightarrow> fits_kind (key_kind k) e"
  unfolding typed_iff by blast

lemma typed_put [intro]: "typed s \<Longrightarrow> (\<And>e. x = Some e \<Longrightarrow> fits_kind (key_kind k) e) \<Longrightarrow> typed (put k x s)"
  by (simp add: typed_iff)

lemma fits_list [elim!]:
  assumes "fits_kind KList e" obtains xs where "e = (VList xs, None)" "list_all (\<lambda>k. key_kind k = KJob) xs"
  using assms by (cases "(KList, e)" rule: fits_kind.cases) auto

lemma fits_zset [elim!]:
  assumes "fits_kind KZset e" obtains z where "e = (VZset z, None)" "sorted z" "distinct (map snd z)"
    "list_all (\<lambda>e. key_kind (snd e) = KJob) z"
  using assms by (cases "(KZset, e)" rule: fits_kind.cases) auto

lemma fits_job [elim!]:
  assumes "fits_kind KJob e" obtains j d where "e = (VStr (Doc j), d)"
  using assms by (cases "(KJob, e)" rule: fits_kind.cases) auto

lemma fits_lock [elim!]:
  assumes "fits_kind KLock e" obtains t d where "e = (VStr (Text t), d)"
  using assms by (cases "(KLock, e)" rule: fits_kind.cases) auto

section \<open>Entries\<close>

lemma entry_put:
  "entry (put k x s) k' =
     (if k' = k then (case x of Some (v, Some d) \<Rightarrow> if now_ms s \<le> d then x else None | _ \<Rightarrow> x)
      else entry s k')"
  by (simp add: entry_def split: option.splits)

lemma entry_lookup: "entry s k = Some e \<Longrightarrow> fmlookup (rs_db s) k = Some e"
  by (auto simp: entry_def split: option.splits if_splits)

lemma ttl_of_entry: "ttl_of (entry s k) = Some d \<Longrightarrow> now_ms s \<le> d"
  by (auto simp: ttl_of_def entry_def split: option.splits if_splits)

lemma entry_put_list:
  "entry (put_list k xs s) k' =
     (if k' = k then (if xs = [] then None else Some (VList xs, ttl_of (entry s k))) else entry s k')"
  by (auto simp: put_list_def entry_put ttl_of_entry split: option.splits)

lemma entry_put_zset:
  "entry (put_zset k z s) k' =
     (if k' = k then (if z = [] then None else Some (VZset z, ttl_of (entry s k))) else entry s k')"
  by (auto simp: put_zset_def entry_put ttl_of_entry split: option.splits)

lemma at_put_list [simp]:
  "list_at (put_list k xs s) k' = (if k' = k then xs else list_at s k')"
  "zset_at (put_list k xs s) k' = (if k' = k then [] else zset_at s k')"
  "str_at (put_list k xs s) k' = (if k' = k then None else str_at s k')"
  by (simp_all add: list_at_def zset_at_def str_at_def entry_put_list)

lemma at_put_zset [simp]:
  "list_at (put_zset k z s) k' = (if k' = k then [] else list_at s k')"
  "zset_at (put_zset k z s) k' = (if k' = k then z else zset_at s k')"
  "str_at (put_zset k z s) k' = (if k' = k then None else str_at s k')"
  by (simp_all add: list_at_def zset_at_def str_at_def entry_put_zset)

lemma at_put_str [simp]:
  "list_at (put k (Some (VStr b, d)) s) k' = (if k' = k then [] else list_at s k')"
  "zset_at (put k (Some (VStr b, d)) s) k' = (if k' = k then [] else zset_at s k')"
  by (simp_all add: list_at_def zset_at_def entry_put split: option.splits)

lemma str_at_put [simp]:
  "str_at (put k (Some (VStr b, None)) s) k' = (if k' = k then Some b else str_at s k')"
  "0 \<le> t \<Longrightarrow> str_at (put k (Some (VStr b, Some (now_ms s + t))) s) k' = (if k' = k then Some b else str_at s k')"
  by (simp_all add: str_at_def entry_put)

lemma at_put_None [simp]:
  "list_at (put k None s) k' = (if k' = k then [] else list_at s k')"
  "zset_at (put k None s) k' = (if k' = k then [] else zset_at s k')"
  "str_at (put k None s) k' = (if k' = k then None else str_at s k')"
  by (simp_all add: list_at_def zset_at_def str_at_def entry_put)

text \<open>On keys of the right kind the commands are functions of the list, set or string there.\<close>

lemma typed_list_entry:
  assumes "typed s" "key_kind k = KList"
  shows "entry s k = (if list_at s k = [] then (if entry s k = None then None else Some (VList [], None))
    else Some (VList (list_at s k), None))"
proof (cases "entry s k")
  case (Some e)
  then obtain xs where "e = (VList xs, None)"
    using typedD [OF assms(1) entry_lookup [OF Some]] assms(2) by auto
  with Some show ?thesis by (simp add: list_at_def)
qed (simp add: list_at_def)

lemma on_list_typed: "typed s \<Longrightarrow> key_kind k = KList \<Longrightarrow> on_list k s f = f (list_at s k)"
  using typed_list_entry [of s k] by (simp add: on_list_def split: if_splits option.splits)

lemma on_zset_typed: "typed s \<Longrightarrow> key_kind k = KZset \<Longrightarrow> on_zset k s f = f (zset_at s k)"
proof (cases "entry s k")
  case (Some e)
  assume "typed s" "key_kind k = KZset"
  then obtain z where "e = (VZset z, None)" using typedD [OF _ entry_lookup [OF Some]] by auto
  with Some show ?thesis by (simp add: on_zset_def zset_at_def)
qed (simp add: on_zset_def zset_at_def)

lemma zset_at_wf:
  assumes "typed s" "key_kind k = KZset"
  shows "sorted (zset_at s k)" "distinct (map snd (zset_at s k))"
    "list_all (\<lambda>e. key_kind (snd e) = KJob) (zset_at s k)"
proof -
  have "sorted (zset_at s k) \<and> distinct (map snd (zset_at s k)) \<and>
      list_all (\<lambda>e. key_kind (snd e) = KJob) (zset_at s k)"
  proof (cases "entry s k")
    case (Some e)
    then obtain z where "e = (VZset z, None)" "sorted z" "distinct (map snd z)"
      "list_all (\<lambda>e. key_kind (snd e) = KJob) z"
      using typedD [OF assms(1) entry_lookup [OF Some]] assms(2) by auto
    with Some show ?thesis by (simp add: zset_at_def)
  qed (simp add: zset_at_def)
  then show "sorted (zset_at s k)" "distinct (map snd (zset_at s k))"
    "list_all (\<lambda>e. key_kind (snd e) = KJob) (zset_at s k)" by simp_all
qed

lemma list_at_jobs:
  assumes "typed s" "key_kind k = KList"
  shows "list_all (\<lambda>k. key_kind k = KJob) (list_at s k)"
proof (cases "entry s k")
  case (Some e)
  then obtain xs where "e = (VList xs, None)" "list_all (\<lambda>k. key_kind k = KJob) xs"
    using typedD [OF assms(1) entry_lookup [OF Some]] assms(2) by auto
  with Some show ?thesis by (simp add: list_at_def)
qed (simp add: list_at_def)

lemma member_jobs:
  assumes "typed s" "key_kind k = KZset" "m \<in> members (zset_at s k)"
  shows "key_kind m = KJob"
  using zset_at_wf(3) [OF assms(1,2)] assms(3) by (auto simp: members_def list_all_iff)

lemma get_typed:
  "typed s \<Longrightarrow> key_kind k = KJob \<or> key_kind k = KLock \<Longrightarrow>
   redis_doc (GET k) s = (case str_at s k of None \<Rightarrow> RNil | Some b \<Rightarrow> RBulk b, s)"
proof (cases "entry s k")
  case (Some e)
  assume "typed s" "key_kind k = KJob \<or> key_kind k = KLock"
  then obtain b d where "e = (VStr b, d)" using typedD [OF _ entry_lookup [OF Some]] by auto
  with Some show ?thesis by (simp add: str_at_def)
qed (simp add: str_at_def)

lemma str_at_job:
  assumes "typed s" "key_kind k = KJob" "str_at s k = Some b"
  obtains j where "b = Doc j"
proof -
  obtain d where "entry s k = Some (VStr b, d)"
    using assms(3) by (auto simp: str_at_def split: option.splits rvalue.splits)
  then have "fits_kind KJob (VStr b, d)" using typedD [OF assms(1) entry_lookup] assms(2) by metis
  then show ?thesis using that by auto
qed

lemmas typed_cmds = on_list_typed on_zset_typed get_typed

section \<open>The invariant is kept\<close>

text \<open>The commands the repository may send without breaking the kinds.\<close>

fun cmd_fits :: "rcmd \<Rightarrow> bool" where
  "cmd_fits (SET k v) \<longleftrightarrow> fits_kind (key_kind k) (VStr v, None)"
| "cmd_fits (SET_EX k v t) \<longleftrightarrow> fits_kind (key_kind k) (VStr v, None)"
| "cmd_fits (SET_PX k v t) \<longleftrightarrow> fits_kind (key_kind k) (VStr v, None)"
| "cmd_fits (EXPIRE k t) \<longleftrightarrow> key_kind k = KJob \<or> key_kind k = KLock"
| "cmd_fits (PEXPIRE k t) \<longleftrightarrow> key_kind k = KJob \<or> key_kind k = KLock"
| "cmd_fits (LPUSH k m) \<longleftrightarrow> key_kind k = KList \<and> key_kind m = KJob"
| "cmd_fits (RPOP k) \<longleftrightarrow> key_kind k = KList"
| "cmd_fits (ZADD k sc m) \<longleftrightarrow> key_kind k = KZset \<and> key_kind m = KJob"
| "cmd_fits (ZREM k m) \<longleftrightarrow> key_kind k = KZset"
| "cmd_fits _ \<longleftrightarrow> True"

lemma fits_str_ttl: "fits_kind K (VStr v, d) \<longleftrightarrow> fits_kind K (VStr v, d')"
  by (cases K; cases v) simp_all

lemma typed_put_str:
  "typed s \<Longrightarrow> fits_kind (key_kind k) (VStr v, None) \<Longrightarrow> typed (put k (Some (VStr v, d)) s)"
  using fits_str_ttl by (intro typed_put) blast+

lemma typed_expire: "typed s \<Longrightarrow> key_kind k = KJob \<or> key_kind k = KLock \<Longrightarrow> entry s k = Some (v, d) \<Longrightarrow>
  typed (put k (if b then None else Some (v, d')) s)"
  by (rule typed_put) (auto dest!: entry_lookup typedD split: if_splits)

lemma ttl_typed: "typed s \<Longrightarrow> key_kind k = KList \<or> key_kind k = KZset \<Longrightarrow> ttl_of (entry s k) = None"
  by (auto simp: ttl_of_def dest!: entry_lookup typedD split: option.splits)

lemma typed_put_list:
  "typed s \<Longrightarrow> key_kind k = KList \<Longrightarrow> list_all (\<lambda>k. key_kind k = KJob) xs \<Longrightarrow> typed (put_list k xs s)"
  by (simp add: put_list_def) (auto simp: ttl_typed split: if_splits)

lemma distinct_zadd: "distinct (map snd z) \<Longrightarrow> distinct (map snd (zadd sc m z))"
proof -
  assume "distinct (map snd z)"
  then have "distinct (map snd ((sc, m) # zrem m z))"
    by (auto simp: zrem_def distinct_map_filter)
  moreover have "mset (zadd sc m z) = mset ((sc, m) # zrem m z)"
    by (simp add: zadd_def)
  ultimately show ?thesis
    by (metis mset_eq_imp_distinct_iff mset_map)
qed

lemma typed_put_zset:
  "typed s \<Longrightarrow> key_kind k = KZset \<Longrightarrow> sorted z \<Longrightarrow> distinct (map snd z) \<Longrightarrow>
   list_all (\<lambda>e. key_kind (snd e) = KJob) z \<Longrightarrow> typed (put_zset k z s)"
  by (simp add: put_zset_def) (auto simp: ttl_typed split: if_splits)

lemma typed_zadd:
  assumes "typed s" "key_kind k = KZset" "key_kind m = KJob"
  shows "typed (put_zset k (zadd sc m (zset_at s k)) s)"
proof -
  have "key_kind (snd e) = KJob" if "e \<in> set (zadd sc m (zset_at s k))" for e
    using that assms(3) zset_at_wf(3) [OF assms(1,2)]
    by (auto simp: zadd_def zrem_def set_insort_key list_all_iff)
  then show ?thesis
    using zset_at_wf [OF assms(1,2)] assms(1,2)
    by (intro typed_put_zset sorted_zadd distinct_zadd) (auto simp: list_all_iff)
qed

lemma typed_zrem:
  assumes "typed s" "key_kind k = KZset"
  shows "typed (put_zset k (zrem m (zset_at s k)) s)"
  using zset_at_wf [OF assms] assms
  by (intro typed_put_zset sorted_zrem) (auto simp: zrem_def distinct_map_filter list_all_iff)

lemma typed_lpush:
  "typed s \<Longrightarrow> key_kind k = KList \<Longrightarrow> key_kind m = KJob \<Longrightarrow> typed (put_list k (m # list_at s k) s)"
  using list_at_jobs [of s k] by (intro typed_put_list) simp_all

lemma typed_rpop:
  "typed s \<Longrightarrow> key_kind k = KList \<Longrightarrow> typed (put_list k (butlast (list_at s k)) s)"
  using list_at_jobs [of s k] by (intro typed_put_list) (auto simp: list_all_iff dest: in_set_butlastD)

text \<open>Reading commands change nothing.\<close>

lemma redis_doc_read: "cmd_key c = None \<Longrightarrow> snd (redis_doc c s) = s"
  by (cases c) (auto simp: on_list_def on_zset_def split: option.splits rvalue.splits)

lemma typed_redis_doc:
  assumes "typed s" "cmd_fits c"
  shows "typed (snd (redis_doc c s))"
proof (cases "cmd_key c")
  case None
  then show ?thesis using assms(1) by (simp add: redis_doc_read)
next
  case (Some k)
  with assms show ?thesis
    by (cases c) (auto simp: on_list_typed on_zset_typed typed_zadd typed_zrem typed_lpush typed_rpop
        typed_expire typed_put_str split: option.splits rvalue.splits if_splits)
qed

lemma put_put [simp]: "put k x (put k y s) = put k x s"
  by (cases x; cases y)
    (auto simp: put_def fmupd_reorder_neq intro!: rstate.equality fmap_ext)

section \<open>Commands that cannot fail\<close>

fun cmd_safe :: "rcmd \<Rightarrow> bool" where
  "cmd_safe (SET_EX k v t) \<longleftrightarrow> 0 < t"
| "cmd_safe (LPUSH k m) \<longleftrightarrow> key_kind k = KList"
| "cmd_safe (LLEN k) \<longleftrightarrow> key_kind k = KList"
| "cmd_safe (ZREM k m) \<longleftrightarrow> key_kind k = KZset"
| "cmd_safe (DEL k) \<longleftrightarrow> True"
| "cmd_safe _ \<longleftrightarrow> False"

definition good_cmd :: "rcmd \<Rightarrow> bool" where
  "good_cmd c \<longleftrightarrow> cmd_fits c \<and> cmd_safe c"

lemma safe_reply: "typed s \<Longrightarrow> cmd_safe c \<Longrightarrow> client_reply (fst (redis_doc c s)) = Inr (fst (redis_doc c s))"
  by (cases c) (auto simp: on_list_typed on_zset_typed)

definition run_doc :: "rcmd list \<Rightarrow> rstate \<Rightarrow> rstate" where
  "run_doc cs s = fold (\<lambda>c s. snd (redis_doc c s)) cs s"

lemma run_doc_simps [simp]:
  "run_doc [] s = s" "run_doc (c # cs) s = run_doc cs (snd (redis_doc c s))"
  "run_doc (cs @ ds) s = run_doc ds (run_doc cs s)"
  by (simp_all add: run_doc_def)

lemma typed_run_doc: "typed s \<Longrightarrow> list_all cmd_fits cs \<Longrightarrow> typed (run_doc cs s)"
  by (induction cs arbitrary: s) (simp_all add: typed_redis_doc)

context redis_commands
begin

lemma run_all_good:
  assumes "typed (view r)" "list_all good_cmd cs"
  shows "\<exists>xs r'. run_all R cs r = (xs, r') \<and> pipe_reply xs = Inr xs \<and> view r' = run_doc cs (view r) \<and> typed (view r')"
  using assms
proof (induction cs arbitrary: r)
  case (Cons c cs)
  obtain x r1 where x: "exec R c r = (x, r1)" by (cases "exec R c r")
  have v: "x = fst (redis_doc c (view r))" "view r1 = snd (redis_doc c (view r))"
    using exec_reply [of c r] exec_view [of c r] x by simp_all
  have "typed (view r1)" "client_reply x = Inr x"
    using Cons.prems v typed_redis_doc safe_reply by (simp_all add: good_cmd_def)
  with Cons x v show ?case by fastforce
qed simp

end

context redis_isolated
begin

lemma pipe_good:
  assumes "typed (view r)" "list_all good_cmd cs"
  shows "\<exists>xs r'. pipe R cs r = (Inr xs, r') \<and> view r' = run_doc cs (view r) \<and> typed (view r')"
  using run_all_good [OF assms] by (auto simp: pipe_iso)

end

end
