(* ===== verification/Redis_Lock.thy ===== *)
theory Redis_Lock
  imports Redis_Keys
begin

text \<open>
  \<open>internal/lock/redis_lock.go\<close>: the token-based lock on a Redis key, its retrying form, and
  the self-extending \<open>DistributedLock\<close>. The three Lua scripts are functions of the server's
  \<open>exec\<close>; every operation takes the client \<open>R\<close> and the state \<open>r\<close> of the server.
\<close>

section \<open>Tokens\<close>

definition hex_digit :: "nat \<Rightarrow> char" where
  "hex_digit n = (if n < 10 then char_of (48 + n) else char_of (87 + n))"

text \<open>\<open>hex.EncodeToString\<close>.\<close>

definition hex_encode :: "8 word list \<Rightarrow> string" where
  "hex_encode bs = concat (map (\<lambda>b. [hex_digit (unat b div 16), hex_digit (unat b mod 16)]) bs)"

text \<open>\<open>rnd\<close> is what \<open>rand.Read\<close> of 16 bytes gave: the bytes or an error.\<close>

type_synonym entropy = "go_error + 8 word list"

definition generateToken :: "entropy \<Rightarrow> string res" where
  "generateToken rnd = (case rnd of Inl e \<Rightarrow> Err e | Inr b \<Rightarrow> Ret (hex_encode b))"

section \<open>Scripts\<close>

definition acquireScript :: "'r redis \<Rightarrow> string \<Rightarrow> string \<Rightarrow> int \<Rightarrow> 'r \<Rightarrow> reply \<times> 'r" where
  "acquireScript R key token ttlMs =
     lua_call R (EXISTS key) (\<lambda>x.
       if x = RInt 0 then lua_call R (SET_PX key (Text token) ttlMs) (\<lambda>_. lua_return (RInt 1))
       else lua_return (RInt 0))"

definition releaseScript :: "'r redis \<Rightarrow> string \<Rightarrow> string \<Rightarrow> 'r \<Rightarrow> reply \<times> 'r" where
  "releaseScript R key token =
     lua_call R (GET key) (\<lambda>x.
       if x = RBulk (Text token) then lua_call R (DEL key) lua_return
       else lua_return (RInt 0))"

definition extendScript :: "'r redis \<Rightarrow> string \<Rightarrow> string \<Rightarrow> int \<Rightarrow> 'r \<Rightarrow> reply \<times> 'r" where
  "extendScript R key token ttlMs =
     lua_call R (GET key) (\<lambda>x.
       if x = RBulk (Text token) then lua_call R (PEXPIRE key ttlMs) lua_return
       else lua_return (RInt 0))"

section \<open>The locker\<close>

definition Acquire :: "'r redis \<Rightarrow> entropy \<Rightarrow> string \<Rightarrow> duration \<Rightarrow> 'r \<Rightarrow> string res \<times> 'r" where
  "Acquire R rnd key ttl r =
     (case generateToken rnd of
        Err e \<Rightarrow> (Err (wrapf ''generate lock token: '' e), r)
      | Panic p \<Rightarrow> (Panic p, r)
      | Ret token \<Rightarrow>
          (case rtt R (acquireScript R (lockKey key) token (Milliseconds ttl)) r of
             (Inl e, r') \<Rightarrow> (Err (wrapf ''acquire lock: '' e), r')
           | (Inr x, r') \<Rightarrow> (if x = RInt 1 then Ret token else Err ErrLockHeld, r')))"

definition Release :: "'r redis \<Rightarrow> string \<Rightarrow> string \<Rightarrow> 'r \<Rightarrow> unit res \<times> 'r" where
  "Release R key token r =
     (case rtt R (releaseScript R (lockKey key) token) r of
        (Inl e, r') \<Rightarrow> (Err (wrapf ''release lock: '' e), r')
      | (Inr x, r') \<Rightarrow> (if x = RInt 1 then Ret () else Err ErrLockNotHeld, r'))"

definition Extend :: "'r redis \<Rightarrow> string \<Rightarrow> string \<Rightarrow> duration \<Rightarrow> 'r \<Rightarrow> unit res \<times> 'r" where
  "Extend R key token ttl r =
     (case rtt R (extendScript R (lockKey key) token (Milliseconds ttl)) r of
        (Inl e, r') \<Rightarrow> (Err (wrapf ''extend lock: '' e), r')
      | (Inr x, r') \<Rightarrow> (if x = RInt 1 then Ret () else Err ErrLockNotHeld, r'))"

definition IsHeld :: "'r redis \<Rightarrow> string \<Rightarrow> string \<Rightarrow> 'r \<Rightarrow> bool res \<times> 'r" where
  "IsHeld R key token r =
     (case rtt R (exec R (GET (lockKey key))) r of
        (Inl e, r') \<Rightarrow>
          (if errors_Is e RedisNil then Ret False else Err (wrapf ''check lock: '' e), r')
      | (Inr x, r') \<Rightarrow> (Ret (x = RBulk (Text token)), r'))"

text \<open>
  \<open>TryAcquire\<close> loops until it has the lock, meets an error other than \<open>ErrLockHeld\<close>, or its
  context ends. \<open>turns\<close> lists, for each turn of the loop, the random bytes and what the
  \<open>select\<close> after a failed attempt sees: \<open>Some e\<close> is a context that ended with \<open>e\<close>, \<open>None\<close> a
  tick. When the list ends the loop is still running: the result is \<open>None\<close>.
\<close>

fun TryAcquire_loop ::
  "'r redis \<Rightarrow> string \<Rightarrow> duration \<Rightarrow> (entropy \<times> go_error option) list \<Rightarrow> 'r \<Rightarrow> (string res \<times> 'r) option" where
  "TryAcquire_loop R key ttl [] r = None"
| "TryAcquire_loop R key ttl ((rnd, done) # turns) r =
     (case Acquire R rnd key ttl r of
        (Ret token, r') \<Rightarrow> Some (Ret token, r')
      | (Panic p, r') \<Rightarrow> Some (Panic p, r')
      | (Err e, r') \<Rightarrow>
          if \<not> errors_Is e ErrLockHeld then Some (Err e, r')
          else (case done of
                  Some ce \<Rightarrow>
                    Some (Err (Errorf (error_text ErrLockTimeout @ '': '' @ error_text ce)
                           (Some ErrLockTimeout)), r')
                | None \<Rightarrow> TryAcquire_loop R key ttl turns r'))"

definition TryAcquire ::
  "'r redis \<Rightarrow> string \<Rightarrow> duration \<Rightarrow> duration \<Rightarrow> (entropy \<times> go_error option) list \<Rightarrow> 'r \<Rightarrow>
   (string res \<times> 'r) option" where
  "TryAcquire R key ttl retryInterval turns r =
     (if sint retryInterval \<le> 0 then Some (Panic ''non-positive interval for NewTicker'', r)
      else TryAcquire_loop R key ttl turns r)"

section \<open>The self-extending lock\<close>

text \<open>
  \<open>DistributedLock\<close> works on any \<open>Locker\<close>. Its state has the \<open>done\<close> channel (closed or not)
  and the number of \<open>autoExtend\<close> goroutines that are running.
\<close>

record 'r Locker =
  lk_Acquire :: "entropy \<Rightarrow> string \<Rightarrow> duration \<Rightarrow> 'r \<Rightarrow> string res \<times> 'r"
  lk_Release :: "string \<Rightarrow> string \<Rightarrow> 'r \<Rightarrow> unit res \<times> 'r"
  lk_Extend :: "string \<Rightarrow> string \<Rightarrow> duration \<Rightarrow> 'r \<Rightarrow> unit res \<times> 'r"
  lk_IsHeld :: "string \<Rightarrow> string \<Rightarrow> 'r \<Rightarrow> bool res \<times> 'r"

definition RedisLocker :: "'r redis \<Rightarrow> 'r Locker" where
  "RedisLocker R = \<lparr>lk_Acquire = Acquire R, lk_Release = Release R, lk_Extend = Extend R,
     lk_IsHeld = IsHeld R\<rparr>"

record DistributedLock =
  dl_key :: string
  dl_token :: string
  dl_ttl :: duration
  dl_closed :: bool
  dl_extending :: nat

definition NewDistributedLock :: "string \<Rightarrow> duration \<Rightarrow> DistributedLock" where
  "NewDistributedLock key ttl =
     \<lparr>dl_key = key, dl_token = '''', dl_ttl = ttl, dl_closed = False, dl_extending = 0\<rparr>"

definition DL_Acquire ::
  "'r Locker \<Rightarrow> entropy \<Rightarrow> DistributedLock \<Rightarrow> 'r \<Rightarrow> unit res \<times> DistributedLock \<times> 'r" where
  "DL_Acquire L rnd dl r =
     (case lk_Acquire L rnd (dl_key dl) (dl_ttl dl) r of
        (Err e, r') \<Rightarrow> (Err e, dl, r')
      | (Panic p, r') \<Rightarrow> (Panic p, dl, r')
      | (Ret token, r') \<Rightarrow> (Ret (), dl\<lparr>dl_token := token, dl_extending := dl_extending dl + 1\<rparr>, r'))"

text \<open>The start of \<open>autoExtend\<close>: \<open>time.NewTicker(dl.ttl / 3)\<close> panics unless it is positive.\<close>

definition autoExtend_start :: "DistributedLock \<Rightarrow> duration res" where
  "autoExtend_start dl =
     (let d = go_quot (sint (dl_ttl dl)) 3
      in if d \<le> 0 then Panic ''non-positive interval for NewTicker'' else Ret (of_int d))"

text \<open>One turn of \<open>autoExtend\<close>'s loop: the \<open>done\<close> channel is closed, or the ticker fires.\<close>

datatype extend_event = DoneClosed | Tick

definition autoExtend_turn ::
  "'r Locker \<Rightarrow> extend_event \<Rightarrow> DistributedLock \<Rightarrow> 'r \<Rightarrow> DistributedLock \<times> 'r" where
  "autoExtend_turn L ev dl r =
     (case ev of
        DoneClosed \<Rightarrow> (dl\<lparr>dl_extending := dl_extending dl - 1\<rparr>, r)
      | Tick \<Rightarrow>
          (case lk_Extend L (dl_key dl) (dl_token dl) (dl_ttl dl) r of
             (Ret _, r') \<Rightarrow> (dl, r')
           | (_, r') \<Rightarrow> (dl\<lparr>dl_extending := dl_extending dl - 1\<rparr>, r')))"

definition DL_Release :: "'r Locker \<Rightarrow> DistributedLock \<Rightarrow> 'r \<Rightarrow> unit res \<times> DistributedLock \<times> 'r" where
  "DL_Release L dl r =
     (if dl_closed dl then (Panic ''close of closed channel'', dl, r)
      else
        let dl' = dl\<lparr>dl_closed := True\<rparr>
        in (case lk_Release L (dl_key dl) (dl_token dl) r of (x, r') \<Rightarrow> (x, dl', r')))"

section \<open>Leases\<close>

text \<open>Who holds a lock, and until when.\<close>

definition lease :: "rstate \<Rightarrow> string \<Rightarrow> (string \<times> int option) option" where
  "lease s key = (case entry s (lockKey key) of Some (VStr (Text t), d) \<Rightarrow> Some (t, d) | _ \<Rightarrow> None)"

lemma entry_lock:
  assumes "typed s"
  shows "entry s (lockKey key) = (case lease s key of None \<Rightarrow> None | Some (t, d) \<Rightarrow> Some (VStr (Text t), d))"
proof (cases "entry s (lockKey key)")
  case (Some e)
  then obtain t d where "e = (VStr (Text t), d)"
    using typedD [OF assms entry_lookup [OF Some]] by auto
  with Some show ?thesis by (simp add: lease_def)
qed (simp add: lease_def)

lemma lease_put:
  "lease (put (lockKey key) x s) key' =
     (if key' = key then (case x of Some (VStr (Text t), Some d) \<Rightarrow> if now_ms s \<le> d then Some (t, Some d) else None
                          | Some (VStr (Text t), None) \<Rightarrow> Some (t, None) | _ \<Rightarrow> None)
      else lease s key')"
  by (auto simp: lease_def entry_put split: option.splits rvalue.splits bulk.splits)

context redis_commands
begin

lemma acquireScript_typed:
  assumes "typed (view r)"
  shows "fst (acquireScript R (lockKey key) tok ms r) =
      (if lease (view r) key \<noteq> None then RInt 0 else if ms \<le> 0 then bad_expire else RInt 1)"
    and "view (snd (acquireScript R (lockKey key) tok ms r)) =
      (if lease (view r) key = None \<and> 0 < ms
       then put (lockKey key) (Some (VStr (Text tok), Some (now_ms (view r) + ms))) (view r) else view r)"
  using entry_lock [OF assms, of key]
  by (auto simp: acquireScript_def script_simps bad_expire_def split: option.splits)

lemma releaseScript_typed:
  assumes "typed (view r)"
  shows "fst (releaseScript R (lockKey key) tok r) =
      RInt (if \<exists>d. lease (view r) key = Some (tok, d) then 1 else 0)"
    and "view (snd (releaseScript R (lockKey key) tok r)) =
      (if \<exists>d. lease (view r) key = Some (tok, d) then put (lockKey key) None (view r) else view r)"
  using entry_lock [OF assms, of key]
  by (auto simp: releaseScript_def script_simps bad_expire_def split: option.splits)

lemma extendScript_typed:
  assumes "typed (view r)"
  shows "fst (extendScript R (lockKey key) tok ms r) =
      RInt (if \<exists>d. lease (view r) key = Some (tok, d) then 1 else 0)"
    and "view (snd (extendScript R (lockKey key) tok ms r)) =
      (if \<exists>d. lease (view r) key = Some (tok, d)
       then put (lockKey key) (if ms \<le> 0 then None else Some (VStr (Text tok), Some (now_ms (view r) + ms))) (view r)
       else view r)"
  using entry_lock [OF assms, of key]
  by (auto simp: extendScript_def script_simps bad_expire_def split: option.splits)

end

section \<open>The contract of a locker, and its client\<close>

text \<open>
  \<open>held r key\<close> is the live lease on a lock, \<open>clock r\<close> the server's milliseconds, and
  \<open>later d r r'\<close> says that \<open>d\<close> milliseconds pass from \<open>r\<close> to \<open>r'\<close> in which nobody touches a
  lock.
\<close>

locale lock_service =
  fixes L :: "'r Locker" and ok :: "'r \<Rightarrow> bool"
    and held :: "'r \<Rightarrow> string \<Rightarrow> (string \<times> int option) option" and clock :: "'r \<Rightarrow> int"
    and later :: "int \<Rightarrow> 'r \<Rightarrow> 'r \<Rightarrow> bool"
  assumes acquire_free: "ok r \<Longrightarrow> held r key = None \<Longrightarrow> 0 < Milliseconds ttl \<Longrightarrow>
      \<exists>r'. lk_Acquire L (Inr b) key ttl r = (Ret (hex_encode b), r') \<and> ok r' \<and> clock r' = clock r \<and>
        held r' = (held r)(key := Some (hex_encode b, Some (clock r + Milliseconds ttl)))"
    and acquire_held: "ok r \<Longrightarrow> held r key \<noteq> None \<Longrightarrow>
      \<exists>r'. lk_Acquire L (Inr b) key ttl r = (Err ErrLockHeld, r') \<and> ok r' \<and> clock r' = clock r \<and> held r' = held r"
    and release_own: "ok r \<Longrightarrow> held r key = Some (tok, d) \<Longrightarrow>
      \<exists>r'. lk_Release L key tok r = (Ret (), r') \<and> ok r' \<and> clock r' = clock r \<and> held r' = (held r)(key := None)"
    and release_other: "ok r \<Longrightarrow> \<nexists>d. held r key = Some (tok, d) \<Longrightarrow>
      \<exists>r'. lk_Release L key tok r = (Err ErrLockNotHeld, r') \<and> ok r' \<and> clock r' = clock r \<and> held r' = held r"
    and extend_own: "ok r \<Longrightarrow> held r key = Some (tok, d) \<Longrightarrow> 0 < Milliseconds ttl \<Longrightarrow>
      \<exists>r'. lk_Extend L key tok ttl r = (Ret (), r') \<and> ok r' \<and> clock r' = clock r \<and>
        held r' = (held r)(key := Some (tok, Some (clock r + Milliseconds ttl)))"
    and extend_other: "ok r \<Longrightarrow> \<nexists>d. held r key = Some (tok, d) \<Longrightarrow>
      \<exists>r'. lk_Extend L key tok ttl r = (Err ErrLockNotHeld, r') \<and> ok r' \<and> clock r' = clock r \<and> held r' = held r"
    and later_keeps: "ok r \<Longrightarrow> later n r r' \<Longrightarrow> held r key = Some (tok, Some e) \<Longrightarrow> clock r + n \<le> e \<Longrightarrow>
      ok r' \<and> clock r' = clock r + n \<and> held r' key = Some (tok, Some e)"

text \<open>
  The background goroutine of a \<open>DistributedLock\<close>: ticks with less than the lock's lifetime
  between them.
\<close>

inductive dl_run :: "'r Locker \<Rightarrow> (int \<Rightarrow> 'r \<Rightarrow> 'r \<Rightarrow> bool) \<Rightarrow> DistributedLock \<Rightarrow> 'r \<Rightarrow> DistributedLock \<Rightarrow> 'r \<Rightarrow> bool"
  for L later dl r where
  start: "dl_run L later dl r dl r"
| tick: "dl_run L later dl r dl1 r1 \<Longrightarrow> later d r1 r2 \<Longrightarrow> d \<le> Milliseconds (dl_ttl dl1) \<Longrightarrow>
    autoExtend_turn L Tick dl1 r2 = (dl2, r3) \<Longrightarrow> dl_run L later dl r dl2 r3"

context lock_service
begin

lemma DL_Acquire_free:
  assumes "ok r" "held r (dl_key dl) = None" "0 < Milliseconds (dl_ttl dl)"
  obtains r' where
    "DL_Acquire L (Inr b) dl r = (Ret (), dl\<lparr>dl_token := hex_encode b, dl_extending := dl_extending dl + 1\<rparr>, r')"
    and "ok r'" and "held r' (dl_key dl) = Some (hex_encode b, Some (clock r' + Milliseconds (dl_ttl dl)))"
  using acquire_free [OF assms, of b] by (auto simp: DL_Acquire_def)

lemma dl_run_keeps:
  assumes "dl_run L later dl r dl' r'" and "ok r" and "0 < Milliseconds (dl_ttl dl)"
    and "held r (dl_key dl) = Some (dl_token dl, Some (clock r + Milliseconds (dl_ttl dl)))"
  shows "dl' = dl \<and> ok r' \<and>
    held r' (dl_key dl) = Some (dl_token dl, Some (clock r' + Milliseconds (dl_ttl dl)))"
  using assms
proof (induction rule: dl_run.induct)
  case (tick dl1 r1 d r2 dl2 r3)
  then have IH: "dl1 = dl" "ok r1"
    "held r1 (dl_key dl) = Some (dl_token dl, Some (clock r1 + Milliseconds (dl_ttl dl)))"
    by auto
  with tick.hyps have h: "ok r2" "held r2 (dl_key dl) = Some (dl_token dl, Some (clock r1 + Milliseconds (dl_ttl dl)))"
    using later_keeps [OF IH(2) tick.hyps(2) IH(3)] by auto
  from extend_own [OF h tick.prems(2)] tick.hyps(4) IH(1) show ?case
    by (auto simp: autoExtend_turn_def)
qed simp

lemma DL_Release_held:
  assumes "ok r" "held r (dl_key dl) = Some (dl_token dl, d)" "\<not> dl_closed dl"
  shows "\<exists>r'. DL_Release L dl r = (Ret (), dl\<lparr>dl_closed := True\<rparr>, r') \<and> held r' (dl_key dl) = None"
  using release_own [OF assms(1,2)] assms(3) by (auto simp: DL_Release_def)

text \<open>A whole session: acquire, stay alive through any number of ticks, release.\<close>

lemma DL_session:
  assumes "ok r" "held r key = None" "0 < Milliseconds ttl"
  shows "\<exists>dl r1. DL_Acquire L (Inr b) (NewDistributedLock key ttl) r = (Ret (), dl, r1) \<and>
    (\<forall>dl' r2. dl_run L later dl r1 dl' r2 \<longrightarrow>
       dl' = dl \<and> held r2 key = Some (hex_encode b, Some (clock r2 + Milliseconds ttl)) \<and>
       (\<exists>r3. DL_Release L dl' r2 = (Ret (), dl\<lparr>dl_closed := True\<rparr>, r3) \<and> held r3 key = None))"
proof -
  let ?dl0 = "NewDistributedLock key ttl"
  define dl where "dl = ?dl0\<lparr>dl_token := hex_encode b, dl_extending := dl_extending ?dl0 + 1\<rparr>"
  have sel: "dl_key dl = key" "dl_ttl dl = ttl" "dl_token dl = hex_encode b" "\<not> dl_closed dl"
    by (simp_all add: dl_def NewDistributedLock_def)
  obtain r1 where r1: "DL_Acquire L (Inr b) ?dl0 r = (Ret (), dl, r1)" "ok r1"
    "held r1 (dl_key dl) = Some (dl_token dl, Some (clock r1 + Milliseconds (dl_ttl dl)))"
    using DL_Acquire_free [of r ?dl0 b] assms unfolding dl_def by (auto simp: NewDistributedLock_def)
  have "dl' = dl \<and> held r2 key = Some (hex_encode b, Some (clock r2 + Milliseconds ttl)) \<and>
       (\<exists>r3. DL_Release L dl' r2 = (Ret (), dl\<lparr>dl_closed := True\<rparr>, r3) \<and> held r3 key = None)"
    if "dl_run L later dl r1 dl' r2" for dl' r2
    using dl_run_keeps [OF that r1(2) _ r1(3)] DL_Release_held [of r2 dl] assms(3) sel by auto
  with r1(1) show ?thesis by blast
qed

end

text \<open>Redis gives this contract: time passes without touching a lock key.\<close>

definition lock_idle :: "('r \<Rightarrow> rstate) \<Rightarrow> int \<Rightarrow> 'r \<Rightarrow> 'r \<Rightarrow> bool" where
  "lock_idle view d r r' \<longleftrightarrow> typed (view r') \<and> now_ms (view r') = now_ms (view r) + d \<and>
     (\<forall>key. fmlookup (rs_db (view r')) (lockKey key) = fmlookup (rs_db (view r)) (lockKey key))"

lemma lease_put_fun:
  "lease (put (lockKey key) None s) = (lease s)(key := None)"
  "0 \<le> ms \<Longrightarrow> lease (put (lockKey key) (Some (VStr (Text t), Some (now_ms s + ms))) s) =
     (lease s)(key := Some (t, Some (now_ms s + ms)))"
  by (auto simp: lease_put fun_eq_iff)

lemma typed_put_lock:
  "typed s \<Longrightarrow> typed (put (lockKey key) (Some (VStr (Text t), d)) s)"
  "typed s \<Longrightarrow> typed (put (lockKey key) None s)"
  by (auto intro: typed_put)

sublocale redis_isolated \<subseteq> rl: lock_service "RedisLocker R" "\<lambda>r. typed (view r)" "\<lambda>r. lease (view r)"
  "\<lambda>r. now_ms (view r)" "lock_idle view"
proof unfold_locales
  fix r :: 'a and key tok :: string and ttl :: duration and b d
  note defs = RedisLocker_def Acquire_def Release_def Extend_def generateToken_def rtt_iso
  assume typed: "typed (view r)"
  note scripts = acquireScript_typed [OF typed] releaseScript_typed [OF typed] extendScript_typed [OF typed]
  note put = lease_put_fun typed_put_lock typed
  show "lease (view r) key = None \<Longrightarrow> 0 < Milliseconds ttl \<Longrightarrow>
      \<exists>r'. lk_Acquire (RedisLocker R) (Inr b) key ttl r = (Ret (hex_encode b), r') \<and> typed (view r') \<and>
        now_ms (view r') = now_ms (view r) \<and>
        lease (view r') = (lease (view r))(key := Some (hex_encode b, Some (now_ms (view r) + Milliseconds ttl)))"
    by (simp add: defs scripts put)
  show "lease (view r) key \<noteq> None \<Longrightarrow> \<exists>r'. lk_Acquire (RedisLocker R) (Inr b) key ttl r = (Err ErrLockHeld, r') \<and>
      typed (view r') \<and> now_ms (view r') = now_ms (view r) \<and> lease (view r') = lease (view r)"
    by (auto simp: defs scripts put)
  show "lease (view r) key = Some (tok, d) \<Longrightarrow> \<exists>r'. lk_Release (RedisLocker R) key tok r = (Ret (), r') \<and>
      typed (view r') \<and> now_ms (view r') = now_ms (view r) \<and> lease (view r') = (lease (view r))(key := None)"
    by (simp add: defs scripts put)
  show "\<nexists>d. lease (view r) key = Some (tok, d) \<Longrightarrow>
      \<exists>r'. lk_Release (RedisLocker R) key tok r = (Err ErrLockNotHeld, r') \<and>
      typed (view r') \<and> now_ms (view r') = now_ms (view r) \<and> lease (view r') = lease (view r)"
    by (simp add: defs scripts put)
  show "lease (view r) key = Some (tok, d) \<Longrightarrow> 0 < Milliseconds ttl \<Longrightarrow>
      \<exists>r'. lk_Extend (RedisLocker R) key tok ttl r = (Ret (), r') \<and> typed (view r') \<and>
        now_ms (view r') = now_ms (view r) \<and>
        lease (view r') = (lease (view r))(key := Some (tok, Some (now_ms (view r) + Milliseconds ttl)))"
    by (simp add: defs scripts put)
  show "\<nexists>d. lease (view r) key = Some (tok, d) \<Longrightarrow>
      \<exists>r'. lk_Extend (RedisLocker R) key tok ttl r = (Err ErrLockNotHeld, r') \<and>
      typed (view r') \<and> now_ms (view r') = now_ms (view r) \<and> lease (view r') = lease (view r)"
    by (simp add: defs scripts put)
next
  fix r r' :: 'a and key tok :: string and d e :: int
  assume "lock_idle view d r r'" "lease (view r) key = Some (tok, Some e)" "now_ms (view r) + d \<le> e"
  then show "typed (view r') \<and> now_ms (view r') = now_ms (view r) + d \<and>
      lease (view r') key = Some (tok, Some e)"
    by (auto simp: lock_idle_def lease_def entry_def split: option.splits if_splits rvalue.splits bulk.splits)
qed

section \<open>Mutual exclusion\<close>

text \<open>
  Any number of processes use one lock, all with the same lifetime \<open>ttl\<close>. \<open>B\<close> holds what they
  believe: \<open>(tok, d)\<close> is a process that got the lock under the token \<open>tok\<close> and counts on it
  until the server time \<open>d\<close>. Requests may be lost, and so may their answers. A process that
  has asked for the release gives its claim up whatever the answer.
\<close>

inductive lock_reach ::
  "'r redis \<Rightarrow> ('r \<Rightarrow> rstate) \<Rightarrow> string \<Rightarrow> duration \<Rightarrow> 'r \<Rightarrow> (string \<times> int) set \<Rightarrow> bool"
  for R view key ttl where
  lr_start: "typed (view r) \<Longrightarrow> lock_reach R view key ttl r {}"
| lr_acquired: "lock_reach R view key ttl r B \<Longrightarrow> Acquire R rnd key ttl r = (Ret tok, r') \<Longrightarrow>
    tok \<notin> fst ` B \<Longrightarrow>
    lock_reach R view key ttl r' (insert (tok, now_ms (view r') + Milliseconds ttl) B)"
| lr_refused: "lock_reach R view key ttl r B \<Longrightarrow> Acquire R rnd key ttl r = (Err e, r') \<Longrightarrow>
    lock_reach R view key ttl r' B"
| lr_release: "lock_reach R view key ttl r B \<Longrightarrow> Release R key tok r = (x, r') \<Longrightarrow>
    lock_reach R view key ttl r' {b \<in> B. fst b \<noteq> tok}"
| lr_extended: "lock_reach R view key ttl r B \<Longrightarrow> Extend R key tok ttl r = (Ret (), r') \<Longrightarrow>
    lock_reach R view key ttl r' (insert (tok, now_ms (view r') + Milliseconds ttl) {b \<in> B. fst b \<noteq> tok})"
| lr_not_extended: "lock_reach R view key ttl r B \<Longrightarrow> Extend R key tok ttl r = (Err e, r') \<Longrightarrow>
    lock_reach R view key ttl r' B"

text \<open>What time and the other parts of the system may do: anything but touch this lock.\<close>

definition lock_rely :: "string \<Rightarrow> rstate \<Rightarrow> rstate \<Rightarrow> bool" where
  "lock_rely key s s' \<longleftrightarrow> (typed s \<longrightarrow> typed s') \<and> rs_us s \<le> rs_us s' \<and>
     fmlookup (rs_db s') (lockKey key) = fmlookup (rs_db s) (lockKey key)"

definition claims_backed :: "string \<Rightarrow> int \<Rightarrow> rstate \<Rightarrow> (string \<times> int) set \<Rightarrow> bool" where
  "claims_backed key ms s B \<longleftrightarrow> typed s \<and>
     (\<forall>(t, d) \<in> B. d \<le> now_ms s + ms \<and>
       (now_ms s \<le> d \<longrightarrow> (\<exists>d'. d \<le> d' \<and> fmlookup (rs_db s) (lockKey key) = Some (VStr (Text t), Some d'))))"

lemma now_ms_mono: "rs_us s \<le> rs_us s' \<Longrightarrow> now_ms s \<le> now_ms s'"
  by (simp add: now_ms_def zdiv_mono1)

lemma claims_rely: "claims_backed key ms s B \<Longrightarrow> lock_rely key s s' \<Longrightarrow> claims_backed key ms s' B"
  using now_ms_mono [of s s'] by (fastforce simp: claims_backed_def lock_rely_def)

text \<open>A live lease contradicts any claim under another token.\<close>

lemma claims_lease:
  assumes "claims_backed key ms s B" "(t, d) \<in> B" "now_ms s \<le> d"
  shows "\<exists>d'. d \<le> d' \<and> lease s key = Some (t, Some d')"
  using assms by (fastforce simp: claims_backed_def lease_def entry_def)

lemma claims_unique:
  assumes "claims_backed key ms s B" "(t, d) \<in> B" "(t', d') \<in> B" "now_ms s \<le> d" "now_ms s \<le> d'"
  shows "t = t'"
  using claims_lease [OF assms(1,2,4)] claims_lease [OF assms(1,3,5)] by auto

lemma claims_acquire:
  assumes "claims_backed key ms s B" "lease s key = None" "0 < ms"
  shows "claims_backed key ms (put (lockKey key) (Some (VStr (Text tok), Some (now_ms s + ms))) s)
      (insert (tok, now_ms s + ms) B)"
    and "claims_backed key ms (put (lockKey key) (Some (VStr (Text tok), Some (now_ms s + ms))) s) B"
proof -
  have expired: "d < now_ms s" if "(t, d) \<in> B" for t d
    using claims_lease [OF assms(1) that] assms(2) by fastforce
  have old: "\<forall>(t, d)\<in>B. d \<le> now_ms s + ms" "typed s" using assms(1) by (auto simp: claims_backed_def)
  show "claims_backed key ms (put (lockKey key) (Some (VStr (Text tok), Some (now_ms s + ms))) s)
      (insert (tok, now_ms s + ms) B)"
    "claims_backed key ms (put (lockKey key) (Some (VStr (Text tok), Some (now_ms s + ms))) s) B"
    unfolding claims_backed_def using old expired by (fastforce simp: typed_put_lock)+
qed

lemma claims_release:
  assumes "claims_backed key ms s B" "lease s key = Some (tok, d)"
  shows "claims_backed key ms (put (lockKey key) None s) {b \<in> B. fst b \<noteq> tok}"
proof -
  have "e < now_ms s" if "(t, e) \<in> B" "t \<noteq> tok" for t e
    using claims_lease [OF assms(1) that(1)] assms(2) that(2) by fastforce
  with assms(1) show ?thesis unfolding claims_backed_def by (fastforce simp: typed_put_lock)
qed

lemma claims_extend:
  assumes "claims_backed key ms s B" "lease s key = Some (tok, d)" "0 < ms"
  shows "claims_backed key ms (put (lockKey key) (Some (VStr (Text tok), Some (now_ms s + ms))) s)
      (insert (tok, now_ms s + ms) {b \<in> B. fst b \<noteq> tok})"
    and "claims_backed key ms (put (lockKey key) (Some (VStr (Text tok), Some (now_ms s + ms))) s) B"
proof -
  have other: "e < now_ms s" if "(t, e) \<in> B" "t \<noteq> tok" for t e
    using claims_lease [OF assms(1) that(1)] assms(2) that(2) by fastforce
  have old: "\<forall>(t, d)\<in>B. d \<le> now_ms s + ms" "typed s" using assms(1) by (auto simp: claims_backed_def)
  show "claims_backed key ms (put (lockKey key) (Some (VStr (Text tok), Some (now_ms s + ms))) s)
      (insert (tok, now_ms s + ms) {b \<in> B. fst b \<noteq> tok})"
    unfolding claims_backed_def using old other by (fastforce simp: typed_put_lock)
  have "t = tok" if "(t, e) \<in> B" "now_ms s \<le> e" for t e using other that by fastforce
  with old show "claims_backed key ms (put (lockKey key) (Some (VStr (Text tok), Some (now_ms s + ms))) s) B"
    unfolding claims_backed_def by (fastforce simp: typed_put_lock)
qed

lemma claims_subset: "claims_backed key ms s B \<Longrightarrow> C \<subseteq> B \<Longrightarrow> claims_backed key ms s C"
  by (auto simp: claims_backed_def)

context redis_server
begin

text \<open>What a locker's call may have done, lost requests and answers included.\<close>

lemma lock_call_cases:
  assumes "rtt R f r = (x, r')" and "\<forall>s s'. env s s' \<longrightarrow> lock_rely key s s'" and "claims_backed key ms (view r) B"
    and "\<forall>r. claims_backed key ms (view r) B \<longrightarrow> claims_backed key ms (view (snd (f r))) B"
  obtains r0 where "claims_backed key ms (view r0) B" and "x = client_reply (fst (f r0))" and "r' = snd (f r0)"
  | r0 e where "claims_backed key ms (view r0) B" and "x = Inl e" and "r' = r0 \<or> r' = snd (f r0)"
proof -
  obtain r0 where r0: "lost view env f r r0" and
    c: "(x, r') = (client_reply (fst (f r0)), snd (f r0)) \<or>
       (\<exists>e. \<not> errors_Is e RedisNil \<and> ((x, r') = (Inl e, r0) \<or> (x, r') = (Inl e, snd (f r0))))"
    using rtt_law [of f r] assms(1) by metis
  have "\<forall>s s'. env s s' \<longrightarrow> claims_backed key ms s B \<longrightarrow> claims_backed key ms s' B" using claims_rely assms(2) by blast
  from lost_inv [OF r0 this _ assms(3)] assms(4) have "claims_backed key ms (view r0) B" by blast
  with c show ?thesis using that by blast
qed

lemma claims_typed: "claims_backed key ms s B \<Longrightarrow> typed s"
  by (simp add: claims_backed_def)

lemma acquire_claims:
  assumes rely: "\<forall>s s'. env s s' \<longrightarrow> lock_rely key s s'" and B: "claims_backed key (Milliseconds ttl) (view r) B"
    and call: "Acquire R rnd key ttl r = (x, r')"
  shows "claims_backed key (Milliseconds ttl) (view r')
    (case x of Ret tok \<Rightarrow> insert (tok, now_ms (view r') + Milliseconds ttl) B | _ \<Rightarrow> B)"
proof (cases rnd)
  case (Inl e)
  with call B show ?thesis by (auto simp: Acquire_def generateToken_def)
next
  case (Inr b)
  define ms where "ms = Milliseconds ttl"
  define f where "f = acquireScript R (lockKey key) (hex_encode b) ms"
  obtain y r1 where y: "rtt R f r = (y, r1)" by (cases "rtt R f r")
  have x: "r' = r1" "x = (case y of Inl e \<Rightarrow> Err (wrapf ''acquire lock: '' e)
      | Inr v \<Rightarrow> if v = RInt 1 then Ret (hex_encode b) else Err ErrLockHeld)"
    using call y by (auto simp: Acquire_def generateToken_def Inr f_def ms_def split: sum.splits)
  have keep: "claims_backed key ms (view (snd (f r))) B" if "claims_backed key ms (view r) B" for r
    using acquireScript_typed(2) [OF claims_typed [OF that], of key "hex_encode b" ms, folded f_def] claims_acquire(2) [OF that] that
    by (auto split: if_splits)
  then have "\<forall>r. claims_backed key ms (view r) B \<longrightarrow> claims_backed key ms (view (snd (f r))) B" by blast
  from lock_call_cases [OF y rely B [folded ms_def] this] show ?thesis
  proof cases
    case (1 r0)
    note s = acquireScript_typed [OF claims_typed [OF 1(1)], of key "hex_encode b" ms, folded f_def]
    show ?thesis using x 1 claims_acquire [OF 1(1)]
      by (auto simp: s ms_def [symmetric] bad_expire_def split: if_splits)
  next
    case (2 r0 e)
    note s = acquireScript_typed [OF claims_typed [OF 2(1)], of key "hex_encode b" ms, folded f_def]
    show ?thesis using x 2 claims_acquire(2) [OF 2(1)]
      by (auto simp: s ms_def [symmetric] split: if_splits)
  qed
qed

lemma release_claims:
  assumes rely: "\<forall>s s'. env s s' \<longrightarrow> lock_rely key s s'" and B: "claims_backed key ms (view r) B"
    and call: "Release R key tok r = (x, r')"
  shows "claims_backed key ms (view r') {b \<in> B. fst b \<noteq> tok}"
proof -
  define f where "f = releaseScript R (lockKey key) tok"
  obtain y where y: "rtt R f r = (y, r')"
    using call by (auto simp: Release_def f_def split: sum.splits prod.splits)
  let ?C = "{b \<in> B. fst b \<noteq> tok}"
  have C: "claims_backed key ms (view r) ?C" by (rule claims_subset [OF B]) blast
  have S: "claims_backed key ms (view (snd (f r0))) ?C" if "claims_backed key ms (view r0) ?C" for r0
    using claims_release [OF that] that releaseScript_typed(2) [OF claims_typed [OF that], of key tok, folded f_def]
    by auto
  then have "\<forall>r. claims_backed key ms (view r) ?C \<longrightarrow> claims_backed key ms (view (snd (f r))) ?C" by blast
  from lock_call_cases [OF y rely C this] show ?thesis by cases (auto intro: S)
qed

lemma extend_claims:
  assumes rely: "\<forall>s s'. env s s' \<longrightarrow> lock_rely key s s'" and B: "claims_backed key (Milliseconds ttl) (view r) B"
    and ms: "0 < Milliseconds ttl" and call: "Extend R key tok ttl r = (x, r')"
  shows "claims_backed key (Milliseconds ttl) (view r')
    (if x = Ret () then insert (tok, now_ms (view r') + Milliseconds ttl) {b \<in> B. fst b \<noteq> tok} else B)"
proof -
  define ms where "ms = Milliseconds ttl"
  define f where "f = extendScript R (lockKey key) tok ms"
  obtain y where y: "rtt R f r = (y, r')"
    and x: "x = (case y of Inl e \<Rightarrow> Err (wrapf ''extend lock: '' e)
      | Inr v \<Rightarrow> if v = RInt 1 then Ret () else Err ErrLockNotHeld)"
    using call by (auto simp: Extend_def f_def ms_def split: sum.splits prod.splits)
  have pos: "0 < ms" using ms by (simp add: ms_def)
  have keep: "claims_backed key ms (view (snd (f r))) B" if "claims_backed key ms (view r) B" for r
    using extendScript_typed(2) [OF claims_typed [OF that], of key tok ms, folded f_def] claims_extend(2) [OF that _ pos] that pos
    by (auto split: if_splits)
  then have "\<forall>r. claims_backed key ms (view r) B \<longrightarrow> claims_backed key ms (view (snd (f r))) B" by blast
  from lock_call_cases [OF y rely B [folded ms_def] this] show ?thesis
  proof cases
    case (1 r0)
    note s = extendScript_typed [OF claims_typed [OF 1(1)], of key tok ms, folded f_def]
    show ?thesis using x 1 claims_extend [OF 1(1) _ pos] pos
      by (auto simp: s ms_def [symmetric] split: if_splits)
  next
    case (2 r0 e)
    note s = extendScript_typed [OF claims_typed [OF 2(1)], of key tok ms, folded f_def]
    show ?thesis using x 2 claims_extend(2) [OF 2(1) _ pos] pos
      by (auto simp: s ms_def [symmetric] split: if_splits)
  qed
qed

lemma lock_reach_claims:
  assumes "lock_reach R view key ttl r B" and "\<forall>s s'. env s s' \<longrightarrow> lock_rely key s s'"
    and "0 < Milliseconds ttl"
  shows "claims_backed key (Milliseconds ttl) (view r) B"
  using assms
proof (induction rule: lock_reach.induct)
  case (lr_start r)
  then show ?case by (simp add: claims_backed_def)
next
  case (lr_acquired r B rnd tok r')
  then show ?case using acquire_claims [of key ttl r B rnd "Ret tok" r'] by simp
next
  case (lr_refused r B rnd e r')
  then show ?case using acquire_claims [of key ttl r B rnd "Err e" r'] by simp
next
  case (lr_release r B tok x r')
  then show ?case using release_claims [of key "Milliseconds ttl" r B tok x r'] by simp
next
  case (lr_extended r B tok r')
  then show ?case using extend_claims [of key ttl r B tok "Ret ()" r'] by simp
next
  case (lr_not_extended r B tok e r')
  then show ?case using extend_claims [of key ttl r B tok "Err e" r'] by simp
qed

end

context redis_isolated
begin

lemma lock_calls:
  assumes "typed (view r)"
  shows "fst (Acquire R (Inr b) key ttl r) =
      (if lease (view r) key \<noteq> None then Err ErrLockHeld
       else if Milliseconds ttl \<le> 0
       then Err (wrapf ''acquire lock: '' (Opaque ''ERR invalid expire time in 'set' command''))
       else Ret (hex_encode b))"
    and "fst (Release R key tok r) = (if \<exists>d. lease (view r) key = Some (tok, d) then Ret () else Err ErrLockNotHeld)"
    and "fst (Extend R key tok ttl r) = (if \<exists>d. lease (view r) key = Some (tok, d) then Ret () else Err ErrLockNotHeld)"
    and "fst (IsHeld R key tok r) = Ret (\<exists>d. lease (view r) key = Some (tok, d))"
  using entry_lock [OF assms, of key] exec_reply [of "GET (lockKey key)" r]
  by (auto simp: Acquire_def Release_def Extend_def IsHeld_def generateToken_def rtt_iso bad_expire_def
      acquireScript_typed [OF assms] releaseScript_typed [OF assms] extendScript_typed [OF assms]
      split: option.splits)

lemma lock_effects:
  assumes "typed (view r)"
  shows "lease (view (snd (Acquire R (Inr b) key ttl r))) =
      (if lease (view r) key = None \<and> 0 < Milliseconds ttl
       then (lease (view r))(key := Some (hex_encode b, Some (now_ms (view r) + Milliseconds ttl)))
       else lease (view r))"
    and "lease (view (snd (Release R key tok r))) =
      (if \<exists>d. lease (view r) key = Some (tok, d) then (lease (view r))(key := None) else lease (view r))"
    and "lease (view (snd (Extend R key tok ttl r))) =
      (if \<exists>d. lease (view r) key = Some (tok, d)
       then (lease (view r))(key := if Milliseconds ttl \<le> 0 then None
              else Some (tok, Some (now_ms (view r) + Milliseconds ttl)))
       else lease (view r))"
  by (auto simp: Acquire_def Release_def Extend_def generateToken_def rtt_iso lease_put_fun
      acquireScript_typed [OF assms] releaseScript_typed [OF assms] extendScript_typed [OF assms]
      split: sum.splits)

lemma DL_session_redis:
  assumes "typed (view r)" "lease (view r) key = None" "0 < Milliseconds ttl"
  shows "\<exists>dl r1. DL_Acquire (RedisLocker R) (Inr b) (NewDistributedLock key ttl) r = (Ret (), dl, r1) \<and>
    (\<forall>dl' r2. dl_run (RedisLocker R) (lock_idle view) dl r1 dl' r2 \<longrightarrow>
       dl' = dl \<and> lease (view r2) key = Some (hex_encode b, Some (now_ms (view r2) + Milliseconds ttl)) \<and>
       (\<exists>r3. DL_Release (RedisLocker R) dl' r2 = (Ret (), dl\<lparr>dl_closed := True\<rparr>, r3) \<and> lease (view r3) key = None))"
  using assms by (rule rl.DL_session)

text \<open>While nobody releases, every attempt of \<open>TryAcquire\<close> is refused until its context ends.\<close>

lemma TryAcquire_loop_held:
  assumes "typed (view r)" "lease (view r) key \<noteq> None" "list_all (\<lambda>(rnd, d). \<exists>b. rnd = Inr b \<and> d = None) turns"
  shows "\<exists>r'. TryAcquire_loop R key ttl (turns @ [(Inr b, Some ce)]) r =
    Some (Err (Errorf (error_text ErrLockTimeout @ '': '' @ error_text ce) (Some ErrLockTimeout)), r') \<and>
    lease (view r') key = lease (view r) key"
  using assms
proof (induction turns arbitrary: r)
  case Nil
  then show ?case using rl.acquire_held [of r key b ttl] by (auto simp: RedisLocker_def)
next
  case (Cons t turns)
  then obtain b' where t: "t = (Inr b', None)" by (cases t) auto
  obtain r1 where r1: "Acquire R (Inr b') key ttl r = (Err ErrLockHeld, r1)" "typed (view r1)"
    "lease (view r1) = lease (view r)"
    using rl.acquire_held [OF Cons.prems(1,2), of b' ttl] by (auto simp: RedisLocker_def)
  then show ?case using Cons.IH [of r1] Cons.prems t by simp
qed

lemma TryAcquire_loop_free:
  assumes "typed (view r)" "lease (view r) key = None" "0 < Milliseconds ttl"
  shows "\<exists>r'. TryAcquire_loop R key ttl ((Inr b, d) # turns) r = Some (Ret (hex_encode b), r') \<and>
    lease (view r') key = Some (hex_encode b, Some (now_ms (view r) + Milliseconds ttl))"
  using rl.acquire_free [OF assms, of b] by (auto simp: RedisLocker_def)

end

section \<open>Properties\<close>

text \<open>
  C4: Mutual exclusion. However many processes use a lock with one lifetime, and whichever
  requests or answers are lost or requests sent again, at any server time at most one of them holds an unexpired claim
  to it.
\<close>

theorem lock_mutual_exclusion:
  assumes "redis_server R view env" and "\<forall>s s'. env s s' \<longrightarrow> lock_rely key s s'"
    and "0 < Milliseconds ttl" and "lock_reach R view key ttl r B"
    and "(t, d) \<in> B" "(t', d') \<in> B" "now_ms (view r) \<le> d" "now_ms (view r) \<le> d'"
  shows "t = t'"
  using redis_server.lock_reach_claims [OF assms(1,4,2,3)] assms(5-8) by (rule claims_unique)

definition empty_server :: rstate where
  "empty_server = \<lparr>rs_db = fmempty, rs_us = 1000000000\<rparr>"

lemma typed_empty [simp]: "typed empty_server"
  by (simp add: typed_def empty_server_def)

lemma lock_rely_refl [simp]: "lock_rely key s s"
  by (simp add: lock_rely_def)

definition one_minute :: duration where "one_minute = 60000000000"

lemma one_minute_ms [simp]: "Milliseconds one_minute = 60000"
  by (simp add: Milliseconds_def one_minute_def go_quot_def)

lemma hex_example [simp]: "hex_encode [1] = ''01''" "hex_encode [2] = ''02''"
  by code_simp+

text \<open>One process gets the lock; the answer to another one's attempt is lost.\<close>

lemma lock_example:
  fixes r0 r1 :: "rstate \<times> fate list"
  defines "r0 \<equiv> (empty_server, [Delivered, AnswerLost])"
    and "r1 \<equiv> (put (lockKey ''cron'') (Some (VStr (Text ''01''), Some 1060000)) empty_server, [])"
  shows "Acquire lossy_redis (Inr [1]) ''cron'' one_minute r0 = (Ret ''01'', (fst r1, [AnswerLost]))"
    and "Acquire lossy_redis (Inr [2]) ''cron'' one_minute (fst r1, [AnswerLost]) =
      (Err (wrapf ''acquire lock: '' conn_error), r1)"
  by (simp_all add: r0_def r1_def Acquire_def generateToken_def lossy_redis_def
      acquireScript_def lua_call_def lua_return_def lossy_exec_def entry_put
      empty_server_def entry_def now_ms_def put_def)

lemma lock_mutual_exclusion_witness:
  "\<exists>r. lock_reach lossy_redis fst ''cron'' one_minute r {(''01'', 1060000)} \<and> now_ms (fst r) \<le> 1060000 \<and>
     (\<forall>t d. (t, d) \<in> {(''01'', 1060000 :: int)} \<and> now_ms (fst r) \<le> d \<longrightarrow> t = ''01'')"
proof -
  define s where "s = put (lockKey ''cron'') (Some (VStr (Text ''01''), Some 1060000)) empty_server"
  have now: "now_ms s = 1000000" by (simp add: s_def) (simp add: empty_server_def now_ms_def)
  have "lock_reach lossy_redis fst ''cron'' one_minute (empty_server, [Delivered, AnswerLost]) {}"
    by (rule lr_start) simp
  from lr_acquired [OF this lock_example(1)]
  have "lock_reach lossy_redis fst ''cron'' one_minute (s, [AnswerLost]) {(''01'', 1060000)}"
    using now by (simp add: s_def)
  from lr_refused [OF this lock_example(2) [folded s_def, simplified]]
  have reach: "lock_reach lossy_redis fst ''cron'' one_minute (s, []) {(''01'', 1060000)}"
    by (simp add: s_def)
  have "t = ''01''" if "(t, d) \<in> {(''01'', 1060000)}" "now_ms (fst (s, [] :: fate list)) \<le> d" for t d
    using lock_mutual_exclusion [OF lossy.redis_server_axioms _ _ reach that(1) _ that(2),
        where t' = "''01''" and d' = 1060000] now by simp
  with reach now show ?thesis by (intro exI [of _ "(s, [])"]) simp
qed

text \<open>
  C23: What each call of the locker returns and does on every branch, on an undisturbed server: only
  a free lock is acquired, only the holder's token releases or extends it, a lifetime of less
  than a millisecond is refused by \<open>Acquire\<close>, and \<open>Extend\<close> with such a lifetime reports success
  although it deletes the lock.
\<close>

theorem lock_calls_exact:
  assumes "redis_isolated R view" and "typed (view r)"
  shows "fst (Acquire R (Inr b) key ttl r) =
      (if lease (view r) key \<noteq> None then Err ErrLockHeld
       else if Milliseconds ttl \<le> 0
       then Err (wrapf ''acquire lock: '' (Opaque ''ERR invalid expire time in 'set' command''))
       else Ret (hex_encode b)) \<and>
    lease (view (snd (Acquire R (Inr b) key ttl r))) =
      (if lease (view r) key = None \<and> 0 < Milliseconds ttl
       then (lease (view r))(key := Some (hex_encode b, Some (now_ms (view r) + Milliseconds ttl)))
       else lease (view r)) \<and>
    fst (Release R key tok r) = (if \<exists>d. lease (view r) key = Some (tok, d) then Ret () else Err ErrLockNotHeld) \<and>
    lease (view (snd (Release R key tok r))) =
      (if \<exists>d. lease (view r) key = Some (tok, d) then (lease (view r))(key := None) else lease (view r)) \<and>
    fst (Extend R key tok ttl r) = (if \<exists>d. lease (view r) key = Some (tok, d) then Ret () else Err ErrLockNotHeld) \<and>
    lease (view (snd (Extend R key tok ttl r))) =
      (if \<exists>d. lease (view r) key = Some (tok, d)
       then (lease (view r))(key := if Milliseconds ttl \<le> 0 then None
              else Some (tok, Some (now_ms (view r) + Milliseconds ttl)))
       else lease (view r)) \<and>
    fst (IsHeld R key tok r) = Ret (\<exists>d. lease (view r) key = Some (tok, d))"
  by (intro conjI redis_isolated.lock_calls [OF assms] redis_isolated.lock_effects [OF assms])

lemma lease_empty [simp]: "lease empty_server key = None"
  by (simp add: lease_def entry_def empty_server_def)

lemma lock_calls_exact_witness:
  "fst (Acquire mem_redis (Inr [1]) ''cron'' one_minute empty_server) = Ret ''01'' \<and>
   fst (Release mem_redis ''cron'' ''01'' empty_server) = Err ErrLockNotHeld"
  using lock_calls_exact [OF mem.redis_isolated_axioms typed_empty, of "[1]" "''cron''" one_minute "''01''"]
  by simp

text \<open>
  C35: A session of the self-extending lock: on a free lock \<open>Acquire\<close> succeeds; after any number of
  ticks of the background goroutine that come less than the lock's lifetime apart, the goroutine is
  still running and the lock is still held under the same token for a full lifetime; then
  \<open>Release\<close> succeeds and the lock is free.
\<close>

theorem distributed_lock_session:
  assumes "redis_isolated R view" and "typed (view r)" "lease (view r) key = None" "0 < Milliseconds ttl"
  shows "\<exists>dl r1. DL_Acquire (RedisLocker R) (Inr b) (NewDistributedLock key ttl) r = (Ret (), dl, r1) \<and>
    (\<forall>dl' r2. dl_run (RedisLocker R) (lock_idle view) dl r1 dl' r2 \<longrightarrow>
       dl' = dl \<and> lease (view r2) key = Some (hex_encode b, Some (now_ms (view r2) + Milliseconds ttl)) \<and>
       (\<exists>r3. DL_Release (RedisLocker R) dl' r2 = (Ret (), dl\<lparr>dl_closed := True\<rparr>, r3) \<and> lease (view r3) key = None))"
  using assms(2-4) by (rule redis_isolated.DL_session_redis [OF assms(1)])

lemma distributed_lock_session_witness:
  "\<exists>dl r1. DL_Acquire (RedisLocker mem_redis) (Inr [1]) (NewDistributedLock ''cron'' one_minute) empty_server =
     (Ret (), dl, r1) \<and> lease r1 ''cron'' = Some (''01'', Some (now_ms r1 + 60000))"
  using distributed_lock_session [OF mem.redis_isolated_axioms typed_empty lease_empty,
      where ttl = one_minute and key = "''cron''" and b = "[1]"]
    dl_run.start by fastforce

text \<open>
  \<open>TryAcquire\<close> takes a free lock in its first attempt; as long as another process keeps the
  lock it goes on trying, without ever touching it, and once its context ends it returns an
  error that is \<open>ErrLockTimeout\<close>.
\<close>

theorem TryAcquire_outcome:
  assumes "redis_isolated R view" and "typed (view r)" and "0 < Milliseconds ttl" "0 < sint interval"
    and "list_all (\<lambda>(rnd, d). \<exists>b. rnd = Inr b \<and> d = None) turns"
  shows "\<exists>r' x. TryAcquire R key ttl interval (turns @ [(Inr b, Some ce)]) r = Some (x, r') \<and>
    (case lease (view r) key of
       Some l \<Rightarrow> (\<exists>e. x = Err e \<and> errors_Is e ErrLockTimeout) \<and> lease (view r') key = Some l
     | None \<Rightarrow> (\<exists>tok. x = Ret tok \<and> lease (view r') key = Some (tok, Some (now_ms (view r) + Milliseconds ttl))))"
proof (cases "lease (view r) key")
  case None
  obtain b' d rest where "turns @ [(Inr b, Some ce)] = (Inr b', d) # rest"
    using assms(5) by (cases turns) auto
  then show ?thesis
    using redis_isolated.TryAcquire_loop_free [OF assms(1,2) None assms(3), of b' d rest] None assms(4)
    by (auto simp: TryAcquire_def)
next
  case (Some l)
  then show ?thesis
    using redis_isolated.TryAcquire_loop_held [OF assms(1,2) _ assms(5), of key ttl b ce] assms(4)
    by (fastforce simp: TryAcquire_def)
qed

lemma TryAcquire_outcome_witness:
  "\<exists>r' tok. TryAcquire mem_redis ''cron'' one_minute one_minute [(Inr [1], Some ContextCanceled)] empty_server =
     Some (Ret tok, r')"
  using TryAcquire_outcome [OF mem.redis_isolated_axioms typed_empty, of one_minute one_minute "[]" "''cron''" "[1]" ContextCanceled]
  by (auto simp: one_minute_def Milliseconds_def go_quot_def)

end
