(* ===== verification/Redis_Queue.thy ===== *)
theory Redis_Queue
  imports Redis_Keys
begin

text \<open>
  \<open>internal/queue/redis.go\<close>: the priority queue on Redis. One definition per method; the Lua
  scripts are functions of the server's \<open>exec\<close>. Each operation takes the client \<open>R\<close>, the
  \<open>uuid\<close> package \<open>U\<close>, the clock reading(s) it makes and the server state \<open>r\<close>.
\<close>

section \<open>Scripts\<close>

definition enqueueScript ::
  "'r redis \<Rightarrow> string \<Rightarrow> string \<Rightarrow> string \<Rightarrow> bulk \<Rightarrow> int \<Rightarrow> int \<Rightarrow> 'r \<Rightarrow> reply \<times> 'r" where
  "enqueueScript R jobKey queueKey delayedKey jobData scheduledAt now =
     lua_call R (SET jobKey jobData) (\<lambda>_.
     lua_call R (EXPIRE jobKey (86400 * 7)) (\<lambda>_.
     if scheduledAt \<le> now
     then lua_call R (LPUSH queueKey jobKey) (\<lambda>_. lua_return (RInt 1))
     else lua_call R (ZADD delayedKey scheduledAt jobKey) (\<lambda>_. lua_return (RInt 1))))"

text \<open>
  \<open>expiry[1] * 1000 + math.floor(expiry[2] / 1000)\<close>, with Lua reading the two numbers of a
  \<open>TIME\<close> reply.
\<close>

definition lua_time_ms :: "reply \<Rightarrow> int" where
  "lua_time_ms t =
     (case t of
        RArr [RBulk (Text a), RBulk (Text b)] \<Rightarrow>
          (case (parse_int a, parse_int b) of (Some s, Some us) \<Rightarrow> s * 1000 + us div 1000 | _ \<Rightarrow> 0)
      | _ \<Rightarrow> 0)"

text \<open>\<open>RPOP\<close> gives the popped text, or nil, which is false in Lua.\<close>

fun dequeueScript :: "'r redis \<Rightarrow> string list \<Rightarrow> string \<Rightarrow> int \<Rightarrow> 'r \<Rightarrow> reply \<times> 'r" where
  "dequeueScript R [] inflight timeout = lua_return RNil"
| "dequeueScript R (queueKey # queueKeys) inflight timeout =
     lua_call R (RPOP queueKey) (\<lambda>x.
       case x of
         RBulk (Text jobKey) \<Rightarrow>
           lua_call R TIME (\<lambda>expiry.
           lua_call R (ZADD inflight (lua_time_ms expiry + timeout) jobKey) (\<lambda>_.
           lua_call R (GET jobKey) (\<lambda>jobData.
           lua_return (RArr [RBulk (Text jobKey), jobData]))))
       | _ \<Rightarrow> dequeueScript R queueKeys inflight timeout)"

declare dequeueScript.simps(2) [simp del]

section \<open>Operations\<close>

definition Enqueue :: "'r redis \<Rightarrow> uuid_lib \<Rightarrow> go_time \<Rightarrow> Job \<Rightarrow> 'r \<Rightarrow> unit res \<times> 'r" where
  "Enqueue R U now job r =
     (case Marshal_job U job of
        Err e \<Rightarrow> (Err (wrapf ''marshal job: '' e), r)
      | Panic p \<Rightarrow> (Panic p, r)
      | Ret data \<Rightarrow>
          let script = enqueueScript R (jobDataKey U (job_ID job)) (readyKey (job_Priority job))
                delayedQueueKey (Doc data) (UnixMilli (job_ScheduledAt job)) (UnixMilli now)
          in (case evalsha R script r of
                (Inr _, r1) \<Rightarrow> (Ret (), r1)
              | (Inl e, r1) \<Rightarrow>
                  if errors_Is e RedisNil then (Ret (), r1)
                  else (case rtt R script r1 of
                          (Inr _, r2) \<Rightarrow> (Ret (), r2)
                        | (Inl e, r2) \<Rightarrow>
                            (if errors_Is e RedisNil then Ret ()
                             else Err (wrapf ''enqueue job: '' e), r2))))"

text \<open>
  The JSON text of a reply: \<open>slice[1].(string)\<close> is empty unless the reply is a string, and only
  a document can be unmarshalled.
\<close>

definition unmarshal_reply :: "uuid_lib \<Rightarrow> reply \<Rightarrow> Job res" where
  "unmarshal_reply U x =
     (case x of
        RBulk (Doc d) \<Rightarrow> unmarshal_job U d
      | _ \<Rightarrow> Err (Opaque ''unexpected end of JSON input''))"

definition decode_dequeued :: "uuid_lib \<Rightarrow> reply \<Rightarrow> Job res" where
  "decode_dequeued U result =
     (case result of
        RArr (_ # jobData # _) \<Rightarrow> map_err (wrapf ''unmarshal job data: '') (unmarshal_reply U jobData)
      | _ \<Rightarrow> Err ErrQueueEmpty)"

definition ready_keys :: "string list" where
  "ready_keys = map readyKey [0, 1, 2, 3, 4, 5, 6, 7, 8, 9]"

definition Dequeue :: "'r redis \<Rightarrow> uuid_lib \<Rightarrow> string \<Rightarrow> duration \<Rightarrow> 'r \<Rightarrow> Job res \<times> 'r" where
  "Dequeue R U workerID timeout r =
     (let script = dequeueScript R ready_keys (inflightKey workerID) (Milliseconds timeout)
      in (case evalsha R script r of
            (Inr result, r1) \<Rightarrow> (decode_dequeued U result, r1)
          | (Inl e, r1) \<Rightarrow>
              if errors_Is e RedisNil then (Err ErrQueueEmpty, r1)
              else (case rtt R script r1 of
                      (Inr result, r2) \<Rightarrow> (decode_dequeued U result, r2)
                    | (Inl e, r2) \<Rightarrow>
                        (if errors_Is e RedisNil then Err ErrQueueEmpty
                         else Err (wrapf ''dequeue: '' e), r2))))"

text \<open>Run a pipeline; only its error is looked at.\<close>

definition pipe_err :: "'r redis \<Rightarrow> string \<Rightarrow> rcmd list \<Rightarrow> 'r \<Rightarrow> unit res \<times> 'r" where
  "pipe_err R what cs r =
     (case pipe R cs r of
        (Inl e, r') \<Rightarrow> (Err (wrapf what e), r')
      | (Inr _, r') \<Rightarrow> (Ret (), r'))"

definition Acknowledge :: "'r redis \<Rightarrow> uuid_lib \<Rightarrow> uuid \<Rightarrow> string \<Rightarrow> 'r \<Rightarrow> unit res \<times> 'r" where
  "Acknowledge R U jobID workerID r =
     pipe_err R ''acknowledge job: ''
       [DEL (jobDataKey U jobID), ZREM (inflightKey workerID) (jobDataKey U jobID)] r"

definition Requeue :: "'r redis \<Rightarrow> uuid_lib \<Rightarrow> Job \<Rightarrow> 'r \<Rightarrow> unit res \<times> 'r" where
  "Requeue R U job r =
     (case Marshal_job U job of
        Err e \<Rightarrow> (Err (wrapf ''marshal job: '' e), r)
      | Panic p \<Rightarrow> (Panic p, r)
      | Ret data \<Rightarrow>
          pipe_err R ''requeue job: ''
            [SET_EX (jobDataKey U (job_ID job)) (Doc data) (7 * 24 * 3600),
             LPUSH (readyKey (job_Priority job)) (jobDataKey U (job_ID job))] r)"

text \<open>\<open>Nack\<close> changes the job it is given: the result has the job too.\<close>

definition Nack ::
  "'r redis \<Rightarrow> uuid_lib \<Rightarrow> go_time \<Rightarrow> Job \<Rightarrow> string \<Rightarrow> string \<Rightarrow> 'r \<Rightarrow> unit res \<times> Job \<times> 'r" where
  "Nack R U now job workerID errMsg r =
     (if IsRetryable job then
        let job = job\<lparr>job_RetryCount := go_int (job_RetryCount job + 1), job_Status := JobStatusPending,
                     job_ErrorMessage := errMsg\<rparr>
        in (case NextRetryTime U now (5 * second) job of
              Panic p \<Rightarrow> (Panic p, job, r)
            | Err e \<Rightarrow> (Err e, job, r)
            | Ret t \<Rightarrow>
                let job = job\<lparr>job_ScheduledAt := t\<rparr>
                in (case Requeue R U job r of (x, r') \<Rightarrow> (x, job, r')))
      else
        let job = job\<lparr>job_Status := JobStatusDeadLetter, job_ErrorMessage := errMsg\<rparr>;
            jobKey = jobDataKey U (job_ID job)
        in (case Marshal_job U job of
              Err e \<Rightarrow> (Err (wrapf ''marshal job: '' e), job, r)
            | Panic p \<Rightarrow> (Panic p, job, r)
            | Ret data \<Rightarrow>
                (case pipe_err R ''move to dlq: ''
                        [SET_EX jobKey (Doc data) (30 * 24 * 3600), LPUSH dlqKey jobKey,
                         ZREM (inflightKey workerID) jobKey] r of
                   (x, r') \<Rightarrow> (x, job, r'))))"

text \<open>The strings of an array reply.\<close>

fun reply_texts :: "reply \<Rightarrow> string list" where
  "reply_texts (RArr xs) = List.map_filter (\<lambda>x. case x of RBulk (Text t) \<Rightarrow> Some t | _ \<Rightarrow> None) xs"
| "reply_texts _ = []"

text \<open>\<open>client.Get\<close> and \<open>json.Unmarshal\<close> of its result, as \<open>MoveDelayed\<close> and \<open>ReclaimOrphaned\<close> do.\<close>

definition fetch_job :: "'r redis \<Rightarrow> uuid_lib \<Rightarrow> string \<Rightarrow> 'r \<Rightarrow> Job res \<times> 'r" where
  "fetch_job R U jobKey r =
     (case rtt R (exec R (GET jobKey)) r of
        (Inl e, r') \<Rightarrow> (Err e, r')
      | (Inr x, r') \<Rightarrow> (unmarshal_reply U x, r'))"

text \<open>
  The loop of \<open>MoveDelayed\<close> collects the pipeline: a job that cannot be read or decoded is only
  removed from the delayed set.
\<close>

fun move_loop :: "'r redis \<Rightarrow> uuid_lib \<Rightarrow> string list \<Rightarrow> int \<Rightarrow> rcmd list \<Rightarrow> 'r \<Rightarrow> (int \<times> rcmd list) \<times> 'r" where
  "move_loop R U [] moved cmds r = ((moved, cmds), r)"
| "move_loop R U (jobKey # jobKeys) moved cmds r =
     (case fetch_job R U jobKey r of
        (Ret job, r') \<Rightarrow>
          move_loop R U jobKeys (moved + 1)
            (cmds @ [LPUSH (readyKey (job_Priority job)) jobKey, ZREM delayedQueueKey jobKey]) r'
      | (_, r') \<Rightarrow> move_loop R U jobKeys moved (cmds @ [ZREM delayedQueueKey jobKey]) r')"

definition MoveDelayed ::
  "'r redis \<Rightarrow> uuid_lib \<Rightarrow> go_time \<Rightarrow> int \<Rightarrow> 'r \<Rightarrow> (int \<times> go_error option) \<times> 'r" where
  "MoveDelayed R U now batchSize r =
     (case rtt R (exec R (ZRANGEBYSCORE delayedQueueKey 0 (UnixMilli now)
                    (if batchSize = 0 then None else Some batchSize))) r of
        (Inl e, r1) \<Rightarrow> ((0, Some (wrapf ''get delayed jobs: '' e)), r1)
      | (Inr x, r1) \<Rightarrow>
          if reply_texts x = [] then ((0, None), r1)
          else (case move_loop R U (reply_texts x) 0 [] r1 of
                  ((moved, cmds), r2) \<Rightarrow>
                    (case pipe R cmds r2 of
                       (Inl e, r3) \<Rightarrow> ((moved, Some (wrapf ''move delayed jobs: '' e)), r3)
                     | (Inr _, r3) \<Rightarrow> ((moved, None), r3))))"

text \<open>A document that cannot be decoded is skipped.\<close>

definition decode_all :: "uuid_lib \<Rightarrow> reply list \<Rightarrow> Job list" where
  "decode_all U xs = List.map_filter (\<lambda>x. case unmarshal_reply U x of Ret j \<Rightarrow> Some j | _ \<Rightarrow> None) xs"

definition GetDLQ :: "'r redis \<Rightarrow> uuid_lib \<Rightarrow> int \<Rightarrow> int \<Rightarrow> 'r \<Rightarrow> Job list res \<times> 'r" where
  "GetDLQ R U limit offset r =
     (case rtt R (exec R (LRANGE dlqKey offset (offset + limit - 1))) r of
        (Inl e, r1) \<Rightarrow> (Err (wrapf ''get dlq keys: '' e), r1)
      | (Inr x, r1) \<Rightarrow>
          if reply_texts x = [] then (Ret [], r1)
          else (case pipe R (map GET (reply_texts x)) r1 of
                  (Inl e, r2) \<Rightarrow> (Err (wrapf ''get dlq job data: '' e), r2)
                | (Inr xs, r2) \<Rightarrow> (Ret (decode_all U xs), r2)))"

definition int_of_reply :: "reply \<Rightarrow> int" where
  "int_of_reply x = (case x of RInt n \<Rightarrow> n | _ \<Rightarrow> 0)"

definition QueueDepth :: "'r redis \<Rightarrow> 'r \<Rightarrow> (int \<rightharpoonup> int) res \<times> 'r" where
  "QueueDepth R r =
     (case pipe R (map LLEN ready_keys) r of
        (Inl e, r1) \<Rightarrow> (Err (wrapf ''get queue depths: '' e), r1)
      | (Inr xs, r1) \<Rightarrow> (Ret (map_of (zip [0, 1, 2, 3, 4, 5, 6, 7, 8, 9] (map int_of_reply xs))), r1))"

text \<open>
  \<open>ReclaimOrphaned\<close>: the inner loop over the expired entries of one in-flight set, then the loop
  over the sets. The errors of \<open>ZRem\<close>, \<open>ZCard\<close> and \<open>Del\<close> are ignored by the code. The clock is read for
  every set and for every job: \<open>now k\<close> is the reading while the key \<open>k\<close> is handled.
\<close>

definition orphan :: "uuid_lib \<Rightarrow> go_time \<Rightarrow> Job \<Rightarrow> Job res" where
  "orphan U now job =
     (let job = job\<lparr>job_RetryCount := go_int (job_RetryCount job + 1), job_Status := JobStatusPending, job_WorkerID := ''''\<rparr>
      in bind_res (NextRetryTime U now (5 * second) job) (\<lambda>t. Ret (job\<lparr>job_ScheduledAt := t\<rparr>)))"

definition fire :: "'r redis \<Rightarrow> rcmd \<Rightarrow> 'r \<Rightarrow> 'r" where
  "fire R c r = snd (rtt R (exec R c) r)"

fun reclaim_entries ::
  "'r redis \<Rightarrow> uuid_lib \<Rightarrow> (string \<Rightarrow> go_time) \<Rightarrow> string \<Rightarrow> string list \<Rightarrow> int \<Rightarrow> 'r \<Rightarrow> int res \<times> 'r" where
  "reclaim_entries R U now inflight [] reclaimed r = (Ret reclaimed, r)"
| "reclaim_entries R U now inflight (jobKey # jobKeys) reclaimed r =
     (case fetch_job R U jobKey r of
        (Ret job, r1) \<Rightarrow>
          (case orphan U (now jobKey) job of
             Panic p \<Rightarrow> (Panic p, r1)
           | Err e \<Rightarrow> (Err e, r1)
           | Ret job' \<Rightarrow>
               (case Requeue R U job' r1 of
                  (Ret _, r2) \<Rightarrow>
                    reclaim_entries R U now inflight jobKeys (reclaimed + 1) (fire R (ZREM inflight jobKey) r2)
                | (Panic p, r2) \<Rightarrow> (Panic p, r2)
                | (Err e, r2) \<Rightarrow> reclaim_entries R U now inflight jobKeys reclaimed r2))
      | (_, r1) \<Rightarrow> reclaim_entries R U now inflight jobKeys reclaimed (fire R (ZREM inflight jobKey) r1))"

definition zcard_or_zero :: "'r redis \<Rightarrow> string \<Rightarrow> 'r \<Rightarrow> int \<times> 'r" where
  "zcard_or_zero R k r =
     (case rtt R (exec R (ZCARD k)) r of (Inl e, r') \<Rightarrow> (0, r') | (Inr x, r') \<Rightarrow> (int_of_reply x, r'))"

fun reclaim_sets ::
  "'r redis \<Rightarrow> uuid_lib \<Rightarrow> (string \<Rightarrow> go_time) \<Rightarrow> duration \<Rightarrow> string list \<Rightarrow> int \<Rightarrow> 'r \<Rightarrow> int res \<times> 'r" where
  "reclaim_sets R U now maxAge [] reclaimed r = (Ret reclaimed, r)"
| "reclaim_sets R U now maxAge (inflight # sets) reclaimed r =
     (case rtt R (exec R (ZRANGEBYSCORE inflight 0 (UnixMilli (time_Add (now inflight) (- maxAge))) None)) r of
        (Inl e, r1) \<Rightarrow> reclaim_sets R U now maxAge sets reclaimed r1
      | (Inr x, r1) \<Rightarrow>
          (case reclaim_entries R U now inflight (reply_texts x) reclaimed r1 of
             (Ret n, r2) \<Rightarrow>
               (case zcard_or_zero R inflight r2 of
                  (left, r3) \<Rightarrow>
                    reclaim_sets R U now maxAge sets n (if left = 0 then fire R (DEL inflight) r3 else r3))
           | (x, r2) \<Rightarrow> (x, r2)))"

definition ReclaimOrphaned ::
  "'r redis \<Rightarrow> uuid_lib \<Rightarrow> (string \<Rightarrow> go_time) \<Rightarrow> duration \<Rightarrow> 'r \<Rightarrow> (int \<times> go_error option) res \<times> 'r" where
  "ReclaimOrphaned R U now maxAge r =
     (case scan R inflightPrefix r of
        ((keys, iter_err), r1) \<Rightarrow>
          (case reclaim_sets R U now maxAge keys 0 r1 of
             (Ret n, r2) \<Rightarrow> (Ret (n, map_option (wrapf ''scan in-flight keys: '') iter_err), r2)
           | (Err e, r2) \<Rightarrow> (Err e, r2)
           | (Panic p, r2) \<Rightarrow> (Panic p, r2)))"

section \<open>The abstract queue\<close>

text \<open>
  What the queue is, without Redis: the keys waiting per priority (next one last), the delayed
  keys with the time they are due, the keys in flight per worker with their deadlines, the dead
  letters (newest first), and the documents stored for the keys.
\<close>

record aqueue =
  aq_ready :: "int \<Rightarrow> string list"
  aq_delayed :: "(int \<times> string) list"
  aq_inflight :: "string \<Rightarrow> (int \<times> string) list"
  aq_dlq :: "string list"
  aq_data :: "string \<Rightarrow> json option"

definition doc_at :: "rstate \<Rightarrow> string \<Rightarrow> json option" where
  "doc_at s k = (if key_kind k = KJob then (case str_at s k of Some (Doc d) \<Rightarrow> Some d | _ \<Rightarrow> None) else None)"

definition queue_of :: "rstate \<Rightarrow> aqueue" where
  "queue_of s = \<lparr>aq_ready = \<lambda>p. list_at s (readyKey p), aq_delayed = zset_at s delayedQueueKey,
     aq_inflight = \<lambda>w. zset_at s (inflightKey w), aq_dlq = list_at s dlqKey, aq_data = doc_at s\<rparr>"

text \<open>Elementary changes.\<close>

definition aq_store :: "string \<Rightarrow> json \<Rightarrow> aqueue \<Rightarrow> aqueue" where
  "aq_store k d q = q\<lparr>aq_data := (aq_data q)(k \<mapsto> d)\<rparr>"

definition aq_push :: "int \<Rightarrow> string \<Rightarrow> aqueue \<Rightarrow> aqueue" where
  "aq_push p k q = q\<lparr>aq_ready := (aq_ready q)(p := k # aq_ready q p)\<rparr>"

definition aq_delay :: "int \<Rightarrow> string \<Rightarrow> aqueue \<Rightarrow> aqueue" where
  "aq_delay t k q = q\<lparr>aq_delayed := zadd t k (aq_delayed q)\<rparr>"

definition aq_undelay :: "string \<Rightarrow> aqueue \<Rightarrow> aqueue" where
  "aq_undelay k q = q\<lparr>aq_delayed := zrem k (aq_delayed q)\<rparr>"

definition aq_fly :: "string \<Rightarrow> int \<Rightarrow> string \<Rightarrow> aqueue \<Rightarrow> aqueue" where
  "aq_fly w t k q = q\<lparr>aq_inflight := (aq_inflight q)(w := zadd t k (aq_inflight q w))\<rparr>"

definition aq_land :: "string \<Rightarrow> string \<Rightarrow> aqueue \<Rightarrow> aqueue" where
  "aq_land w k q = q\<lparr>aq_inflight := (aq_inflight q)(w := zrem k (aq_inflight q w))\<rparr>"

definition aq_bury :: "string \<Rightarrow> aqueue \<Rightarrow> aqueue" where
  "aq_bury k q = q\<lparr>aq_dlq := k # aq_dlq q\<rparr>"

definition aq_forget :: "string \<Rightarrow> aqueue \<Rightarrow> aqueue" where
  "aq_forget k q = q\<lparr>aq_data := (aq_data q)(k := None)\<rparr>"

definition aq_pop :: "int \<Rightarrow> aqueue \<Rightarrow> aqueue" where
  "aq_pop p q = q\<lparr>aq_ready := (aq_ready q)(p := butlast (aq_ready q p))\<rparr>"

lemmas aq_defs = aq_store_def aq_push_def aq_delay_def aq_undelay_def aq_fly_def aq_land_def
  aq_bury_def aq_forget_def aq_pop_def

text \<open>The next job: the oldest key of the first priority, from 0 to 9, that has one.\<close>

fun first_ready :: "int list \<Rightarrow> aqueue \<Rightarrow> (int \<times> string) option" where
  "first_ready [] q = None"
| "first_ready (p # ps) q =
     (if aq_ready q p = [] then first_ready ps q else Some (p, last (aq_ready q p)))"

abbreviation priorities :: "int list" where
  "priorities \<equiv> [0, 1, 2, 3, 4, 5, 6, 7, 8, 9]"

lemma first_ready_Some:
  "first_ready ps q = Some (p, k) \<Longrightarrow> p \<in> set ps \<and> aq_ready q p \<noteq> [] \<and> k = last (aq_ready q p)"
  by (induction ps) (auto split: if_splits)

lemma first_ready_None: "first_ready ps q = None \<longleftrightarrow> (\<forall>p \<in> set ps. aq_ready q p = [])"
  by (induction ps) auto

section \<open>Commands on the abstract queue\<close>

lemma doc_at_put_list [simp]: "key_kind k \<noteq> KJob \<Longrightarrow> doc_at (put_list k xs s) = doc_at s"
  "key_kind k \<noteq> KJob \<Longrightarrow> doc_at (put_zset k z s) = doc_at s"
  by (auto simp: doc_at_def fun_eq_iff)

lemma doc_at_put_str:
  assumes "key_kind k = KJob"
  shows "doc_at (put k (Some (VStr (Doc d), None)) s) = (doc_at s)(k \<mapsto> d)"
    and "0 \<le> t \<Longrightarrow> doc_at (put k (Some (VStr (Doc d), Some (now_ms s + t))) s) = (doc_at s)(k \<mapsto> d)"
    and "doc_at (put k None s) = (doc_at s)(k := None)"
  using assms by (auto simp: doc_at_def fun_eq_iff)

lemma queue_put_list:
  "queue_of (put_list (readyKey p) xs s) = (queue_of s)\<lparr>aq_ready := (aq_ready (queue_of s))(p := xs)\<rparr>"
  "queue_of (put_list dlqKey xs s) = (queue_of s)\<lparr>aq_dlq := xs\<rparr>"
  by (auto simp: queue_of_def fun_eq_iff)

lemma queue_put_zset:
  "queue_of (put_zset delayedQueueKey z s) = (queue_of s)\<lparr>aq_delayed := z\<rparr>"
  "queue_of (put_zset (inflightKey w) z s) = (queue_of s)\<lparr>aq_inflight := (aq_inflight (queue_of s))(w := z)\<rparr>"
  by (auto simp: queue_of_def fun_eq_iff)

lemma queue_put_job:
  assumes "key_kind k = KJob"
  shows "0 \<le> t \<Longrightarrow> queue_of (put k (Some (VStr (Doc d), Some (now_ms s + t))) s) = aq_store k d (queue_of s)"
    and "queue_of (put k (Some (VStr (Doc d), None)) s) = aq_store k d (queue_of s)"
    and "queue_of (put k None s) = aq_forget k (queue_of s)"
proof -
  have n: "readyKey p \<noteq> k" "dlqKey \<noteq> k" "delayedQueueKey \<noteq> k" "inflightKey w \<noteq> k" for p w
    using assms by (metis key_kind_simps kind.distinct)+
  show "0 \<le> t \<Longrightarrow> queue_of (put k (Some (VStr (Doc d), Some (now_ms s + t))) s) = aq_store k d (queue_of s)"
    "queue_of (put k (Some (VStr (Doc d), None)) s) = aq_store k d (queue_of s)"
    "queue_of (put k None s) = aq_forget k (queue_of s)"
    using n by (simp_all add: queue_of_def aq_store_def aq_forget_def doc_at_put_str assms)
qed

lemma queue_of_sel:
  "list_at s (readyKey p) = aq_ready (queue_of s) p" "zset_at s delayedQueueKey = aq_delayed (queue_of s)"
  "zset_at s (inflightKey w) = aq_inflight (queue_of s) w" "list_at s dlqKey = aq_dlq (queue_of s)"
  by (simp_all add: queue_of_def)

text \<open>Each command of the queue's pipelines is an elementary change.\<close>

lemma queue_cmds:
  assumes "typed s"
  shows "queue_of (snd (redis_doc (LPUSH (readyKey p) m) s)) = aq_push p m (queue_of s)"
    and "queue_of (snd (redis_doc (LPUSH dlqKey m) s)) = aq_bury m (queue_of s)"
    and "queue_of (snd (redis_doc (ZREM (inflightKey w) m) s)) = aq_land w m (queue_of s)"
    and "queue_of (snd (redis_doc (ZREM delayedQueueKey m) s)) = aq_undelay m (queue_of s)"
    and "0 < t \<Longrightarrow> key_kind k = KJob \<Longrightarrow> queue_of (snd (redis_doc (SET_EX k (Doc d) t) s)) = aq_store k d (queue_of s)"
    and "key_kind k = KJob \<Longrightarrow> queue_of (snd (redis_doc (DEL k) s)) = aq_forget k (queue_of s)"
  using assms
  by (simp_all add: on_list_typed on_zset_typed queue_put_list queue_put_zset queue_put_job aq_defs queue_of_sel)

section \<open>What the scripts do\<close>

lemma lua_time_ms_TIME [simp]: "lua_time_ms (fst (redis_doc TIME s)) = now_ms s"
proof -
  define q m where "q = rs_us s div 1000000" and "m = rs_us s mod 1000000"
  have "rs_us s = m + (q * 1000) * 1000" by (simp add: q_def m_def)
  then have "q * 1000 + m div 1000 = rs_us s div 1000" by simp
  then show ?thesis by (simp add: lua_time_ms_def now_ms_def q_def m_def)
qed

lemma rpop_typed:
  "typed s \<Longrightarrow> key_kind k = KList \<Longrightarrow> redis_doc (RPOP k) s =
     (if list_at s k = [] then (RNil, s)
      else (RBulk (Text (last (list_at s k))), put_list k (butlast (list_at s k)) s))"
  by (simp add: on_list_typed)

definition next_job :: "string list \<Rightarrow> rstate \<Rightarrow> (string \<times> string) option" where
  "next_job ks s = map_option (\<lambda>k. (k, last (list_at s k))) (find (\<lambda>k. list_at s k \<noteq> []) ks)"

lemma next_job_simps [simp]:
  "next_job [] s = None"
  "next_job (k # ks) s = (if list_at s k = [] then next_job ks s else Some (k, last (list_at s k)))"
  by (simp_all add: next_job_def)

lemma next_job_ready:
  "next_job (map readyKey ps) s = map_option (\<lambda>(p, k). (readyKey p, k)) (first_ready ps (queue_of s))"
  by (induction ps) (simp_all add: queue_of_sel)

lemma last_job_kind:
  assumes "typed s" "key_kind k = KList" "list_at s k \<noteq> []"
  shows "key_kind (last (list_at s k)) = KJob"
  using list_at_jobs [OF assms(1,2)] assms(3) by (simp add: list_all_iff)

definition get_reply :: "rstate \<Rightarrow> string \<Rightarrow> reply" where
  "get_reply s k = (case str_at s k of None \<Rightarrow> RNil | Some b \<Rightarrow> RBulk b)"

lemma str_at_other:
  assumes "key_kind k = KJob" "key_kind l = KList \<or> key_kind l = KZset"
  shows "str_at (put_list l xs s) k = str_at s k" "str_at (put_zset l z s) k = str_at s k"
  using assms by auto

context redis_commands
begin

lemma enqueueScript_typed:
  assumes "typed (view r)" "key_kind jk = KJob"
  shows "fst (enqueueScript R jk (readyKey p) delayedQueueKey (Doc d) sched now r) = RInt 1"
    and "typed (view (snd (enqueueScript R jk (readyKey p) delayedQueueKey (Doc d) sched now r)))"
    and "queue_of (view (snd (enqueueScript R jk (readyKey p) delayedQueueKey (Doc d) sched now r))) =
      (if sched \<le> now then aq_push p jk else aq_delay sched jk) (aq_store jk d (queue_of (view r)))"
proof -
  let ?s = "put jk (Some (VStr (Doc d), Some (now_ms (view r) + 604800000))) (view r)"
  have s: "typed ?s" "queue_of ?s = aq_store jk d (queue_of (view r))"
    using assms by (simp_all add: typed_put_str queue_put_job(1) [of jk 604800000])
  have e: "entry (put jk (Some (VStr (Doc d), None)) (view r)) jk = Some (VStr (Doc d), None)"
    by (simp add: entry_put)
  note simps = enqueueScript_def script_simps e on_list_typed [OF s(1)] on_zset_typed [OF s(1)]
  show "fst (enqueueScript R jk (readyKey p) delayedQueueKey (Doc d) sched now r) = RInt 1"
    by (simp add: simps)
  show "typed (view (snd (enqueueScript R jk (readyKey p) delayedQueueKey (Doc d) sched now r)))"
    using typed_lpush [OF s(1), of "readyKey p" jk] typed_zadd [OF s(1), of delayedQueueKey jk sched] assms(2)
    by (simp add: simps)
  show "queue_of (view (snd (enqueueScript R jk (readyKey p) delayedQueueKey (Doc d) sched now r))) =
      (if sched \<le> now then aq_push p jk else aq_delay sched jk) (aq_store jk d (queue_of (view r)))"
    using s by (simp add: simps queue_put_list queue_put_zset aq_push_def aq_delay_def queue_of_sel)
qed

text \<open>The state the dequeue script leaves, and its reply.\<close>

lemma dequeueScript_empty:
  assumes "typed (view r)" "list_all (\<lambda>k. key_kind k = KList) ks" "next_job ks (view r) = None"
  shows "fst (dequeueScript R ks infl t r) = RNil" "view (snd (dequeueScript R ks infl t r)) = view r"
proof -
  have "fst (dequeueScript R ks infl t r) = RNil \<and> view (snd (dequeueScript R ks infl t r)) = view r"
    using assms
  proof (induction ks arbitrary: r)
    case (Cons k ks)
    then have "list_at (view r) k = []" by (simp split: if_splits)
    with Cons.prems have "redis_doc (RPOP k) (view r) = (RNil, view r)" by (subst rpop_typed) simp_all
    with Cons show ?case
      by (simp add: dequeueScript.simps(2) script_simps del: redis_doc.simps split: if_splits)
  qed (simp add: script_simps)
  then show "fst (dequeueScript R ks infl t r) = RNil" "view (snd (dequeueScript R ks infl t r)) = view r"
    by simp_all
qed

lemma dequeueScript_found:
  assumes "typed (view r)" "list_all (\<lambda>k. key_kind k = KList) ks" "next_job ks (view r) = Some (k, jk)"
    and "key_kind infl = KZset"
  shows "fst (dequeueScript R ks infl t r) = RArr [RBulk (Text jk), get_reply (view r) jk] \<and>
    view (snd (dequeueScript R ks infl t r)) =
      put_zset infl (zadd (now_ms (view r) + t) jk (zset_at (view r) infl))
        (put_list k (butlast (list_at (view r) k)) (view r))"
  using assms
proof (induction ks arbitrary: r)
  case (Cons q ks)
  show ?case
  proof (cases "list_at (view r) q = []")
    case True
    with Cons.prems have "redis_doc (RPOP q) (view r) = (RNil, view r)" by (subst rpop_typed) simp_all
    with Cons True show ?thesis
      by (simp add: dequeueScript.simps(2) script_simps del: redis_doc.simps)
  next
    case False
    with Cons.prems have kj: "k = q" "jk = last (list_at (view r) q)" "key_kind q = KList" "key_kind jk = KJob"
      by (auto simp: last_job_kind)
    let ?s1 = "put_list k (butlast (list_at (view r) k)) (view r)"
    let ?s2 = "put_zset infl (zadd (now_ms (view r) + t) jk (zset_at (view r) infl)) ?s1"
    have rp: "redis_doc (RPOP q) (view r) = (RBulk (Text jk), ?s1)"
      using Cons.prems(1) kj False by (subst rpop_typed) simp_all
    have t1: "typed ?s1" using Cons.prems(1) kj by (simp add: typed_rpop)
    have z: "zset_at ?s1 infl = zset_at (view r) infl" using Cons.prems(4) kj by auto
    have za: "redis_doc (ZADD infl (now_ms ?s1 + t) jk) ?s1 =
        (RInt (if jk \<in> snd ` set (zset_at (view r) infl) then 0 else 1), ?s2)"
      using on_zset_typed [OF t1 Cons.prems(4), where f = "\<lambda>z. (RInt (if jk \<in> snd ` set z then 0 else 1),
        put_zset infl (zadd (now_ms (view r) + t) jk z) ?s1)"] z by simp
    have t2: "typed ?s2" using typed_zadd [OF t1 Cons.prems(4) kj(4)] z by simp
    have g: "redis_doc (GET jk) ?s2 = (get_reply (view r) jk, ?s2)"
      unfolding get_typed [OF t2 disjI1 [OF kj(4)]] get_reply_def
      by (simp only: str_at_other [OF kj(4) disjI2 [OF Cons.prems(4)]] str_at_other [OF kj(4) disjI1 [OF kj(3), folded kj(1)]])
    obtain a where tm: "redis_doc TIME ?s1 = (RArr a, ?s1)" "lua_time_ms (RArr a) = now_ms ?s1"
      using lua_time_ms_TIME [of ?s1] by simp
    show ?thesis
      using rp za g tm kj
      by (simp add: dequeueScript.simps(2) script_simps get_reply_def del: redis_doc.simps split: option.splits)
  qed
qed simp

end

section \<open>The queue interface and its specification\<close>

text \<open>
  The interface \<open>Queue\<close>, and \<open>RedisQueue\<close> as an implementation of it. (\<open>ReclaimOrphaned\<close> is called
  through the interface by the scheduler.)
\<close>

record 'r Queue =
  q_Enqueue :: "go_time \<Rightarrow> Job \<Rightarrow> 'r \<Rightarrow> unit res \<times> 'r"
  q_Dequeue :: "string \<Rightarrow> duration \<Rightarrow> 'r \<Rightarrow> Job res \<times> 'r"
  q_Acknowledge :: "uuid \<Rightarrow> string \<Rightarrow> 'r \<Rightarrow> unit res \<times> 'r"
  q_Requeue :: "Job \<Rightarrow> 'r \<Rightarrow> unit res \<times> 'r"
  q_Nack :: "go_time \<Rightarrow> Job \<Rightarrow> string \<Rightarrow> string \<Rightarrow> 'r \<Rightarrow> unit res \<times> Job \<times> 'r"
  q_MoveDelayed :: "go_time \<Rightarrow> int \<Rightarrow> 'r \<Rightarrow> (int \<times> go_error option) \<times> 'r"
  q_GetDLQ :: "int \<Rightarrow> int \<Rightarrow> 'r \<Rightarrow> Job list res \<times> 'r"
  q_QueueDepth :: "'r \<Rightarrow> (int \<rightharpoonup> int) res \<times> 'r"
  q_ReclaimOrphaned :: "(string \<Rightarrow> go_time) \<Rightarrow> duration \<Rightarrow> 'r \<Rightarrow> (int \<times> go_error option) res \<times> 'r"

definition RedisQueue :: "'r redis \<Rightarrow> uuid_lib \<Rightarrow> 'r Queue" where
  "RedisQueue R U = \<lparr>q_Enqueue = Enqueue R U, q_Dequeue = Dequeue R U, q_Acknowledge = Acknowledge R U,
     q_Requeue = Requeue R U, q_Nack = Nack R U, q_MoveDelayed = MoveDelayed R U, q_GetDLQ = GetDLQ R U,
     q_QueueDepth = QueueDepth R, q_ReclaimOrphaned = ReclaimOrphaned R U\<rparr>"

text \<open>What each operation does to the abstract queue.\<close>

definition spec_enqueue :: "uuid_lib \<Rightarrow> go_time \<Rightarrow> Job \<Rightarrow> aqueue \<Rightarrow> aqueue" where
  "spec_enqueue U now job q =
     (let k = jobDataKey U (job_ID job); t = UnixMilli (job_ScheduledAt job)
      in (if t \<le> UnixMilli now then aq_push (job_Priority job) k else aq_delay t k)
           (aq_store k (marshal_job U job) q))"

definition stored :: "uuid_lib \<Rightarrow> aqueue \<Rightarrow> string \<Rightarrow> Job res" where
  "stored U q k = unmarshal_reply U (case aq_data q k of None \<Rightarrow> RNil | Some d \<Rightarrow> RBulk (Doc d))"

definition spec_dequeue :: "uuid_lib \<Rightarrow> int \<Rightarrow> string \<Rightarrow> duration \<Rightarrow> aqueue \<Rightarrow> Job res \<times> aqueue" where
  "spec_dequeue U now w timeout q =
     (case first_ready priorities q of
        None \<Rightarrow> (Err ErrQueueEmpty, q)
      | Some (p, k) \<Rightarrow>
          (map_err (wrapf ''unmarshal job data: '') (stored U q k),
           aq_fly w (now + Milliseconds timeout) k (aq_pop p q)))"

definition spec_ack :: "uuid_lib \<Rightarrow> uuid \<Rightarrow> string \<Rightarrow> aqueue \<Rightarrow> aqueue" where
  "spec_ack U u w q = aq_land w (jobDataKey U u) (aq_forget (jobDataKey U u) q)"

definition spec_requeue :: "uuid_lib \<Rightarrow> Job \<Rightarrow> aqueue \<Rightarrow> aqueue" where
  "spec_requeue U job q =
     (let k = jobDataKey U (job_ID job) in aq_push (job_Priority job) k (aq_store k (marshal_job U job) q))"

definition dead_job :: "Job \<Rightarrow> string \<Rightarrow> Job" where
  "dead_job job msg = job\<lparr>job_Status := JobStatusDeadLetter, job_ErrorMessage := msg\<rparr>"

definition spec_bury :: "uuid_lib \<Rightarrow> Job \<Rightarrow> string \<Rightarrow> aqueue \<Rightarrow> aqueue" where
  "spec_bury U job w q =
     (let k = jobDataKey U (job_ID job) in aq_land w k (aq_bury k (aq_store k (marshal_job U job) q)))"

definition spec_move1 :: "uuid_lib \<Rightarrow> string \<Rightarrow> aqueue \<Rightarrow> aqueue" where
  "spec_move1 U k q =
     aq_undelay k (case stored U q k of Ret j \<Rightarrow> aq_push (job_Priority j) k q | _ \<Rightarrow> q)"

definition due :: "go_time \<Rightarrow> int \<Rightarrow> aqueue \<Rightarrow> string list" where
  "due now batchSize q =
     zrange 0 (UnixMilli now) (if batchSize = 0 then None else Some batchSize) (aq_delayed q)"

definition spec_move :: "uuid_lib \<Rightarrow> go_time \<Rightarrow> int \<Rightarrow> aqueue \<Rightarrow> int \<times> aqueue" where
  "spec_move U now batchSize q =
     (let ks = due now batchSize q
      in (int (length (filter (\<lambda>k. is_Ret (stored U q k)) ks)), fold (spec_move1 U) ks q))"

text \<open>
  The contract of a queue: on a well-formed state every operation has exactly the specified effect
  and does not fail.
\<close>

locale job_queue =
  fixes Q :: "'r Queue" and U :: uuid_lib and ok :: "'r \<Rightarrow> bool" and absq :: "'r \<Rightarrow> aqueue"
    and clock :: "'r \<Rightarrow> int"
  assumes enqueue_law: "ok r \<Longrightarrow> job_encodable job \<Longrightarrow>
      \<exists>r'. q_Enqueue Q now job r = (Ret (), r') \<and> ok r' \<and> absq r' = spec_enqueue U now job (absq r)"
    and dequeue_law: "ok r \<Longrightarrow>
      \<exists>r'. q_Dequeue Q w timeout r = (fst (spec_dequeue U (clock r) w timeout (absq r)), r') \<and> ok r' \<and>
        absq r' = snd (spec_dequeue U (clock r) w timeout (absq r))"
    and ack_law: "ok r \<Longrightarrow>
      \<exists>r'. q_Acknowledge Q u w r = (Ret (), r') \<and> ok r' \<and> absq r' = spec_ack U u w (absq r)"
    and requeue_law: "ok r \<Longrightarrow> job_encodable job \<Longrightarrow>
      \<exists>r'. q_Requeue Q job r = (Ret (), r') \<and> ok r' \<and> absq r' = spec_requeue U job (absq r)"
    and bury_law: "ok r \<Longrightarrow> job_encodable job \<Longrightarrow> \<not> IsRetryable job \<Longrightarrow>
      \<exists>r'. q_Nack Q now job w msg r = (Ret (), dead_job job msg, r') \<and> ok r' \<and>
        absq r' = spec_bury U (dead_job job msg) w (absq r)"
    and move_law: "ok r \<Longrightarrow>
      \<exists>r'. q_MoveDelayed Q now batchSize r = ((fst (spec_move U now batchSize (absq r)), None), r') \<and> ok r' \<and>
        absq r' = snd (spec_move U now batchSize (absq r))"

lemma Marshal_encodable: "job_encodable j \<Longrightarrow> Marshal_job U j = Ret (marshal_job U j)"
  by (simp add: Marshal_job_def)

lemma dead_job_sel [simp]:
  "job_ID (dead_job j msg) = job_ID j" "job_encodable (dead_job j msg) = job_encodable j"
  by (simp_all add: dead_job_def job_encodable_def)

lemma get_reply_stored:
  assumes "typed s" "key_kind k = KJob"
  shows "unmarshal_reply U (get_reply s k) = stored U (queue_of s) k"
proof (cases "str_at s k")
  case (Some b)
  obtain j where "b = Doc j" by (rule str_at_job [OF assms Some])
  with Some assms(2) show ?thesis by (simp add: get_reply_def stored_def queue_of_def doc_at_def)
qed (simp add: get_reply_def stored_def queue_of_def doc_at_def)

context redis_isolated
begin

lemma Enqueue_typed:
  assumes "typed (view r)" "job_encodable job"
  shows "\<exists>r'. Enqueue R U now job r = (Ret (), r') \<and> typed (view r') \<and>
    queue_of (view r') = spec_enqueue U now job (queue_of (view r))"
  using enqueueScript_typed [OF assms(1), of "jobDataKey U (job_ID job)"]
  by (simp add: Enqueue_def Marshal_encodable [OF assms(2)] Let_def evalsha_iso spec_enqueue_def)

lemma Dequeue_typed:
  assumes "typed (view r)"
  shows "\<exists>r'. Dequeue R U w timeout r = (fst (spec_dequeue U (now_ms (view r)) w timeout (queue_of (view r))), r') \<and>
    typed (view r') \<and> queue_of (view r') = snd (spec_dequeue U (now_ms (view r)) w timeout (queue_of (view r)))"
proof -
  let ?s = "view r"
  have ks: "list_all (\<lambda>k. key_kind k = KList) ready_keys" by (simp add: ready_keys_def)
  note nj = next_job_ready [of priorities ?s, folded ready_keys_def]
  show ?thesis
  proof (cases "first_ready priorities (queue_of ?s)")
    case None
    with nj have "next_job ready_keys ?s = None" by simp
    note d = dequeueScript_empty [OF assms ks this, of "inflightKey w" "Milliseconds timeout"]
    show ?thesis using d assms None by (simp add: Dequeue_def Let_def evalsha_iso spec_dequeue_def)
  next
    case (Some pk)
    obtain p k where pk: "pk = (p, k)" by (cases pk)
    with nj Some have n: "next_job ready_keys ?s = Some (readyKey p, k)" by simp
    have "aq_ready (queue_of ?s) p \<noteq> []" "k = last (aq_ready (queue_of ?s) p)"
      using first_ready_Some Some pk by blast+
    then have k: "key_kind k = KJob"
      using last_job_kind [OF assms, of "readyKey p"] by (simp add: queue_of_sel)
    let ?s1 = "put_list (readyKey p) (butlast (list_at ?s (readyKey p))) ?s"
    let ?t = "now_ms ?s + Milliseconds timeout"
    have t1: "typed ?s1" using assms by (simp add: typed_rpop)
    have z: "zset_at ?s (inflightKey w) = zset_at ?s1 (inflightKey w)" by simp
    note d = dequeueScript_found [OF assms ks n, of "inflightKey w" "Milliseconds timeout"]
    have "typed (put_zset (inflightKey w) (zadd ?t k (zset_at ?s (inflightKey w))) ?s1)"
      unfolding z using t1 k by (intro typed_zadd) simp_all
    moreover have "queue_of (put_zset (inflightKey w) (zadd ?t k (zset_at ?s (inflightKey w))) ?s1) =
        aq_fly w ?t k (aq_pop p (queue_of ?s))"
      by (simp add: queue_put_zset queue_put_list aq_fly_def aq_pop_def queue_of_sel)
    ultimately show ?thesis
      using d Some pk get_reply_stored [OF assms k, of U]
      by (simp add: Dequeue_def Let_def evalsha_iso spec_dequeue_def decode_dequeued_def)
  qed
qed

lemma pipe_err_good:
  assumes "typed (view r)" "list_all good_cmd cs"
  shows "\<exists>r'. pipe_err R what cs r = (Ret (), r') \<and> view r' = run_doc cs (view r) \<and> typed (view r')"
  using pipe_good [OF assms] by (auto simp: pipe_err_def)

lemma Acknowledge_typed:
  assumes "typed (view r)"
  shows "\<exists>r'. Acknowledge R U u w r = (Ret (), r') \<and> typed (view r') \<and>
    queue_of (view r') = spec_ack U u w (queue_of (view r))"
proof -
  let ?k = "jobDataKey U u"
  have t: "typed (snd (redis_doc (DEL ?k) (view r)))" using assms by (intro typed_redis_doc) simp_all
  show ?thesis
    using pipe_err_good [OF assms, of "[DEL ?k, ZREM (inflightKey w) ?k]" "''acknowledge job: ''"]
      queue_cmds(3) [OF t] queue_cmds(6) [OF assms, of ?k]
    by (auto simp: Acknowledge_def good_cmd_def spec_ack_def simp del: redis_doc.simps)
qed

lemma Requeue_typed:
  assumes "typed (view r)" "job_encodable job"
  shows "\<exists>r'. Requeue R U job r = (Ret (), r') \<and> typed (view r') \<and>
    queue_of (view r') = spec_requeue U job (queue_of (view r))"
proof -
  let ?k = "jobDataKey U (job_ID job)" and ?d = "marshal_job U job"
  have t: "typed (snd (redis_doc (SET_EX ?k (Doc ?d) (7 * 24 * 3600)) (view r)))"
    using assms(1) by (intro typed_redis_doc) simp_all
  show ?thesis
    using pipe_err_good [OF assms(1), of "[SET_EX ?k (Doc ?d) (7 * 24 * 3600), LPUSH (readyKey (job_Priority job)) ?k]"
        "''requeue job: ''"]
      queue_cmds(1) [OF t] queue_cmds(5) [OF assms(1), of "7 * 24 * 3600" ?k]
    by (auto simp: Requeue_def Marshal_encodable [OF assms(2)] good_cmd_def spec_requeue_def Let_def simp del: redis_doc.simps)
qed

lemma Nack_dead:
  assumes "typed (view r)" "job_encodable job" "\<not> IsRetryable job"
  shows "\<exists>r'. Nack R U now job w msg r = (Ret (), dead_job job msg, r') \<and> typed (view r') \<and>
    queue_of (view r') = spec_bury U (dead_job job msg) w (queue_of (view r))"
proof -
  let ?k = "jobDataKey U (job_ID job)" and ?d = "marshal_job U (dead_job job msg)"
  let ?c1 = "SET_EX ?k (Doc ?d) (30 * 24 * 3600)" and ?c2 = "LPUSH dlqKey ?k"
  have t1: "typed (snd (redis_doc ?c1 (view r)))" using assms(1) by (intro typed_redis_doc) simp_all
  have t2: "typed (snd (redis_doc ?c2 (snd (redis_doc ?c1 (view r)))))" by (rule typed_redis_doc [OF t1]) simp
  have m: "Marshal_job U (dead_job job msg) = Ret ?d" using assms(2) by (simp add: Marshal_encodable)
  show ?thesis
    using pipe_err_good [OF assms(1), of "[?c1, ?c2, ZREM (inflightKey w) ?k]" "''move to dlq: ''"]
      queue_cmds(3) [OF t2] queue_cmds(2) [OF t1] queue_cmds(5) [OF assms(1), of "30 * 24 * 3600" ?k]
      m [unfolded dead_job_def] assms(3)
    by (auto simp: Nack_def Let_def good_cmd_def spec_bury_def dead_job_def simp del: redis_doc.simps)
qed

end

section \<open>Moving due jobs\<close>

lemma reply_texts_bulks [simp]: "reply_texts (bulks xs) = xs"
  by (induction xs) (simp_all add: bulks_def List.map_filter_simps)

lemma client_reply_bulks [simp]: "client_reply (bulks xs) = Inr (bulks xs)"
  by (simp add: bulks_def)

definition move_cmds :: "uuid_lib \<Rightarrow> aqueue \<Rightarrow> string \<Rightarrow> rcmd list" where
  "move_cmds U q k =
     (case stored U q k of
        Ret j \<Rightarrow> [LPUSH (readyKey (job_Priority j)) k, ZREM delayedQueueKey k]
      | _ \<Rightarrow> [ZREM delayedQueueKey k])"

lemma stored_cong: "aq_data q k = aq_data q' k \<Longrightarrow> stored U q k = stored U q' k"
  by (simp add: stored_def)

lemma spec_move1_data [simp]: "aq_data (spec_move1 U k q) = aq_data q"
  by (simp add: spec_move1_def aq_undelay_def aq_push_def split: res.splits)

lemma run_doc_move:
  assumes "typed s" "list_all (\<lambda>k. key_kind k = KJob) ks" "aq_data (queue_of s) = aq_data q"
  shows "queue_of (run_doc (concat (map (move_cmds U q) ks)) s) = fold (spec_move1 U) ks (queue_of s)"
  using assms
proof (induction ks arbitrary: s)
  case (Cons k ks)
  have st: "stored U q k = stored U (queue_of s) k" by (rule stored_cong) (simp add: Cons.prems(3))
  have c: "list_all cmd_fits (move_cmds U q k)"
    using Cons.prems(2) by (simp add: move_cmds_def split: res.splits)
  have t: "typed (run_doc (move_cmds U q k) s)"
    using Cons.prems(1) c by (rule typed_run_doc)
  have q: "queue_of (run_doc (move_cmds U q k) s) = spec_move1 U k (queue_of s)"
  proof (cases "stored U q k")
    case (Ret j)
    have "typed (snd (redis_doc (LPUSH (readyKey (job_Priority j)) k) s))"
      using Cons.prems(1,2) by (intro typed_redis_doc) simp_all
    from queue_cmds(4) [OF this] queue_cmds(1) [OF Cons.prems(1)] Ret st show ?thesis
      by (simp add: move_cmds_def spec_move1_def del: redis_doc.simps)
  qed (use queue_cmds(4) [OF Cons.prems(1)] st in \<open>simp_all add: move_cmds_def spec_move1_def del: redis_doc.simps\<close>)
  have "aq_data (queue_of (run_doc (move_cmds U q k) s)) = aq_data q" using q Cons.prems(3) by simp
  with Cons.IH [OF t] Cons.prems(2) q show ?case by simp
qed simp

lemma due_jobs:
  assumes "typed s" "k \<in> set (due now n (queue_of s))"
  shows "key_kind k = KJob"
proof -
  have "k \<in> members (zset_at s delayedQueueKey)"
    using assms(2) by (auto simp: due_def zrange_def Let_def members_def queue_of_def split: if_splits dest!: in_set_takeD)
  then show ?thesis by (intro member_jobs [OF assms(1), of delayedQueueKey]) simp_all
qed

context redis_isolated
begin

lemma rtt_cmd: "rtt R (exec R c) r = (client_reply (fst (redis_doc c (view r))), snd (exec R c r))"
  by (simp add: rtt_iso exec_reply)

lemma fetch_job_typed:
  assumes "typed (view r)" "key_kind k = KJob"
  shows "\<exists>r' x. fetch_job R U k r = (x, r') \<and> view r' = view r \<and>
    (case stored U (queue_of (view r)) k of Ret j \<Rightarrow> x = Ret j | _ \<Rightarrow> \<not> is_Ret x \<and> (\<forall>p. x \<noteq> Panic p))"
proof -
  note g = get_typed [OF assms(1) disjI1 [OF assms(2)]]
  have v: "view (snd (exec R (GET k) r)) = view r" by (simp only: exec_view g snd_conv)
  have st: "stored U (queue_of (view r)) k = unmarshal_reply U (get_reply (view r) k)"
    using get_reply_stored [OF assms] by simp
  have np: "unmarshal_reply U x \<noteq> Panic p" for x p
    by (auto simp: unmarshal_reply_def split: reply.splits bulk.splits)
  show ?thesis
  proof (cases "str_at (view r) k")
    case None
    then show ?thesis using v st by (simp add: fetch_job_def rtt_cmd g get_reply_def unmarshal_reply_def del: redis_doc.simps)
  next
    case (Some b)
    then show ?thesis using v st np
      by (auto simp: fetch_job_def rtt_cmd g get_reply_def simp del: redis_doc.simps split: res.splits)
  qed
qed

lemma move_loop_typed:
  assumes "typed (view r)" "list_all (\<lambda>k. key_kind k = KJob) ks"
  shows "\<exists>r'. move_loop R U ks moved cmds r =
      ((moved + int (length (filter (\<lambda>k. is_Ret (stored U (queue_of (view r)) k)) ks)),
        cmds @ concat (map (move_cmds U (queue_of (view r))) ks)), r') \<and> view r' = view r"
  using assms
proof (induction ks arbitrary: r moved cmds)
  case (Cons k ks)
  obtain x r1 where x: "fetch_job R U k r = (x, r1)" "view r1 = view r"
    "case stored U (queue_of (view r)) k of Ret j \<Rightarrow> x = Ret j | _ \<Rightarrow> \<not> is_Ret x \<and> (\<forall>p. x \<noteq> Panic p)"
    using fetch_job_typed [of r k U] Cons.prems by auto
  show ?case
  proof (cases "stored U (queue_of (view r)) k")
    case (Ret j)
    with x Cons.IH [of r1 "moved + 1" "cmds @ move_cmds U (queue_of (view r)) k"] Cons.prems show ?thesis
      by (simp add: move_cmds_def add.assoc)
  next
    case (Err e)
    with x obtain e' where "x = Err e'" by (cases x) auto
    with x Err Cons.IH [of r1 moved "cmds @ move_cmds U (queue_of (view r)) k"] Cons.prems show ?thesis
      by (simp add: move_cmds_def)
  next
    case (Panic p)
    with x obtain e' where "x = Err e'" by (cases x) auto
    with x Panic Cons.IH [of r1 moved "cmds @ move_cmds U (queue_of (view r)) k"] Cons.prems show ?thesis
      by (simp add: move_cmds_def)
  qed
qed simp

lemma MoveDelayed_typed:
  assumes "typed (view r)"
  shows "\<exists>r'. MoveDelayed R U now n r = ((fst (spec_move U now n (queue_of (view r))), None), r') \<and>
    typed (view r') \<and> queue_of (view r') = snd (spec_move U now n (queue_of (view r)))"
proof -
  let ?q = "queue_of (view r)"
  define c where "c = ZRANGEBYSCORE delayedQueueKey 0 (UnixMilli now) (if n = 0 then None else Some n)"
  have d: "redis_doc c (view r) = (bulks (due now n ?q), view r)"
    using assms by (simp add: c_def on_zset_typed due_def queue_of_sel)
  then have v: "view (snd (exec R c r)) = view r" by (simp add: exec_view)
  show ?thesis
  proof (cases "due now n ?q = []")
    case True
    then show ?thesis
      using d v assms by (simp add: MoveDelayed_def c_def [symmetric] rtt_cmd spec_move_def)
  next
    case False
    let ?r1 = "snd (exec R c r)"
    have ks: "list_all (\<lambda>k. key_kind k = KJob) (due now n ?q)"
      using due_jobs [OF assms] by (auto simp: list_all_iff)
    obtain r2 where r2: "move_loop R U (due now n ?q) 0 [] ?r1 =
      ((int (length (filter (\<lambda>k. is_Ret (stored U ?q k)) (due now n ?q))),
        concat (map (move_cmds U ?q) (due now n ?q))), r2)" "view r2 = view r"
      using move_loop_typed [of ?r1 "due now n ?q" U 0 "[]"] v assms ks by auto
    have "list_all good_cmd (concat (map (move_cmds U ?q) (due now n ?q)))"
      using ks by (auto simp: list_all_iff move_cmds_def good_cmd_def split: res.splits)
    then obtain xs r3 where "pipe R (concat (map (move_cmds U ?q) (due now n ?q))) r2 = (Inr xs, r3)"
      "view r3 = run_doc (concat (map (move_cmds U ?q) (due now n ?q))) (view r)" "typed (view r3)"
      using pipe_good [of r2 "concat (map (move_cmds U ?q) (due now n ?q))"] r2(2) assms by auto
    then show ?thesis
      using d False r2(1) run_doc_move [OF assms ks refl, of U]
      by (simp add: MoveDelayed_def c_def [symmetric] rtt_cmd spec_move_def Let_def)
  qed
qed

end

sublocale redis_isolated \<subseteq> rq: job_queue "RedisQueue R U" U "\<lambda>r. typed (view r)" "\<lambda>r. queue_of (view r)"
  "\<lambda>r. now_ms (view r)" for U
  by unfold_locales
    (simp_all add: RedisQueue_def Enqueue_typed Dequeue_typed Acknowledge_typed Requeue_typed Nack_dead MoveDelayed_typed)

end
