(* ===== verification/Queue_Facts.thy ===== *)
theory Queue_Facts
  imports Redis_Queue Redis_Lock
begin

text \<open>
  What the queue promises its clients: jobs come out by priority and in order of submission, the
  key space stays well formed and no job disappears under concurrent clients and failing
  connections, and what happens to a job whose execution failed.
\<close>

section \<open>Order of delivery\<close>

definition run_enqueues :: "'r Queue \<Rightarrow> go_time \<Rightarrow> Job list \<Rightarrow> 'r \<Rightarrow> 'r" where
  "run_enqueues Q now jobs r = fold (\<lambda>j r. snd (q_Enqueue Q now j r)) jobs r"

text \<open>What the calls of \<open>Dequeue\<close> by these workers return, one after the other.\<close>

fun run_dequeues :: "'r Queue \<Rightarrow> (string \<times> duration) list \<Rightarrow> 'r \<Rightarrow> Job res list" where
  "run_dequeues Q [] r = []"
| "run_dequeues Q ((w, timeout) # ws) r =
     fst (q_Dequeue Q w timeout r) # run_dequeues Q ws (snd (q_Dequeue Q w timeout r))"

definition submittable :: "uuid_lib \<Rightarrow> go_time \<Rightarrow> Job \<Rightarrow> bool" where
  "submittable U now j \<longleftrightarrow> job_encodable j \<and> job_int64 j \<and> 0 \<le> job_Priority j \<and> job_Priority j \<le> 9 \<and>
     UnixMilli (job_ScheduledAt j) \<le> UnixMilli now"

abbreviation job_key :: "uuid_lib \<Rightarrow> Job \<Rightarrow> string" where
  "job_key U j \<equiv> jobDataKey U (job_ID j)"

lemma job_key_inject: "uuid_ok U \<Longrightarrow> jobDataKey U u = jobDataKey U v \<longleftrightarrow> u = v"
  by (simp add: jobDataKey_def uuid_String_inject)

lemma stored_marshal:
  "uuid_ok U \<Longrightarrow> job_int64 j \<Longrightarrow> aq_data q k = Some (marshal_job U j) \<Longrightarrow> stored U q k = Ret (from_json j)"
  by (simp add: stored_def unmarshal_reply_def unmarshal_marshal)

text \<open>The queue holds exactly the jobs \<open>L\<close>, to be delivered in this order.\<close>

definition holds :: "uuid_lib \<Rightarrow> Job list \<Rightarrow> aqueue \<Rightarrow> bool" where
  "holds U L q \<longleftrightarrow>
     (\<forall>p. aq_ready q p = rev (map (job_key U) (filter (\<lambda>j. job_Priority j = p) L))) \<and>
     (\<forall>j \<in> set L. aq_data q (job_key U j) = Some (marshal_job U j))"

lemma holds_enqueue:
  assumes "holds U L q" "submittable U now j" "\<And>j'. j' \<in> set L \<Longrightarrow> job_key U j' \<noteq> job_key U j"
  shows "holds U (L @ [j]) (spec_enqueue U now j q)"
  using assms by (auto simp: holds_def spec_enqueue_def Let_def aq_push_def aq_store_def submittable_def)

lemma holds_enqueues:
  assumes "uuid_ok U" "list_all (submittable U now) jobs" "distinct (map job_ID jobs)" "\<forall>p. aq_ready q p = []"
  shows "holds U jobs (fold (spec_enqueue U now) jobs q)"
  using assms(2,3)
proof (induction jobs rule: rev_induct)
  case Nil
  then show ?case using assms(4) by (simp add: holds_def)
next
  case (snoc j jobs)
  then have IH: "holds U jobs (fold (spec_enqueue U now) jobs q)" by simp
  have "job_key U j' \<noteq> job_key U j" if "j' \<in> set jobs" for j'
    using that snoc.prems(2) job_key_inject [OF assms(1)] by (auto simp: rev_image_eqI)
  with holds_enqueue [OF IH, of now j] snoc.prems show ?case by simp
qed

lemma holds_sort: "holds U L q \<Longrightarrow> holds U (sort_key job_Priority L) q"
  by (simp add: holds_def sort_key_stable)

lemma first_ready_least:
  assumes "p \<in> set ps" "sorted ps" "distinct ps" "aq_ready q p \<noteq> []" "\<And>p'. p' < p \<Longrightarrow> aq_ready q p' = []"
  shows "first_ready ps q = Some (p, last (aq_ready q p))"
  using assms
proof (induction ps)
  case (Cons p' ps)
  then show ?case by (cases "p' = p") (auto dest: le_neq_trans)
qed simp

lemma holds_dequeue_eq:
  assumes "uuid_ok U" "holds U (j # L) q" "sorted (map job_Priority (j # L))"
    and "submittable U now j"
  shows "spec_dequeue U t w timeout q =
    (Ret (from_json j), aq_fly w (t + Milliseconds timeout) (job_key U j) (aq_pop (job_Priority j) q))"
proof -
  have "first_ready priorities q = Some (job_Priority j, last (aq_ready q (job_Priority j)))"
  proof (rule first_ready_least)
    have "0 \<le> job_Priority j" "job_Priority j \<le> 9" using assms(4) by (simp_all add: submittable_def)
    then show "job_Priority j \<in> set priorities" by simp presburger
    show "aq_ready q (job_Priority j) \<noteq> []" using assms(2) by (simp add: holds_def)
    show "aq_ready q p' = []" if "p' < job_Priority j" for p'
      using assms(2,3) that by (auto simp: holds_def filter_empty_conv)
  qed simp_all
  then have f: "first_ready priorities q = Some (job_Priority j, job_key U j)"
    using assms(2) by (simp add: holds_def)
  have "stored U q (job_key U j) = Ret (from_json j)"
    using assms(1,2,4) by (intro stored_marshal) (simp_all add: holds_def submittable_def)
  then show ?thesis by (simp add: spec_dequeue_def f del: first_ready.simps)
qed

lemma holds_dequeue:
  assumes "uuid_ok U" "holds U (j # L) q" "sorted (map job_Priority (j # L))"
    and "submittable U now j"
  shows "fst (spec_dequeue U t w timeout q) = Ret (from_json j)"
    and "holds U L (snd (spec_dequeue U t w timeout q))"
  using assms(2) by (auto simp: holds_dequeue_eq [OF assms] holds_def aq_fly_def aq_pop_def butlast_append)

context job_queue
begin

lemma enqueues_law:
  assumes "ok r" "list_all job_encodable jobs"
  shows "ok (run_enqueues Q now jobs r) \<and> absq (run_enqueues Q now jobs r) = fold (spec_enqueue U now) jobs (absq r)"
  using assms
proof (induction jobs arbitrary: r)
  case (Cons j jobs)
  obtain r' where "q_Enqueue Q now j r = (Ret (), r')" "ok r'" "absq r' = spec_enqueue U now j (absq r)"
    using enqueue_law [of r j now] Cons.prems by auto
  with Cons show ?case by (simp add: run_enqueues_def)
qed (simp add: run_enqueues_def)

lemma dequeues_law:
  assumes "uuid_ok U" "ok r" "holds U L (absq r)" "sorted (map job_Priority L)" "list_all (submittable U now) L"
    and "length ws = length L"
  shows "run_dequeues Q ws r = map (\<lambda>j. Ret (from_json j)) L"
  using assms
proof (induction L arbitrary: r ws)
  case (Cons j L)
  obtain w timeout ws' where ws: "ws = (w, timeout) # ws'" "length ws' = length L"
    using Cons.prems(6) by (auto simp: length_Suc_conv)
  obtain r' where r': "q_Dequeue Q w timeout r = (fst (spec_dequeue U (clock r) w timeout (absq r)), r')" "ok r'"
    "absq r' = snd (spec_dequeue U (clock r) w timeout (absq r))"
    using dequeue_law [OF Cons.prems(2)] by blast
  note d = holds_dequeue [OF Cons.prems(1,3,4), of now "clock r" w timeout]
  have "run_dequeues Q ws' r' = map (\<lambda>j. Ret (from_json j)) L"
    using Cons.prems d(2) r' ws(2) by (intro Cons.IH) simp_all
  with d(1) r'(1) Cons.prems(5) ws(1) show ?case by simp
qed simp

lemma delivery_order:
  assumes "uuid_ok U" "ok r" "\<forall>p. aq_ready (absq r) p = []"
    and "list_all (submittable U now) jobs" "distinct (map job_ID jobs)" "length ws = length jobs"
  shows "run_dequeues Q ws (run_enqueues Q now jobs r) =
    map (\<lambda>j. Ret (from_json j)) (sort_key job_Priority jobs)"
proof -
  have "list_all job_encodable jobs" using assms(4) by (auto simp: list_all_iff submittable_def)
  note e = enqueues_law [OF assms(2) this, of now]
  have "holds U (sort_key job_Priority jobs) (absq (run_enqueues Q now jobs r))"
    using holds_enqueues [OF assms(1,4,5,3)] e holds_sort by simp
  then show ?thesis
    using dequeues_law [OF assms(1), of "run_enqueues Q now jobs r" "sort_key job_Priority jobs" now] e assms(4)
      assms(6) by (simp add: list_all_iff)
qed

end

section \<open>Well-formedness under concurrency and failures\<close>

definition keeps_typed :: "(rstate \<Rightarrow> rstate \<Rightarrow> bool) \<Rightarrow> bool" where
  "keeps_typed env \<longleftrightarrow> (\<forall>s s'. env s s' \<longrightarrow> typed s \<longrightarrow> typed s')"

context redis_commands
begin

lemma dequeueScript_state:
  assumes "typed (view r)"
  shows "let s = view r; s' = view (snd (dequeueScript R ready_keys (inflightKey w) t r)) in
    typed s' \<and> queue_of s' =
      (case first_ready priorities (queue_of s) of
         None \<Rightarrow> queue_of s
       | Some (p, k) \<Rightarrow> aq_fly w (now_ms s + t) k (aq_pop p (queue_of s)))"
proof -
  let ?s = "view r"
  have ks: "list_all (\<lambda>k. key_kind k = KList) ready_keys" by (simp add: ready_keys_def)
  note nj = next_job_ready [of priorities ?s, folded ready_keys_def]
  show ?thesis
  proof (cases "first_ready priorities (queue_of ?s)")
    case None
    with nj have "next_job ready_keys ?s = None" by simp
    from dequeueScript_empty [OF assms ks this, of "inflightKey w" t] assms None show ?thesis
      by (simp add: Let_def del: first_ready.simps)
  next
    case (Some pk)
    obtain p k where pk: "pk = (p, k)" by (cases pk)
    with nj Some have n: "next_job ready_keys ?s = Some (readyKey p, k)" by simp
    have "aq_ready (queue_of ?s) p \<noteq> []" "k = last (aq_ready (queue_of ?s) p)"
      using first_ready_Some Some pk by blast+
    then have k: "key_kind k = KJob"
      using last_job_kind [OF assms, of "readyKey p"] by (simp add: queue_of_sel)
    let ?s1 = "put_list (readyKey p) (butlast (list_at ?s (readyKey p))) ?s"
    have t1: "typed ?s1" using assms by (simp add: typed_rpop)
    have z: "zset_at ?s (inflightKey w) = zset_at ?s1 (inflightKey w)" by simp
    note d = dequeueScript_found [OF assms ks n, of "inflightKey w" t]
    have "typed (put_zset (inflightKey w) (zadd (now_ms ?s + t) k (zset_at ?s (inflightKey w))) ?s1)"
      unfolding z using t1 k by (intro typed_zadd) simp_all
    moreover have "queue_of (put_zset (inflightKey w) (zadd (now_ms ?s + t) k (zset_at ?s (inflightKey w))) ?s1) =
        aq_fly w (now_ms ?s + t) k (aq_pop p (queue_of ?s))"
      by (simp add: queue_put_zset queue_put_list aq_fly_def aq_pop_def queue_of_sel)
    ultimately show ?thesis using d Some pk by (simp add: Let_def del: first_ready.simps)
  qed
qed

end

lemma jobs_of_texts:
  assumes "typed s" "key_kind k = KZset" "client_reply (fst (redis_doc (ZRANGEBYSCORE k mn mx lim) s)) = Inr x"
  shows "list_all (\<lambda>m. key_kind m = KJob) (reply_texts x)"
proof -
  have "reply_texts x = zrange mn mx lim (zset_at s k)"
    using assms(3) on_zset_typed [OF assms(1,2), of "\<lambda>z. (bulks (zrange mn mx lim z), s)"] by auto
  moreover have "m \<in> members (zset_at s k)" if "m \<in> set (zrange mn mx lim (zset_at s k))" for m
    using that by (auto simp: zrange_def Let_def members_def split: if_splits option.splits dest!: in_set_takeD)
  ultimately show ?thesis using member_jobs [OF assms(1,2)] by (auto simp: list_all_iff)
qed

context redis_server
begin

lemma cmd_typed:
  assumes "keeps_typed env" "typed (view r)" "cmd_fits c"
  shows "typed (view (snd (rtt R (exec R c) r)))"
  using call_inv(1) [of typed "exec R c" r] assms typed_redis_doc [OF _ assms(3)]
  by (simp add: keeps_typed_def exec_view)

lemma pipe_typed:
  assumes "keeps_typed env" "typed (view r)" "list_all cmd_fits cs"
  shows "typed (view (snd (pipe R cs r)))"
  using pipe_inv [of typed cs r] assms typed_redis_doc by (simp add: keeps_typed_def list_all_iff)

lemma Enqueue_keeps:
  assumes "\<forall>s s'. env s s' \<longrightarrow> I s \<longrightarrow> I s'" and "I (view r)"
    and "\<And>r d. I (view r) \<Longrightarrow> I (view (snd (enqueueScript R (job_key U job) (readyKey (job_Priority job))
      delayedQueueKey (Doc d) (UnixMilli (job_ScheduledAt job)) (UnixMilli now) r)))"
  shows "I (view (snd (Enqueue R U now job r)))"
proof (cases "Marshal_job U job")
  case (Ret d)
  define f where "f = enqueueScript R (job_key U job) (readyKey (job_Priority job))
      delayedQueueKey (Doc d) (UnixMilli (job_ScheduledAt job)) (UnixMilli now)"
  have f: "I (view r) \<Longrightarrow> I (view (snd (f r)))" for r unfolding f_def by (rule assms(3))
  have e: "I (view (snd (evalsha R f r)))" by (rule call_inv(2) [OF assms(1) f assms(2)])
  have "I (view (snd (rtt R f (snd (evalsha R f r)))))"
    by (rule call_inv(1) [OF assms(1) f e])
  with e show ?thesis using Ret by (auto simp: Enqueue_def Let_def f_def split: sum.splits prod.splits)
qed (use assms(2) in \<open>simp_all add: Enqueue_def\<close>)

lemma Dequeue_keeps:
  assumes "\<forall>s s'. env s s' \<longrightarrow> I s \<longrightarrow> I s'" and "I (view r)"
    and "\<And>r. I (view r) \<Longrightarrow> I (view (snd (dequeueScript R ready_keys (inflightKey w) (Milliseconds timeout) r)))"
  shows "I (view (snd (Dequeue R U w timeout r)))"
proof -
  define f where "f = dequeueScript R ready_keys (inflightKey w) (Milliseconds timeout)"
  have f: "I (view r) \<Longrightarrow> I (view (snd (f r)))" for r unfolding f_def by (rule assms(3))
  have e: "I (view (snd (evalsha R f r)))" by (rule call_inv(2) [OF assms(1) f assms(2)])
  have "I (view (snd (rtt R f (snd (evalsha R f r)))))"
    by (rule call_inv(1) [OF assms(1) f e])
  with e show ?thesis by (auto simp: Dequeue_def Let_def f_def split: sum.splits prod.splits)
qed

lemma pipe_err_state: "snd (pipe_err R what cs r) = snd (pipe R cs r)"
  by (auto simp: pipe_err_def split: sum.splits prod.splits)

lemma Requeue_state:
  "snd (Requeue R U job r) = r \<or> (\<exists>d. snd (Requeue R U job r) =
     snd (pipe R [SET_EX (job_key U job) (Doc d) (7 * 24 * 3600), LPUSH (readyKey (job_Priority job)) (job_key U job)] r))"
  by (cases "Marshal_job U job") (auto simp: Requeue_def pipe_err_state)

lemma Nack_state:
  "snd (snd (Nack R U now job w msg r)) = r \<or>
   (\<exists>job'. IsRetryable job \<and> job_ID job' = job_ID job \<and> snd (snd (Nack R U now job w msg r)) = snd (Requeue R U job' r)) \<or>
   (\<exists>d. \<not> IsRetryable job \<and> snd (snd (Nack R U now job w msg r)) =
     snd (pipe R [SET_EX (job_key U job) (Doc d) (30 * 24 * 3600), LPUSH dlqKey (job_key U job),
       ZREM (inflightKey w) (job_key U job)] r))"
proof (cases "IsRetryable job")
  case True
  let ?j = "job\<lparr>job_RetryCount := go_int (job_RetryCount job + 1), job_Status := JobStatusPending, job_ErrorMessage := msg\<rparr>"
  show ?thesis
  proof (cases "NextRetryTime U now (5 * second) ?j")
    case (Ret t)
    then have "snd (snd (Nack R U now job w msg r)) = snd (Requeue R U (?j\<lparr>job_ScheduledAt := t\<rparr>) r)"
      using True by (simp add: Nack_def Let_def split: prod.splits)
    then show ?thesis using True by (intro disjI2 disjI1 exI [of _ "?j\<lparr>job_ScheduledAt := t\<rparr>"]) simp
  qed (simp_all add: Nack_def Let_def True)
next
  case False
  then show ?thesis
    by (cases "Marshal_job U (job\<lparr>job_Status := JobStatusDeadLetter, job_ErrorMessage := msg\<rparr>)")
      (auto simp: Nack_def Let_def pipe_err_state case_prod_beta)
qed

lemma ops_typed:
  assumes "keeps_typed env" "typed (view r)"
  shows "typed (view (snd (Enqueue R U now job r)))" "typed (view (snd (Dequeue R U w timeout r)))"
    "typed (view (snd (Acknowledge R U u w r)))" "typed (view (snd (Requeue R U job r)))"
    "typed (view (snd (snd (Nack R U now job w msg r))))"
    "typed (view (snd (GetDLQ R U limit offset r)))" "typed (view (snd (QueueDepth R r)))"
proof -
  have st: "\<forall>s s'. env s s' \<longrightarrow> typed s \<longrightarrow> typed s'" using assms(1) by (simp add: keeps_typed_def)
  show "typed (view (snd (Enqueue R U now job r)))"
    by (rule Enqueue_keeps [OF st assms(2)]) (simp add: enqueueScript_typed(2))
  show "typed (view (snd (Dequeue R U w timeout r)))"
    by (rule Dequeue_keeps [OF st assms(2)]) (use dequeueScript_state in \<open>simp add: Let_def\<close>)
  show "typed (view (snd (Acknowledge R U u w r)))"
    unfolding Acknowledge_def pipe_err_state by (rule pipe_typed [OF assms]) simp
  have rq: "typed (view (snd (Requeue R U job r)))" for job
    using Requeue_state [of U job r] pipe_typed [OF assms] assms(2) by auto
  then show "typed (view (snd (Requeue R U job r)))" .
  show "typed (view (snd (snd (Nack R U now job w msg r))))"
    using Nack_state [of U now job w msg r] pipe_typed [OF assms] rq assms(2) by auto
  have "typed (view (snd (rtt R (exec R (LRANGE dlqKey offset (offset + limit - 1))) r)))"
    by (rule cmd_typed [OF assms]) simp
  then have "typed (view (snd (pipe R (map GET ks) (snd (rtt R (exec R (LRANGE dlqKey offset (offset + limit - 1))) r)))))" for ks
    by (rule pipe_typed [OF assms(1)]) (simp add: list_all_iff)
  with \<open>typed (view (snd (rtt R (exec R (LRANGE dlqKey offset (offset + limit - 1))) r)))\<close>
  show "typed (view (snd (GetDLQ R U limit offset r)))"
    by (auto simp: GetDLQ_def split: sum.splits prod.splits) (metis snd_conv)+
  show "typed (view (snd (QueueDepth R r)))"
    using pipe_typed [OF assms, of "map LLEN ready_keys"]
    by (auto simp: QueueDepth_def ready_keys_def split: sum.splits prod.splits)
qed

end

lemma HasPrefix_inflight: "HasPrefix k inflightPrefix \<Longrightarrow> \<exists>w. k = inflightKey w"
  by (metis HasPrefix_def append_take_drop_id inflightKey_def)

context redis_server
begin

lemma fetch_job_keeps:
  assumes "keeps_typed env" "typed (view r)"
  shows "typed (view (snd (fetch_job R U k r)))"
  using cmd_typed [OF assms, of "GET k"] by (auto simp: fetch_job_def split: sum.splits prod.splits)

lemma move_loop_keeps:
  assumes "keeps_typed env" "typed (view r)" "list_all (\<lambda>k. key_kind k = KJob) ks" "list_all cmd_fits cmds"
  shows "typed (view (snd (move_loop R U ks moved cmds r))) \<and> list_all cmd_fits (snd (fst (move_loop R U ks moved cmds r)))"
  using assms(2-)
proof (induction ks arbitrary: moved cmds r)
  case (Cons k ks)
  obtain x r1 where x: "fetch_job R U k r = (x, r1)" by (cases "fetch_job R U k r")
  then have "typed (view r1)" using fetch_job_keeps [OF assms(1) Cons.prems(1), of U k] by simp
  with x Cons show ?case by (cases x) simp_all
qed simp

lemma zrange_keeps:
  assumes "keeps_typed env" "typed (view r)" "key_kind k = KZset"
    and "rtt R (exec R (ZRANGEBYSCORE k mn mx lim)) r = (Inr x, r')"
  shows "typed (view r') \<and> list_all (\<lambda>m. key_kind m = KJob) (reply_texts x)"
proof -
  let ?c = "ZRANGEBYSCORE k mn mx lim"
  have "typed (view (snd (rtt R (exec R ?c) r)))" by (rule cmd_typed [OF assms(1,2)]) simp
  then have t: "typed (view r')" using assms(4) by simp
  obtain r0 where r0: "lost view env (exec R ?c) r r0" "Inr x = client_reply (fst (exec R ?c r0))"
    using rtt_law [of "exec R ?c" r] assms(4) by auto
  moreover have "typed (view r0)"
    by (rule lost_inv [OF r0(1), where I = typed])
      (use assms(1,2) typed_redis_doc [of _ ?c] in \<open>auto simp: keeps_typed_def exec_view simp del: redis_doc.simps\<close>)
  ultimately show ?thesis
    using jobs_of_texts [OF _ assms(3), of "view r0" mn mx lim x] t by (simp add: exec_reply del: redis_doc.simps)
qed

lemma MoveDelayed_keeps:
  assumes "keeps_typed env" "typed (view r)"
  shows "typed (view (snd (MoveDelayed R U now n r)))"
proof -
  define c where "c = ZRANGEBYSCORE delayedQueueKey 0 (UnixMilli now) (if n = 0 then None else Some n)"
  obtain y r1 where y: "rtt R (exec R c) r = (y, r1)" by (cases "rtt R (exec R c) r")
  have t1: "typed (view r1)" using cmd_typed [OF assms, of c] y by (simp add: c_def)
  show ?thesis
  proof (cases y)
    case (Inr x)
    have ks: "list_all (\<lambda>m. key_kind m = KJob) (reply_texts x)"
      using zrange_keeps [OF assms, of delayedQueueKey] y Inr unfolding c_def by auto
    obtain m cmds r2 where m: "move_loop R U (reply_texts x) 0 [] r1 = ((m, cmds), r2)"
      by (metis surj_pair)
    then have "typed (view r2)" "list_all cmd_fits cmds"
      using move_loop_keeps [OF assms(1) t1 ks, of "[]" U 0] by simp_all
    then have "typed (view (snd (pipe R cmds r2)))" by (rule pipe_typed [OF assms(1)])
    with m y Inr t1 show ?thesis
      by (auto simp: MoveDelayed_def c_def [symmetric] split: sum.splits prod.splits)
  qed (use y t1 in \<open>simp add: MoveDelayed_def c_def [symmetric]\<close>)
qed

lemma reclaim_entries_keeps:
  assumes "keeps_typed env" "typed (view r)" "key_kind infl = KZset"
  shows "typed (view (snd (reclaim_entries R U now infl ks n r)))"
  using assms(2)
proof (induction ks arbitrary: n r)
  case (Cons k ks)
  have z: "typed (view (fire R (ZREM infl k) r))" if "typed (view r)" for r
    unfolding fire_def using that assms(3) by (intro cmd_typed [OF assms(1)]) simp_all
  obtain x r1 where x: "fetch_job R U k r = (x, r1)" by (cases "fetch_job R U k r")
  then have t1: "typed (view r1)" using fetch_job_keeps [OF assms(1) Cons.prems, of U k] by simp
  show ?case
  proof (cases x)
    case (Ret job)
    show ?thesis
    proof (cases "orphan U (now k) job")
      case (Ret j)
      obtain y r2 where y: "Requeue R U j r1 = (y, r2)" by (cases "Requeue R U j r1")
      then have "typed (view r2)" using ops_typed(4) [OF assms(1) t1, of U j] by simp
      with x \<open>x = Ret job\<close> Ret y show ?thesis by (cases y) (simp_all add: Cons.IH z)
    qed (simp_all add: x \<open>x = Ret job\<close> t1)
  qed (simp_all add: x Cons.IH z t1)
qed simp

lemma reclaim_sets_keeps:
  assumes "keeps_typed env" "typed (view r)" "list_all (\<lambda>k. key_kind k = KZset) ks"
  shows "typed (view (snd (reclaim_sets R U now maxAge ks n r)))"
  using assms(2,3)
proof (induction ks arbitrary: n r)
  case (Cons k ks)
  let ?c = "ZRANGEBYSCORE k 0 (UnixMilli (time_Add (now k) (- maxAge))) None"
  obtain y r1 where y: "rtt R (exec R ?c) r = (y, r1)" by (cases "rtt R (exec R ?c) r")
  have t1: "typed (view r1)" using cmd_typed [OF assms(1) Cons.prems(1), of ?c] y by simp
  show ?case
  proof (cases y)
    case (Inr x)
    obtain z r2 where z: "reclaim_entries R U now k (reply_texts x) n r1 = (z, r2)"
      by (cases "reclaim_entries R U now k (reply_texts x) n r1")
    then have t2: "typed (view r2)"
      using reclaim_entries_keeps [OF assms(1) t1, of k U now "reply_texts x" n] Cons.prems(2) by simp
    obtain m r3 where m: "zcard_or_zero R k r2 = (m, r3)" by (cases "zcard_or_zero R k r2")
    have t3: "typed (view r3)"
      using cmd_typed [OF assms(1) t2, of "ZCARD k"] m by (auto simp: zcard_or_zero_def split: sum.splits prod.splits)
    have "typed (view (fire R (DEL k) r3))" unfolding fire_def by (rule cmd_typed [OF assms(1) t3]) simp
    with y Inr z m t2 t3 Cons show ?thesis by (cases z) simp_all
  qed (use y t1 Cons in simp)
qed simp

lemma ReclaimOrphaned_keeps:
  assumes "keeps_typed env" "typed (view r)"
  shows "typed (view (snd (ReclaimOrphaned R U now maxAge r)))"
proof -
  obtain ks e r1 where s: "scan R inflightPrefix r = ((ks, e), r1)" by (metis surj_pair)
  have "typed (view r1)" using scan_law [of r inflightPrefix] s assms by (auto simp: keeps_typed_def)
  moreover have "list_all (\<lambda>k. key_kind k = KZset) ks"
    using scan_match [of _ inflightPrefix r] s HasPrefix_inflight by (fastforce simp: list_all_iff)
  ultimately have "typed (view (snd (reclaim_sets R U now maxAge ks 0 r1)))"
    by (rule reclaim_sets_keeps [OF assms(1)])
  with s show ?thesis by (auto simp: ReclaimOrphaned_def split: prod.splits res.splits)
qed

end

section \<open>No job is lost\<close>

text \<open>A key the queue still knows: waiting, delayed, in flight, or a dead letter.\<close>

definition tracked :: "string \<Rightarrow> aqueue \<Rightarrow> bool" where
  "tracked k q \<longleftrightarrow> (\<exists>p. k \<in> set (aq_ready q p)) \<or> k \<in> members (aq_delayed q) \<or>
     (\<exists>w. k \<in> members (aq_inflight q w)) \<or> k \<in> set (aq_dlq q)"

lemma tracked_grow:
  "tracked k q \<Longrightarrow> tracked k (aq_store m d q)" "tracked k q \<Longrightarrow> tracked k (aq_push p m q)"
  "tracked k q \<Longrightarrow> tracked k (aq_delay t m q)" "tracked k q \<Longrightarrow> tracked k (aq_bury m q)"
  "tracked k q \<Longrightarrow> tracked k (aq_fly w t m q)"
  by (auto simp: tracked_def aq_defs split: if_splits)

lemma tracked_new:
  "tracked m (aq_push p m q)" "tracked m (aq_delay t m q)" "tracked m (aq_bury m q)" "tracked m (aq_fly w t m q)"
  by (auto simp: tracked_def aq_defs intro: exI [of _ p] exI [of _ w])

lemma tracked_land: "tracked k q \<Longrightarrow> k \<noteq> m \<Longrightarrow> tracked k (aq_land w m q)"
  by (auto simp: tracked_def aq_defs)

lemma tracked_land_dlq: "k \<in> set (aq_dlq q) \<Longrightarrow> tracked k (aq_land w m q)"
  by (auto simp: tracked_def aq_defs)

lemma tracked_dequeue:
  assumes "tracked k q" "aq_ready q p \<noteq> []"
  shows "tracked k (aq_fly w t (last (aq_ready q p)) (aq_pop p q))"
proof (cases "k = last (aq_ready q p)")
  case True
  then show ?thesis by (simp add: tracked_new)
next
  case False
  then have "k \<in> set (aq_ready q p) \<Longrightarrow> k \<in> set (butlast (aq_ready q p))"
    using assms(2) by (metis append_butlast_last_id rotate1.simps(2) set_ConsD set_rotate1)
  then have "\<exists>p'. k \<in> set (aq_ready q p') \<Longrightarrow> \<exists>p'. k \<in> set (aq_ready (aq_pop p q) p')"
    by (simp add: aq_pop_def) metis
  moreover have "aq_delayed (aq_pop p q) = aq_delayed q" "aq_inflight (aq_pop p q) = aq_inflight q"
    "aq_dlq (aq_pop p q) = aq_dlq q"
    by (simp_all add: aq_pop_def)
  ultimately have "tracked k (aq_pop p q)" using assms(1) unfolding tracked_def by presburger
  then show ?thesis by (rule tracked_grow)
qed

text \<open>Other clients leave the job \<open>k\<close> where it is (and the key space well formed).\<close>

definition leaves_job :: "string \<Rightarrow> (rstate \<Rightarrow> rstate \<Rightarrow> bool) \<Rightarrow> bool" where
  "leaves_job k env \<longleftrightarrow> (\<forall>s s'. env s s' \<longrightarrow> typed s \<longrightarrow> typed s' \<and>
     (\<forall>p. k \<in> set (aq_ready (queue_of s) p) \<longrightarrow> k \<in> set (aq_ready (queue_of s') p)) \<and>
     (k \<in> members (aq_delayed (queue_of s)) \<longrightarrow> k \<in> members (aq_delayed (queue_of s'))) \<and>
     (\<forall>w. k \<in> members (aq_inflight (queue_of s) w) \<longrightarrow> k \<in> members (aq_inflight (queue_of s') w)) \<and>
     (k \<in> set (aq_dlq (queue_of s)) \<longrightarrow> k \<in> set (aq_dlq (queue_of s'))))"

definition safe_at :: "string \<Rightarrow> rstate \<Rightarrow> bool" where
  "safe_at k s \<longleftrightarrow> typed s \<and> tracked k (queue_of s)"

lemma leaves_safe: "leaves_job k env \<Longrightarrow> \<forall>s s'. env s s' \<longrightarrow> safe_at k s \<longrightarrow> safe_at k s'"
  unfolding leaves_job_def safe_at_def tracked_def by meson

lemma leaves_dlq:
  "leaves_job k env \<Longrightarrow> \<forall>s s'. env s s' \<longrightarrow> typed s \<and> k \<in> set (aq_dlq (queue_of s)) \<longrightarrow>
     typed s' \<and> k \<in> set (aq_dlq (queue_of s'))"
  unfolding leaves_job_def by meson

context redis_server
begin

lemma safe_store_push:
  assumes "leaves_job k env" "safe_at k (view r)" "key_kind m = KJob" "0 < t"
  shows "safe_at k (view (snd (pipe R [SET_EX m (Doc d) t, LPUSH (readyKey p) m] r)))"
proof (rule pipe_inv [where I = "safe_at k"])
  show "\<forall>s s'. env s s' \<longrightarrow> safe_at k s \<longrightarrow> safe_at k s'" by (rule leaves_safe [OF assms(1)])
  have "typed (snd (redis_doc (SET_EX m (Doc d) t) s))" "typed (snd (redis_doc (LPUSH (readyKey p) m) s))"
    if "typed s" for s
    using typed_redis_doc [OF that] assms(3) by (simp_all del: redis_doc.simps)
  then show "\<forall>c\<in>set [SET_EX m (Doc d) t, LPUSH (readyKey p) m]. \<forall>s. safe_at k s \<longrightarrow> safe_at k (snd (redis_doc c s))"
    using assms(3,4) by (simp add: safe_at_def queue_cmds tracked_grow del: redis_doc.simps)
qed (rule assms(2))

text \<open>
  The pipeline that moves a job to the dead letters: the job is pushed there before it is taken out
  of the in-flight set, so that stopping anywhere keeps it.
\<close>

lemma safe_bury:
  assumes "leaves_job k env" "safe_at k (view r)" "key_kind m = KJob" "0 < t"
  shows "safe_at k (view (snd (pipe R [SET_EX m (Doc d) t, LPUSH dlqKey m, ZREM (inflightKey w) m] r)))"
proof -
  let ?cs = "[SET_EX m (Doc d) t, LPUSH dlqKey m, ZREM (inflightKey w) m]"
  let ?I = "\<lambda>s. safe_at k s \<and> (k = m \<longrightarrow> k \<in> set (aq_dlq (queue_of s)))"
  define Is where "Is i = (if i = (2 :: nat) then ?I else safe_at k)" for i
  have fits: "typed (snd (redis_doc c s))" if "safe_at k s" "c \<in> set ?cs" for c s
    using that assms(3) by (intro typed_redis_doc) (auto simp: safe_at_def)
  have "\<exists>i \<le> length ?cs. Is i (view (snd (pipe R ?cs r)))"
  proof (rule pipe_stages)
    show "\<forall>i s s'. env s s' \<longrightarrow> Is i s \<longrightarrow> Is i s'"
      using leaves_safe [OF assms(1)] leaves_dlq [OF assms(1)] unfolding Is_def safe_at_def
      by (auto split: if_splits)
    show "Is 0 (view r)" using assms(2) by (simp add: Is_def)
    show "\<forall>i s. Is i s \<longrightarrow> Is 0 s" by (simp add: Is_def)
    have c1: "safe_at k (snd (redis_doc (SET_EX m (Doc d) t) s))" if "safe_at k s" for s
      using that fits [OF that, of "SET_EX m (Doc d) t"] assms(3,4)
      by (simp add: safe_at_def queue_cmds tracked_grow del: redis_doc.simps)
    have c2: "?I (snd (redis_doc (LPUSH dlqKey m) s))" if "safe_at k s" for s
      using that fits [OF that, of "LPUSH dlqKey m"]
      by (simp add: safe_at_def queue_cmds tracked_grow del: redis_doc.simps) (simp add: aq_bury_def)
    have c3: "safe_at k (snd (redis_doc (ZREM (inflightKey w) m) s))" if "?I s" for s
      using that fits [of s "ZREM (inflightKey w) m"] tracked_land [of k "queue_of s" m w]
        tracked_land_dlq [of k "queue_of s" w m]
      by (auto simp: safe_at_def queue_cmds simp del: redis_doc.simps)
    show "\<forall>i < length ?cs. \<forall>s. Is i s \<longrightarrow> Is (Suc i) (snd (redis_doc (?cs ! i) s))"
      using c1 c2 c3 by (auto simp: Is_def less_Suc_eq simp del: redis_doc.simps)
  qed
  then show ?thesis by (auto simp: Is_def split: if_splits)
qed

end

context redis_server
begin

lemma ops_safe:
  assumes "leaves_job k env" "safe_at k (view r)"
  shows "safe_at k (view (snd (Enqueue R U now job r)))" "safe_at k (view (snd (Dequeue R U w timeout r)))"
    "safe_at k (view (snd (Requeue R U job r)))" "safe_at k (view (snd (snd (Nack R U now job w msg r))))"
proof -
  note st = leaves_safe [OF assms(1)]
  show "safe_at k (view (snd (Enqueue R U now job r)))"
    by (rule Enqueue_keeps [OF st assms(2)])
      (auto simp: safe_at_def enqueueScript_typed(2,3) tracked_grow)
  show "safe_at k (view (snd (Dequeue R U w timeout r)))"
  proof (rule Dequeue_keeps [OF st assms(2)])
    fix r
    assume "safe_at k (view r)"
    then show "safe_at k (view (snd (dequeueScript R ready_keys (inflightKey w) (Milliseconds timeout) r)))"
      using dequeueScript_state [of r w "Milliseconds timeout"] tracked_dequeue [of k "queue_of (view r)"]
        first_ready_Some [of priorities "queue_of (view r)"]
      by (auto simp: safe_at_def Let_def simp del: first_ready.simps split: option.splits)
  qed
  have rq: "safe_at k (view (snd (Requeue R U job r)))" for job
    using Requeue_state [of U job r] safe_store_push [OF assms, of "job_key U job" "7 * 24 * 3600" _ "job_Priority job"]
      assms(2) by auto
  then show "safe_at k (view (snd (Requeue R U job r)))" .
  show "safe_at k (view (snd (snd (Nack R U now job w msg r))))"
    using Nack_state [of U now job w msg r] safe_bury [OF assms, of "job_key U job" "30 * 24 * 3600" _ w] rq assms(2)
    by auto
qed

text \<open>What a successful answer guarantees.\<close>

lemma Enqueue_arrives:
  assumes "leaves_job (job_key U job) env" "typed (view r)" "Enqueue R U now job r = (Ret (), r')"
  shows "safe_at (job_key U job) (view r')"
proof -
  obtain d where d: "Marshal_job U job = Ret d"
    using assms(3) by (cases "Marshal_job U job") (simp_all add: Enqueue_def)
  define f where "f = enqueueScript R (job_key U job) (readyKey (job_Priority job))
      delayedQueueKey (Doc d) (UnixMilli (job_ScheduledAt job)) (UnixMilli now)"
  have f: "fst (f r) = RInt 1" "safe_at (job_key U job) (view (snd (f r)))" if "typed (view r)" for r
    using enqueueScript_typed [OF that, of "job_key U job"]
    by (simp_all add: f_def safe_at_def tracked_new)
  have st: "env s s' \<Longrightarrow> typed s \<Longrightarrow> typed s'" for s s'
    using assms(1) unfolding leaves_job_def by blast
  have arrived: "safe_at (job_key U job) (view r2)"
    if law: "\<exists>r0. lost view env f r1 r0 \<and> ((y, r2) = (client_reply (fst (f r0)), snd (f r0)) \<or>
       (\<exists>e. \<not> errors_Is e RedisNil \<and> ((y, r2) = (Inl e, r0) \<or> (y, r2) = (Inl e, snd (f r0)))))"
      and t: "typed (view r1)" and e: "\<forall>e. y = Inl e \<longrightarrow> errors_Is e RedisNil" for r1 y r2
  proof (rule exE [OF law])
    fix r0
    assume r0: "lost view env f r1 r0 \<and> ((y, r2) = (client_reply (fst (f r0)), snd (f r0)) \<or>
       (\<exists>e. \<not> errors_Is e RedisNil \<and> ((y, r2) = (Inl e, r0) \<or> (y, r2) = (Inl e, snd (f r0)))))"
    have "typed (view r0)"
      by (rule lost_inv [OF conjunct1 [OF r0], where I = typed]) (use st t f(2) in \<open>auto simp: safe_at_def\<close>)
    with r0 e f [of r0] show ?thesis by (elim conjE disjE exE) auto
  qed
  obtain y r1 where y: "evalsha R f r = (y, r1)" by (cases "evalsha R f r")
  show ?thesis
  proof (cases "\<forall>e. y = Inl e \<longrightarrow> errors_Is e RedisNil")
    case True
    then have "r' = r1" using assms(3) d y by (auto simp: Enqueue_def f_def Let_def split: sum.splits if_splits)
    with arrived [OF _ assms(2) True] evalsha_law [of f r] y show ?thesis by simp
  next
    case False
    obtain z r2 where z: "rtt R f r1 = (z, r2)" by (cases "rtt R f r1")
    have st': "\<forall>s s'. env s s' \<longrightarrow> typed s \<longrightarrow> typed s'" using st by blast
    have "typed (view (snd (f r)))" if "typed (view r)" for r using f(2) [OF that] by (simp add: safe_at_def)
    then have "typed (view (snd (evalsha R f r)))" by (rule call_inv(2) [OF st' _ assms(2)])
    then have "typed (view r1)" using y by simp
    moreover have "r' = r2" "\<forall>e. z = Inl e \<longrightarrow> errors_Is e RedisNil"
      using assms(3) d y z False by (auto simp: Enqueue_def f_def Let_def split: sum.splits if_splits)
    ultimately show ?thesis using arrived [of r1 z r2] rtt_law [of f r1] z by simp
  qed
qed

end

section \<open>Moving due jobs\<close>

lemma moved_queue:
  "aq_ready (fold (spec_move1 U) ks q) p =
     rev (filter (\<lambda>k. \<exists>j. stored U q k = Ret j \<and> job_Priority j = p) ks) @ aq_ready q p \<and>
   aq_delayed (fold (spec_move1 U) ks q) = filter (\<lambda>e. snd e \<notin> set ks) (aq_delayed q)"
proof (induction ks arbitrary: q)
  case (Cons k ks)
  have s: "stored U (spec_move1 U k q) = stored U q" by (rule ext, rule stored_cong) simp
  have r: "aq_ready (spec_move1 U k q) p =
      (if \<exists>j. stored U q k = Ret j \<and> job_Priority j = p then k # aq_ready q p else aq_ready q p)"
    by (auto simp: spec_move1_def aq_undelay_def aq_push_def split: res.splits)
  have d: "aq_delayed (spec_move1 U k q) = filter (\<lambda>e. snd e \<noteq> k) (aq_delayed q)"
    by (simp add: spec_move1_def aq_undelay_def aq_push_def zrem_def split: res.splits)
  show ?case using Cons [of "spec_move1 U k q"] by (auto simp: s r d conj_commute)
qed simp

lemma due_members:
  "k \<in> set (due now n q) \<Longrightarrow> \<exists>t. (t, k) \<in> set (aq_delayed q) \<and> t \<le> UnixMilli now"
  by (auto simp: due_def zrange_def Let_def split: if_splits dest!: in_set_takeD) blast+

lemma due_all:
  "n \<le> 0 \<Longrightarrow> (t, k) \<in> set (aq_delayed q) \<Longrightarrow> 0 \<le> t \<Longrightarrow> t \<le> UnixMilli now \<Longrightarrow> k \<in> set (due now n q)"
  by (force simp: due_def zrange_def)

context redis_isolated
begin

lemma delivery_order_redis:
  assumes "uuid_ok U" "typed (view r)" "\<forall>p. aq_ready (queue_of (view r)) p = []"
    and "list_all (submittable U now) jobs" "distinct (map job_ID jobs)" "length ws = length jobs"
  shows "run_dequeues (RedisQueue R U) ws (run_enqueues (RedisQueue R U) now jobs r) =
    map (\<lambda>j. Ret (from_json j)) (sort_key job_Priority jobs)"
  using assms by (rule rq.delivery_order)

end

section \<open>Properties\<close>

definition demo_job :: "uuid \<Rightarrow> int \<Rightarrow> Job" where
  "demo_job u p = zero_job\<lparr>job_ID := u, job_Type := ''send-email'', job_Priority := p, job_Status := JobStatusPending,
     job_MaxRetries := 3, job_Timeout := 30000, job_Payload := Some JNull\<rparr>"

lemma demo_job_sel [simp]: "job_ID (demo_job u p) = u" "job_Priority (demo_job u p) = p"
  by (simp_all add: demo_job_def)

lemma demo_encodable [simp]: "job_encodable (demo_job u p)"
  by (simp add: demo_job_def zero_job_def job_encodable_def time_encodable_def zero_time_def List.map_filter_simps)

lemma demo_submittable [simp]: "0 \<le> p \<Longrightarrow> p \<le> 9 \<Longrightarrow> submittable demo_uuid 0 (demo_job u p)"
  by (simp add: submittable_def) (simp add: demo_job_def zero_job_def job_int64_def in_int64_def min_int64_def max_int64_def UnixMilli_def zero_time_def)

lemma queue_of_empty [simp]:
  "aq_ready (queue_of empty_server) p = []" "aq_inflight (queue_of empty_server) w = []"
  "aq_dlq (queue_of empty_server) = []" "aq_delayed (queue_of empty_server) = []"
  by (simp_all add: queue_of_def list_at_def zset_at_def entry_def empty_server_def)

lemma demo_utf8 [simp]: "json_string ''send-email'' = ''send-email''"
  by code_simp

lemma from_json_demo [simp]: "from_json (demo_job u p) = demo_job u p"
  by (simp add: from_json_def demo_job_def zero_job_def)

text \<open>
  C2: Jobs are delivered by priority and, within a priority, in the order of submission: when due
  jobs with distinct ids are enqueued on a queue with nothing ready, as many dequeues, by whichever
  workers, return exactly these jobs in the order of a stable sort by priority (0 first).
\<close>

theorem queue_delivery_order:
  assumes "redis_isolated R view" and "uuid_ok U" and "typed (view r)"
    and "\<forall>p. aq_ready (queue_of (view r)) p = []"
    and "list_all (submittable U now) jobs" "distinct (map job_ID jobs)" "length ws = length jobs"
  shows "run_dequeues (RedisQueue R U) ws (run_enqueues (RedisQueue R U) now jobs r) =
    map (\<lambda>j. Ret (from_json j)) (sort_key job_Priority jobs)"
  using assms(2-) by (rule redis_isolated.delivery_order_redis [OF assms(1)])

lemma queue_delivery_order_witness:
  "run_dequeues (RedisQueue mem_redis demo_uuid) [(''w1'', one_minute), (''w2'', one_minute), (''w1'', one_minute)]
     (run_enqueues (RedisQueue mem_redis demo_uuid) 0 [demo_job 1 5, demo_job 2 0, demo_job 3 5] empty_server) =
   [Ret (demo_job 2 0), Ret (demo_job 1 5), Ret (demo_job 3 5)]"
  using queue_delivery_order [OF mem.redis_isolated_axioms demo_uuid_ok typed_empty, of 0
      "[demo_job 1 5, demo_job 2 0, demo_job 3 5]" "[(''w1'', one_minute), (''w2'', one_minute), (''w1'', one_minute)]"]
  by (simp add: sort_key_def del: run_dequeues.simps)

text \<open>
  \<open>MoveDelayed\<close> moves no job before its time and misses none: exactly the selected keys leave the
  delayed set, all of them are due, without a positive batch size all due keys are selected, and a
  key whose document decodes to a job of priority \<open>p\<close> is appended to the ready queue of \<open>p\<close>, the
  longest waiting first.
\<close>

theorem MoveDelayed_exact:
  assumes "redis_isolated R view" and "typed (view r)"
  shows "let q = queue_of (view r); ks = due now n q; q' = queue_of (view (snd (MoveDelayed R U now n r))) in
    (\<forall>p. aq_ready q' p = rev (filter (\<lambda>k. \<exists>j. stored U q k = Ret j \<and> job_Priority j = p) ks) @ aq_ready q p) \<and>
    aq_delayed q' = filter (\<lambda>e. snd e \<notin> set ks) (aq_delayed q) \<and>
    (\<forall>k \<in> set ks. \<exists>t. (t, k) \<in> set (aq_delayed q) \<and> t \<le> UnixMilli now) \<and>
    (n \<le> 0 \<longrightarrow> (\<forall>(t, k) \<in> set (aq_delayed q). 0 \<le> t \<and> t \<le> UnixMilli now \<longrightarrow> k \<in> set ks))"
proof -
  obtain r' where "snd (MoveDelayed R U now n r) = r'"
    "queue_of (view r') = snd (spec_move U now n (queue_of (view r)))"
    using redis_isolated.MoveDelayed_typed [OF assms, of U now n] by auto
  then show ?thesis
    using moved_queue [of U "due now n (queue_of (view r))" "queue_of (view r)"]
    by (auto simp: Let_def spec_move_def due_all dest: due_members)
qed

definition delayed_demo :: rstate where
  "delayed_demo = put_zset delayedQueueKey [(5, job_key demo_uuid (demo_job 1 5))]
     (put (job_key demo_uuid (demo_job 1 5)) (Some (VStr (Doc (marshal_job demo_uuid (demo_job 1 5))), None)) empty_server)"

lemma typed_delayed_demo [simp]: "typed delayed_demo"
  unfolding delayed_demo_def by (intro typed_put_zset typed_put_str) simp_all

lemma delayed_demo_sel [simp]:
  "aq_delayed (queue_of delayed_demo) = [(5, job_key demo_uuid (demo_job 1 5))]"
  "aq_ready (queue_of delayed_demo) p = []" "aq_inflight (queue_of delayed_demo) w = []"
  "aq_dlq (queue_of delayed_demo) = []"
  by (simp_all add: delayed_demo_def queue_put_zset queue_put_job aq_store_def)

lemma MoveDelayed_exact_witness:
  "aq_delayed (queue_of (snd (MoveDelayed mem_redis demo_uuid 9000000 0 delayed_demo))) = []"
  using MoveDelayed_exact [OF mem.redis_isolated_axioms typed_delayed_demo, of 9000000 0 demo_uuid]
  by (simp add: Let_def due_def zrange_def UnixMilli_def)

text \<open>
  C11: Whatever other clients do within the key formats and whichever requests, answers or parts of
  pipelines are lost or sent again, every operation of the queue leaves each key with the kind of value its
  format prescribes: no operation can ever run into a wrong-type error of its own making.
\<close>

theorem queue_keeps_wellformed:
  assumes "redis_server R view env" and "keeps_typed env" and "typed (view r)"
  shows "typed (view (snd (Enqueue R U now job r))) \<and> typed (view (snd (Dequeue R U w timeout r))) \<and>
    typed (view (snd (Acknowledge R U u w r))) \<and> typed (view (snd (Requeue R U job r))) \<and>
    typed (view (snd (snd (Nack R U now job w msg r)))) \<and> typed (view (snd (MoveDelayed R U now n r))) \<and>
    typed (view (snd (ReclaimOrphaned R U clock maxAge r))) \<and>
    typed (view (snd (GetDLQ R U limit offset r))) \<and> typed (view (snd (QueueDepth R r)))"
  by (intro conjI redis_server.ops_typed [OF assms] redis_server.MoveDelayed_keeps [OF assms]
      redis_server.ReclaimOrphaned_keeps [OF assms])

lemma keeps_typed_eq [simp]: "keeps_typed (=)"
  by (simp add: keeps_typed_def)

lemma queue_keeps_wellformed_witness:
  "typed (fst (snd (MoveDelayed lossy_redis demo_uuid 9000000 0 (delayed_demo, [Delivered, AnswerLost, NotSent]))))"
  using queue_keeps_wellformed [OF lossy.redis_server_axioms keeps_typed_eq,
      of "(delayed_demo, [Delivered, AnswerLost, NotSent])"] by simp

text \<open>
  C3: No job is lost by delivering, retrying or dead-lettering: a key that is waiting, delayed, in
  flight or a dead letter still is after \<open>Enqueue\<close>, \<open>Dequeue\<close>, \<open>Requeue\<close> and \<open>Nack\<close>, whatever is
  lost or sent again on the way, as long as other clients leave that job alone; and an \<open>Enqueue\<close> that reports
  success has put its job there.
\<close>

theorem queue_conserves_jobs:
  assumes "redis_server R view env" and "leaves_job k env" and "typed (view r)" "tracked k (queue_of (view r))"
  shows "tracked k (queue_of (view (snd (Enqueue R U now job r)))) \<and>
    tracked k (queue_of (view (snd (Dequeue R U w timeout r)))) \<and>
    tracked k (queue_of (view (snd (Requeue R U job r)))) \<and>
    tracked k (queue_of (view (snd (snd (Nack R U now job w msg r))))) \<and>
    (\<forall>r' job. Enqueue R U now job r = (Ret (), r') \<and> leaves_job (job_key U job) env \<longrightarrow>
       tracked (job_key U job) (queue_of (view r')))"
proof -
  have "safe_at k (view r)" using assms(3,4) by (simp add: safe_at_def)
  note s = redis_server.ops_safe [OF assms(1,2) this]
  have "\<forall>r' job. Enqueue R U now job r = (Ret (), r') \<and> leaves_job (job_key U job) env \<longrightarrow>
       tracked (job_key U job) (queue_of (view r'))"
    using redis_server.Enqueue_arrives [OF assms(1) _ assms(3)] by (auto simp: safe_at_def)
  with s show ?thesis by (simp add: safe_at_def)
qed

lemma leaves_job_eq [simp]: "leaves_job k (=)"
  by (simp add: leaves_job_def)

lemma queue_conserves_jobs_witness:
  "let k = job_key demo_uuid (demo_job 1 5) in
   tracked k (queue_of (fst (snd (snd (Nack lossy_redis demo_uuid 0 (demo_job 1 5) ''w1'' ''boom''
     (delayed_demo, [AnswerLost]))))))"
proof -
  have "tracked (job_key demo_uuid (demo_job 1 5)) (queue_of delayed_demo)"
    by (simp add: tracked_def members_def)
  then show ?thesis
    using queue_conserves_jobs [OF lossy.redis_server_axioms leaves_job_eq, of "(delayed_demo, [AnswerLost])"
        "job_key demo_uuid (demo_job 1 5)" demo_uuid 0 "demo_job 1 5"] by (simp add: Let_def)
qed

text \<open>
  A job whose status is not \<open>failed\<close> when it is rejected is buried at once, whatever
  retries it has left: it becomes a dead letter, leaves the in-flight set, and is queued nowhere
  else. Dequeued jobs have status \<open>pending\<close>, so this is the fate of every failing job.
\<close>

theorem Nack_buries_pending:
  assumes "redis_isolated R view" and "typed (view r)" and "job_encodable job" "job_Status job \<noteq> JobStatusFailed"
  shows "\<exists>r'. Nack R U now job w msg r = (Ret (), dead_job job msg, r') \<and>
    aq_dlq (queue_of (view r')) = job_key U job # aq_dlq (queue_of (view r)) \<and>
    aq_inflight (queue_of (view r')) w = zrem (job_key U job) (aq_inflight (queue_of (view r)) w) \<and>
    aq_ready (queue_of (view r')) = aq_ready (queue_of (view r)) \<and>
    aq_delayed (queue_of (view r')) = aq_delayed (queue_of (view r))"
proof -
  have "\<not> IsRetryable job" using assms(4) by (simp add: IsRetryable_def)
  from redis_isolated.Nack_dead [OF assms(1-3) this, of U now w msg] show ?thesis
    by (auto simp: spec_bury_def Let_def aq_bury_def aq_land_def aq_store_def)
qed

lemma Nack_buries_pending_witness:
  "\<exists>r'. Nack mem_redis demo_uuid 0 (demo_job 1 5) ''w1'' ''boom'' empty_server =
     (Ret (), dead_job (demo_job 1 5) ''boom'', r')"
  using Nack_buries_pending [OF mem.redis_isolated_axioms typed_empty demo_encodable [of 1 5], of demo_uuid 0 "''w1''" "''boom''"]
  by (auto simp: demo_job_def)

text \<open>
  A job with status \<open>failed\<close> and retries left is put back by \<open>Nack\<close>: its retry count grows by
  one, it is pending again and it is pushed to its ready queue at once, although its
  \<open>ScheduledAt\<close> is the time of the retry; it also stays in the in-flight set.
\<close>

theorem Nack_requeues_failed:
  assumes "redis_isolated R view" and "typed (view r)" and "IsRetryable job" "0 \<le> job_RetryCount job" "job_MaxRetries job \<le> 20"
    and "job_encodable job" "\<forall>t. now \<le> t \<and> t \<le> now + 10 ^ 17 \<longrightarrow> time_encodable t"
  shows "\<exists>r' t. let job' = job\<lparr>job_RetryCount := job_RetryCount job + 1, job_Status := JobStatusPending,
        job_ErrorMessage := msg, job_ScheduledAt := t\<rparr> in
    Nack R U now job w msg r = (Ret (), job', r') \<and> now < t \<and>
    queue_of (view r') = spec_requeue U job' (queue_of (view r)) \<and>
    aq_inflight (queue_of (view r')) = aq_inflight (queue_of (view r))"
proof -
  let ?j = "job\<lparr>job_RetryCount := job_RetryCount job + 1, job_Status := JobStatusPending, job_ErrorMessage := msg\<rparr>"
  have rc: "0 \<le> job_RetryCount ?j" "job_RetryCount ?j \<le> 20" "go_int (job_RetryCount job + 1) = job_RetryCount job + 1"
    using assms(3-5) by (simp_all add: IsRetryable_def in_int64_def min_int64_def max_int64_def)
  have b: "sint (5 * second) = 5000000000" by (simp add: second_def)
  obtain t where t: "NextRetryTime U now (5 * second) ?j = Ret t" "now + 5000000000 * 2 ^ nat (job_RetryCount ?j) \<le> t"
    "t < now + 5000000000 * 2 ^ nat (job_RetryCount ?j) + 1000000000"
    using NextRetryTime_bounds [OF rc(1,2), of "5 * second" U now] b by auto
  have "(2 :: int) ^ nat (job_RetryCount ?j) \<le> 2 ^ 20" using rc(2) by (intro power_increasing) simp_all
  then have "2 ^ nat (job_RetryCount ?j) \<le> (1048576 :: int)" by simp
  moreover have "(0 :: int) < 2 ^ nat (job_RetryCount ?j)" by simp
  ultimately have "now < t" "t \<le> now + 100000000000000000" using t(2,3) by linarith+
  then have "job_encodable (?j\<lparr>job_ScheduledAt := t\<rparr>)" using assms(6,7) by (simp add: job_encodable_def)
  from redis_isolated.Requeue_typed [OF assms(1,2) this, of U] obtain r' where
    r': "Requeue R U (?j\<lparr>job_ScheduledAt := t\<rparr>) r = (Ret (), r')"
      "queue_of (view r') = spec_requeue U (?j\<lparr>job_ScheduledAt := t\<rparr>) (queue_of (view r))"
    by auto
  then have "Nack R U now job w msg r = (Ret (), ?j\<lparr>job_ScheduledAt := t\<rparr>, r')"
    using assms(3) t(1) rc(3) by (simp add: Nack_def Let_def)
  with r' \<open>now < t\<close> show ?thesis
    by (intro exI [of _ r'] exI [of _ t]) (simp add: Let_def spec_requeue_def aq_push_def aq_store_def)
qed

lemma Nack_requeues_failed_witness:
  "\<exists>r' t. Nack mem_redis demo_uuid 0 ((demo_job 1 5)\<lparr>job_Status := JobStatusFailed\<rparr>) ''w1'' ''boom'' empty_server =
     (Ret (), (demo_job 1 5)\<lparr>job_RetryCount := 1, job_Status := JobStatusPending, job_ErrorMessage := ''boom'',
        job_ScheduledAt := t\<rparr>, r') \<and> 0 < t"
proof -
  let ?j = "(demo_job 1 5)\<lparr>job_Status := JobStatusFailed\<rparr>"
  have "IsRetryable ?j" "job_RetryCount ?j = 0" "job_MaxRetries ?j = 3" "job_encodable ?j"
    using demo_encodable [of 1 5] by (simp_all add: demo_job_def zero_job_def IsRetryable_def job_encodable_def)
  moreover have "\<forall>t. 0 \<le> t \<and> t \<le> 0 + 10 ^ 17 \<longrightarrow> time_encodable t" by (simp add: time_encodable_def)
  ultimately show ?thesis
    using Nack_requeues_failed [OF mem.redis_isolated_axioms typed_empty, of ?j 0 "''boom''" demo_uuid "''w1''"]
    by (auto simp: Let_def)
qed

text \<open>
  When the answer to the cached script is lost, \<open>Enqueue\<close> runs the script again and reports
  success with the job queued twice.
\<close>

theorem Enqueue_lost_answer_duplicates:
  assumes "typed s" "job_encodable job" "UnixMilli (job_ScheduledAt job) \<le> UnixMilli now"
  shows "\<exists>r'. Enqueue lossy_redis U now job (s, [AnswerLost]) = (Ret (), r') \<and>
    aq_ready (queue_of (fst r')) (job_Priority job) =
      job_key U job # job_key U job # aq_ready (queue_of s) (job_Priority job)"
proof -
  define f where "f = enqueueScript lossy_redis (job_key U job) (readyKey (job_Priority job)) delayedQueueKey
    (Doc (marshal_job U job)) (UnixMilli (job_ScheduledAt job)) (UnixMilli now)"
  note f1 = lossy.enqueueScript_typed [of "(s, [])" "job_key U job" "job_Priority job" "marshal_job U job"
    "UnixMilli (job_ScheduledAt job)" "UnixMilli now", folded f_def]
  define r1 where "r1 = snd (f (s, []))"
  have r1: "typed (fst r1)" "queue_of (fst r1) = aq_push (job_Priority job) (job_key U job)
      (aq_store (job_key U job) (marshal_job U job) (queue_of s))"
    using f1(2,3) assms by (simp_all add: r1_def)
  have fates: "snd r1 = []"
    by (simp add: r1_def f_def enqueueScript_def lua_call_def lua_return_def lossy_redis_def lossy_exec_def split: reply.splits prod.splits)
  note f2 = lossy.enqueueScript_typed [of r1 "job_key U job" "job_Priority job" "marshal_job U job"
    "UnixMilli (job_ScheduledAt job)" "UnixMilli now", folded f_def]
  have "evalsha lossy_redis f (s, [AnswerLost]) = (Inl conn_error, r1)"
    by (simp add: lossy_redis_def r1_def)
  moreover have "rtt lossy_redis f r1 = (Inr (RInt 1), snd (f r1))"
    using f2(1) r1(1) fates surjective_pairing [of r1] by (simp add: lossy_redis_def)
  ultimately have "Enqueue lossy_redis U now job (s, [AnswerLost]) = (Ret (), snd (f r1))"
    using assms(2) by (simp add: Enqueue_def Marshal_encodable Let_def f_def [symmetric] conn_error_def)
  moreover have "aq_ready (queue_of (fst (snd (f r1)))) (job_Priority job) =
      job_key U job # job_key U job # aq_ready (queue_of s) (job_Priority job)"
    using f2(3) r1 assms(3) by (simp add: aq_push_def aq_store_def)
  ultimately show ?thesis by blast
qed

lemma Enqueue_lost_answer_duplicates_witness:
  "\<exists>r'. Enqueue lossy_redis demo_uuid 0 (demo_job 1 5) (empty_server, [AnswerLost]) = (Ret (), r') \<and>
     aq_ready (queue_of (fst r')) 5 = [job_key demo_uuid (demo_job 1 5), job_key demo_uuid (demo_job 1 5)]"
  using Enqueue_lost_answer_duplicates [OF typed_empty demo_encodable [of 1 5], of 0 demo_uuid]
  by (simp add: demo_job_def zero_job_def UnixMilli_def zero_time_def)

text \<open>
  A connection error while \<open>MoveDelayed\<close> reads the document of a due job is taken for missing
  data: the job is dropped from the delayed set and queued nowhere, the call reports success, and
  the document is still stored.
\<close>

theorem MoveDelayed_drops_on_read_error:
  assumes "typed s" "due now n (queue_of s) = [k]" "key_kind k = KJob"
  shows "\<exists>r'. MoveDelayed lossy_redis U now n (s, [Delivered, NotSent]) = ((0, None), r') \<and>
    queue_of (fst r') = aq_undelay k (queue_of s)"
proof -
  define c where "c = ZRANGEBYSCORE delayedQueueKey 0 (UnixMilli now) (if n = 0 then None else Some n)"
  have c: "redis_doc c s = (bulks [k], s)"
    using assms(1,2) by (simp add: c_def on_zset_typed due_def queue_of_sel)
  have 1: "rtt lossy_redis (exec lossy_redis c) (s, [Delivered, NotSent]) = (Inr (bulks [k]), (s, [NotSent]))"
    by (simp add: lossy_redis_def lossy_exec_def c del: redis_doc.simps)
  have 2: "fetch_job lossy_redis U k (s, [NotSent]) = (Err conn_error, (s, []))"
    by (simp add: fetch_job_def lossy_redis_def)
  have 3: "pipe lossy_redis [ZREM delayedQueueKey k] (s, []) =
      (Inr [fst (redis_doc (ZREM delayedQueueKey k) s)], (snd (redis_doc (ZREM delayedQueueKey k) s), []))"
    using safe_reply [OF assms(1), of "ZREM delayedQueueKey k"]
    by (simp add: lossy_redis_def lossy_exec_def del: redis_doc.simps)
  show ?thesis
    using 2 3 queue_cmds(4) [OF assms(1), of k]
    by (simp add: MoveDelayed_def c_def [symmetric] 1 del: redis_doc.simps)
qed

lemma MoveDelayed_drops_on_read_error_witness:
  "\<exists>r'. MoveDelayed lossy_redis demo_uuid 9000000 0 (delayed_demo, [Delivered, NotSent]) = ((0, None), r') \<and>
     \<not> tracked (job_key demo_uuid (demo_job 1 5)) (queue_of (fst r'))"
proof -
  have "due 9000000 0 (queue_of delayed_demo) = [job_key demo_uuid (demo_job 1 5)]"
    by (simp add: due_def zrange_def UnixMilli_def)
  from MoveDelayed_drops_on_read_error [OF typed_delayed_demo this, of demo_uuid] obtain r' where
    r': "MoveDelayed lossy_redis demo_uuid 9000000 0 (delayed_demo, [Delivered, NotSent]) = ((0, None), r')"
      "queue_of (fst r') = aq_undelay (job_key demo_uuid (demo_job 1 5)) (queue_of delayed_demo)" by auto
  then show ?thesis by (auto simp: tracked_def members_def aq_undelay_def zrem_def)
qed

end
