(* ===== verification/Cron.thy ===== *)
theory Cron
  imports Prelude
begin

text \<open>
  The cron parser of \<open>internal/scheduler/scheduler.go\<close> (\<open>matchCronField\<close>, \<open>ParseCron\<close>)
  over the civil calendar that Go's \<open>time\<close> package computes from a UTC instant.
\<close>

section \<open>The calendar\<close>

definition leap :: "int \<Rightarrow> bool" where
  "leap y \<longleftrightarrow> 4 dvd y \<and> (\<not> 100 dvd y \<or> 400 dvd y)"

definition year_len :: "int \<Rightarrow> int" where
  "year_len y = (if leap y then 366 else 365)"

function find_year :: "int \<Rightarrow> int \<Rightarrow> int \<times> int" where
  "find_year y d = (if d < year_len y then (y, d) else find_year (y + 1) (d - year_len y))"
  by pat_completeness auto
termination
  by (relation "measure (\<lambda>(y, d). nat d)") (auto simp: year_len_def split: if_splits)

declare find_year.simps [simp del]

definition month_lens :: "int \<Rightarrow> int list" where
  "month_lens y = [31, if leap y then 29 else 28, 31, 30, 31, 30, 31, 31, 30, 31, 30, 31]"

fun find_month :: "int list \<Rightarrow> int \<Rightarrow> int \<Rightarrow> int \<times> int" where
  "find_month [] m d = (m, d + 1)"
| "find_month (l # ls) m d = (if d < l then (m, d + 1) else find_month ls (m + 1) (d - l))"

text \<open>
  The Gregorian calendar repeats every 400 years (146097 days), so the search for the year
  takes at most 400 steps from 1970 plus a multiple of 400.
\<close>

definition civil :: "int \<Rightarrow> int \<times> int \<times> int" where
  "civil days =
     (let (y, doy) = find_year (1970 + 400 * (days div 146097)) (days mod 146097);
          (m, dom) = find_month (month_lens y) 1 doy
      in (y, m, dom))"

abbreviation "minute_ns \<equiv> 60000000000 :: int"

definition time_days :: "go_time \<Rightarrow> int" where "time_days t = t div 86400000000000"
definition time_Minute :: "go_time \<Rightarrow> int" where "time_Minute t = t div minute_ns mod 60"
definition time_Hour :: "go_time \<Rightarrow> int" where "time_Hour t = t div 3600000000000 mod 24"
definition time_Day :: "go_time \<Rightarrow> int" where "time_Day t = snd (snd (civil (time_days t)))"
definition time_Month :: "go_time \<Rightarrow> int" where "time_Month t = fst (snd (civil (time_days t)))"
definition time_Weekday :: "go_time \<Rightarrow> int" where "time_Weekday t = (time_days t + 4) mod 7"

definition Truncate_minute :: "go_time \<Rightarrow> go_time" where
  "Truncate_minute t = t - t mod minute_ns"

section \<open>The cron parser\<close>

text \<open>
  The parameters \<open>min\<close> and \<open>max\<close> are not used by the code either. \<open>value % step\<close> panics
  when the step is 0. A field with a \<open>-\<close> that is not a range of two integers falls
  through to the list and single-value cases.
\<close>

definition matchCronField :: "string \<Rightarrow> int \<Rightarrow> int \<Rightarrow> int \<Rightarrow> bool res" where
  "matchCronField field value mn mx =
     (if field = ''*'' then Ret True
      else if HasPrefix field ''*/'' then
        (case Atoi (drop 2 field) of
           None \<Rightarrow> Ret False
         | Some step \<Rightarrow>
             if step = 0 then Panic ''integer divide by zero'' else Ret (go_rem value step = 0))
      else
        let list_or_single =
              (if Contains_char field (CHR '','') then
                 Ret (list_ex (\<lambda>p. Atoi (TrimSpace p) = Some value) (Split_char (CHR '','') field))
               else (case Atoi field of None \<Rightarrow> Ret False | Some v \<Rightarrow> Ret (v = value)))
        in if Contains_char field (CHR ''-'') then
             (case Split_char (CHR ''-'') field of
                [a, b] \<Rightarrow>
                  (case (Atoi a, Atoi b) of
                     (Some start, Some end) \<Rightarrow> Ret (value \<ge> start \<and> value \<le> end)
                   | _ \<Rightarrow> list_or_single)
              | _ \<Rightarrow> list_or_single)
           else list_or_single)"

text \<open>Go's \<open>&&\<close>: the right operand is evaluated only when the left one is true.\<close>

fun and_res :: "bool res \<Rightarrow> bool res \<Rightarrow> bool res" where
  "and_res (Ret True) r = r"
| "and_res (Ret False) r = Ret False"
| "and_res (Err e) r = Err e"
| "and_res (Panic p) r = Panic p"

definition cron_match :: "string list \<Rightarrow> go_time \<Rightarrow> bool res" where
  "cron_match parts next =
     and_res (matchCronField (parts ! 0) (time_Minute next) 0 59)
      (and_res (matchCronField (parts ! 1) (time_Hour next) 0 23)
        (and_res (matchCronField (parts ! 2) (time_Day next) 1 31)
          (and_res (matchCronField (parts ! 3) (time_Month next) 1 12)
            (matchCronField (parts ! 4) (time_Weekday next) 0 6))))"

definition maxIterations :: int where
  "maxIterations = 366 * 24 * 60"

function cron_loop :: "string \<Rightarrow> string list \<Rightarrow> int \<Rightarrow> go_time \<Rightarrow> go_time res" where
  "cron_loop expr parts i next =
     (if i < maxIterations then
        (case cron_match parts next of
           Ret b \<Rightarrow> if b then Ret next else cron_loop expr parts (i + 1) (next + minute_ns)
         | Err e \<Rightarrow> Err e
         | Panic p \<Rightarrow> Panic p)
      else Err (errorf (''could not find next run time for expression: '' @ expr)))"
  by pat_completeness auto
termination
  by (relation "measure (\<lambda>(expr, parts, i, next). nat (maxIterations - i))") auto

declare cron_loop.simps [simp del]

definition ParseCron :: "string \<Rightarrow> go_time \<Rightarrow> go_time res" where
  "ParseCron expr from =
     (let parts = Fields expr in
      if length parts \<noteq> 5 then
        Err (errorf (''invalid cron expression: expected 5 fields, got '' @ show_int (int (length parts))))
      else cron_loop expr parts 0 (Truncate_minute from + minute_ns))"

section \<open>Facts about the calendar\<close>

lemma year_len_pos [simp]: "0 < year_len y" by (simp add: year_len_def)

lemma find_year_bounds:
  "0 \<le> d \<Longrightarrow> 0 \<le> snd (find_year y d) \<and> snd (find_year y d) < year_len (fst (find_year y d))"
proof (induction y d rule: find_year.induct)
  case (1 y d)
  then show ?case by (simp add: find_year.simps [of y d])
qed

lemma sum_month_lens: "sum_list (month_lens y) = year_len y"
  by (simp add: month_lens_def year_len_def)

lemma find_month_bounds:
  "0 \<le> d \<Longrightarrow> d < sum_list ls \<Longrightarrow>
   m \<le> fst (find_month ls m d) \<and> fst (find_month ls m d) < m + int (length ls) \<and>
   1 \<le> snd (find_month ls m d) \<and> snd (find_month ls m d) \<le> ls ! nat (fst (find_month ls m d) - m)"
proof (induction ls arbitrary: m d)
  case Nil
  then show ?case by simp
next
  case (Cons l ls)
  show ?case
  proof (cases "d < l")
    case True
    with Cons.prems show ?thesis by simp
  next
    case False
    with Cons.prems have "0 \<le> d - l" "d - l < sum_list ls" by simp_all
    note IH = Cons.IH [OF this, of "m + 1"]
    let ?f = "fst (find_month ls (m + 1) (d - l))"
    have "nat (?f - m) = Suc (nat (?f - (m + 1)))" using IH by linarith
    with IH False show ?thesis by simp
  qed
qed

lemma civil_bounds:
  "1 \<le> time_Month t \<and> time_Month t \<le> 12 \<and> 1 \<le> time_Day t \<and> time_Day t \<le> 31"
proof -
  define y0 where "y0 = 1970 + 400 * (time_days t div 146097)"
  obtain y doy where yd: "find_year y0 (time_days t mod 146097) = (y, doy)"
    by (cases "find_year y0 (time_days t mod 146097)")
  have "0 \<le> doy \<and> doy < sum_list (month_lens y)"
    using find_year_bounds [of "time_days t mod 146097" y0] yd by (simp add: sum_month_lens)
  moreover obtain m dom where md: "find_month (month_lens y) 1 doy = (m, dom)"
    by (cases "find_month (month_lens y) 1 doy")
  ultimately have b: "1 \<le> m" "m \<le> 12" "1 \<le> dom" "dom \<le> month_lens y ! nat (m - 1)"
    using find_month_bounds [of doy "month_lens y" 1] by (auto simp: month_lens_def)
  then have "nat (m - 1) < length (month_lens y)" by (simp add: month_lens_def)
  then have "month_lens y ! nat (m - 1) \<in> set (month_lens y)" by (rule nth_mem)
  then have "month_lens y ! nat (m - 1) \<le> 31" by (auto simp: month_lens_def)
  with b show ?thesis
    using yd md by (simp add: time_Month_def time_Day_def civil_def y0_def)
qed

section \<open>The search\<close>

lemma cron_loop_Ret:
  "cron_loop expr parts i next = Ret t \<longleftrightarrow>
     (\<exists>n. i + int n < maxIterations \<and> t = next + int n * minute_ns \<and>
       cron_match parts t = Ret True \<and>
       (\<forall>m<n. cron_match parts (next + int m * minute_ns) = Ret False))"
  (is "?L i next \<longleftrightarrow> ?R i next")
proof (induction expr parts i "next" rule: cron_loop.induct)
  case (1 expr parts i "next")
  show ?case
  proof (cases "i < maxIterations \<and> cron_match parts next = Ret False")
    case True
    then have "cron_loop expr parts i next = Ret t \<longleftrightarrow>
        cron_loop expr parts (i + 1) (next + minute_ns) = Ret t"
      by (simp add: cron_loop.simps [of expr parts i "next"])
    also have "\<dots> \<longleftrightarrow> (\<exists>n. i + 1 + int n < maxIterations \<and> t = next + minute_ns + int n * minute_ns \<and>
       cron_match parts t = Ret True \<and>
       (\<forall>m<n. cron_match parts (next + minute_ns + int m * minute_ns) = Ret False))"
      using 1 [of False] True by simp
    also have "\<dots> \<longleftrightarrow> (\<exists>n. i + int (Suc n) < maxIterations \<and> t = next + int (Suc n) * minute_ns \<and>
       cron_match parts t = Ret True \<and>
       (\<forall>m<Suc n. cron_match parts (next + int m * minute_ns) = Ret False))"
      using True by (simp add: All_less_Suc2 algebra_simps)
    also have "\<dots> \<longleftrightarrow> (\<exists>n. i + int n < maxIterations \<and> t = next + int n * minute_ns \<and>
       cron_match parts t = Ret True \<and>
       (\<forall>m<n. cron_match parts (next + int m * minute_ns) = Ret False))"
      (is "(\<exists>n. ?P (Suc n)) \<longleftrightarrow> (\<exists>n. ?P n)")
    proof
      assume "\<exists>n. ?P n"
      then obtain n where n: "?P n" by blast
      with True have "n \<noteq> 0" by (intro notI) auto
      then obtain k where "n = Suc k" by (cases n) auto
      with n show "\<exists>n. ?P (Suc n)" by blast
    qed blast
    finally show ?thesis .
  next
    case False
    show ?thesis
    proof (cases "i < maxIterations")
      case lt: True
      with False have ne: "cron_match parts next \<noteq> Ret False" by simp
      have zero: "(\<forall>m<n. cron_match parts (next + int m * minute_ns) = Ret False) \<longleftrightarrow> n = 0" for n
        using ne by (cases n) (auto dest: spec [of _ 0])
      show ?thesis
        unfolding zero using lt ne
        by (cases "cron_match parts next") (auto simp: cron_loop.simps [of expr parts i "next"])
    qed (auto simp: cron_loop.simps [of expr parts i "next"])
  qed
qed

lemma matchCronField_not_Err: "matchCronField f v mn mx \<noteq> Err e"
  by (auto simp: matchCronField_def Let_def split: option.splits list.splits if_splits)

lemma and_res_Err: "and_res a b = Err e \<Longrightarrow> a = Err e \<or> b = Err e"
  by (induction a b rule: and_res.induct) auto

text \<open>What a search without a result found.\<close>

lemma cron_loop_cases:
  "(\<exists>t. cron_loop expr parts i next = Ret t) \<or>
   cron_loop expr parts i next = Err (errorf (''could not find next run time for expression: '' @ expr)) \<or>
   (\<exists>n p. i + int n < maxIterations \<and> cron_match parts (next + int n * minute_ns) = Panic p \<and>
     cron_loop expr parts i next = Panic p)"
proof (induction expr parts i "next" rule: cron_loop.induct)
  case (1 expr parts i "next")
  show ?case
  proof (cases "i < maxIterations")
    case False
    then show ?thesis by (simp add: cron_loop.simps)
  next
    case True
    show ?thesis
    proof (cases "cron_match parts next")
      case (Ret b)
      show ?thesis
      proof (cases b)
        case False
        have eq: "cron_loop expr parts i next = cron_loop expr parts (i + 1) (next + minute_ns)"
          using True Ret False by (simp add: cron_loop.simps [of expr parts i "next"])
        from 1 [OF True Ret False] show ?thesis
        proof (elim disjE exE conjE)
          fix n p
          assume "i + 1 + int n < maxIterations"
            "cron_match parts (next + minute_ns + int n * minute_ns) = Panic p"
            "cron_loop expr parts (i + 1) (next + minute_ns) = Panic p"
          then show ?thesis
            by (intro disjI2 exI [where x = "Suc n"] exI [where x = p]) (simp add: eq algebra_simps)
        qed (simp_all add: eq)
      qed (use True Ret in \<open>simp add: cron_loop.simps [of expr parts i "next"]\<close>)
    next
      case (Err e)
      then have False by (auto simp: cron_match_def matchCronField_not_Err dest!: and_res_Err)
      then show ?thesis ..
    next
      case (Panic p)
      with True show ?thesis
        by (intro disjI2 exI [where x = 0]) (simp add: cron_loop.simps)
    qed
  qed
qed

text \<open>The first minute the search looks at.\<close>

definition cron_start :: "go_time \<Rightarrow> go_time" where
  "cron_start from = Truncate_minute from + minute_ns"

lemma cron_start_bounds: "from < cron_start from" "cron_start from \<le> from + minute_ns"
  "minute_ns dvd cron_start from"
proof -
  have "0 \<le> from mod minute_ns" "from mod minute_ns < minute_ns" by simp_all
  then show "from < cron_start from" "cron_start from \<le> from + minute_ns"
    unfolding cron_start_def Truncate_minute_def by linarith+
  show "minute_ns dvd cron_start from"
    by (simp add: cron_start_def Truncate_minute_def minus_mod_eq_mult_div)
qed

lemma minutes_between:
  assumes "from < u" "minute_ns dvd u" and "u < cron_start from + int n * minute_ns"
  shows "\<exists>m<n. u = cron_start from + int m * minute_ns"
proof -
  obtain k where k: "u = minute_ns * k" using assms(2) by (elim dvdE)
  obtain c where c: "cron_start from = minute_ns * c" using cron_start_bounds(3) [of "from"] by (elim dvdE)
  have "cron_start from \<le> from + minute_ns" by (rule cron_start_bounds)
  with assms(1) k c have "minute_ns * (c - 1) < minute_ns * k" by (simp add: algebra_simps)
  then have "c \<le> k" by simp
  moreover from assms(3) k c have "minute_ns * k < minute_ns * (c + int n)" by (simp add: algebra_simps)
  then have "k < c + int n" by simp
  ultimately show ?thesis
    by (intro exI [of _ "nat (k - c)"]) (auto simp: k c algebra_simps)
qed

lemma cron_match_not_Err: "cron_match parts t \<noteq> Err e"
  by (auto simp: cron_match_def matchCronField_not_Err dest!: and_res_Err)

section \<open>What a field means\<close>

lemma show_nat_chars: "c \<in> set (show_nat n) \<Longrightarrow> is_digit c"
  using show_nat_digits [of n] by (simp add: list_all_iff)

lemma not_in_show_nat [simp]:
  "CHR ''-'' \<notin> set (show_nat n)" "CHR '','' \<notin> set (show_nat n)" "CHR ''*'' \<notin> set (show_nat n)"
  using show_nat_chars [of "CHR ''-''" n] show_nat_chars [of "CHR '',''" n]
    show_nat_chars [of "CHR ''*''" n] by (auto simp: is_digit_def)

lemma Split_char_none: "c \<notin> set s \<Longrightarrow> Split_char c s = [s]"
  by (induction s) auto

lemma Split_char_append: "c \<notin> set s \<Longrightarrow> Split_char c (s @ c # t) = s # Split_char c t"
  by (induction s) auto

definition join_comma :: "string list \<Rightarrow> string" where
  "join_comma ps = concat (map (\<lambda>p. CHR '','' # p) ps)"

lemma Split_char_join:
  "CHR '','' \<notin> set p \<Longrightarrow> list_all (\<lambda>p. CHR '','' \<notin> set p) ps \<Longrightarrow>
   Split_char (CHR '','') (p @ join_comma ps) = p # ps"
  by (induction ps arbitrary: p) (simp_all add: join_comma_def Split_char_none Split_char_append)

lemma not_space_digit: "is_digit c \<Longrightarrow> \<not> is_space [c]"
  by (auto simp: is_digit_def is_space_def)

lemma dropWhile_none: "list_all (\<lambda>c. \<not> P c) s \<Longrightarrow> dropWhile P s = s"
  by (cases s) auto

lemma TrimSpace_show_nat [simp]: "TrimSpace (show_nat n) = show_nat n"
proof -
  have "list_all (\<lambda>r. \<not> is_space r) (runes (show_nat n))"
    using show_nat_digits [of n] by (auto simp: runes_show_nat list_all_iff not_space_digit)
  then show ?thesis
    by (simp add: TrimSpace_def dropWhile_none list_all_rev)
qed

lemma Atoi_show_nat: "int n \<le> max_int64 \<Longrightarrow> Atoi (show_nat n) = Some (int n)"
  using Atoi_show_int [of "int n"] by (simp add: show_int_def in_int64_def min_int64_def max_int64_def)

lemma no_star_prefix: "CHR ''*'' \<notin> set s \<Longrightarrow> s \<noteq> ''*'' \<and> \<not> HasPrefix s ''*/''"
  by (cases s) (auto simp: HasPrefix_def)

lemma matchCronField_step:
  assumes "0 < n" "int n \<le> max_int64"
  shows "matchCronField (''*/'' @ show_nat n) v mn mx = Ret (int n dvd v)"
  using assms by (simp add: matchCronField_def HasPrefix_def Atoi_show_nat go_rem_eq_0_iff)

lemma matchCronField_range:
  assumes "int a \<le> max_int64" "int b \<le> max_int64"
  shows "matchCronField (show_nat a @ CHR ''-'' # show_nat b) v mn mx = Ret (int a \<le> v \<and> v \<le> int b)"
proof -
  let ?f = "show_nat a @ CHR ''-'' # show_nat b"
  have "CHR ''*'' \<notin> set ?f" by simp
  note no_star_prefix [OF this]
  moreover have "Split_char (CHR ''-'') ?f = [show_nat a, show_nat b]"
    by (simp add: Split_char_append Split_char_none)
  ultimately show ?thesis
    using assms by (simp add: matchCronField_def Contains_char_def Atoi_show_nat)
qed

lemma matchCronField_single:
  assumes "int a \<le> max_int64"
  shows "matchCronField (show_nat a) v mn mx = Ret (v = int a)"
  using assms no_star_prefix [of "show_nat a"]
  by (auto simp: matchCronField_def Contains_char_def Atoi_show_nat)

lemma join_comma_chars: "c \<in> set (join_comma (map show_nat ns)) \<Longrightarrow> c = CHR '','' \<or> is_digit c"
  by (auto simp: join_comma_def dest: show_nat_chars split: if_splits)

lemma matchCronField_list:
  assumes "list_all (\<lambda>n. int n \<le> max_int64) (a # b # ns)"
  shows "matchCronField (show_nat a @ join_comma (map show_nat (b # ns))) v mn mx =
    Ret (v \<in> int ` set (a # b # ns))"
proof -
  let ?f = "show_nat a @ join_comma (map show_nat (b # ns))"
  have c: "c \<in> set ?f \<Longrightarrow> c = CHR '','' \<or> is_digit c" for c
    using join_comma_chars [of c "b # ns"] by (auto dest: show_nat_chars)
  have "CHR ''*'' \<notin> set ?f" "CHR ''-'' \<notin> set ?f"
    using c [of "CHR ''*''"] c [of "CHR ''-''"] by (auto simp: is_digit_def)
  moreover have "CHR '','' \<in> set ?f" by (simp add: join_comma_def)
  moreover have "Split_char (CHR '','') ?f = map show_nat (a # b # ns)"
    by (subst Split_char_join) (simp_all add: list_all_iff)
  moreover have "list_ex (\<lambda>p. Atoi (TrimSpace p) = Some v) (map show_nat (a # b # ns)) \<longleftrightarrow>
      v \<in> int ` set (a # b # ns)"
    using assms by (auto simp: list_ex_iff list_all_iff Atoi_show_nat)
  ultimately show ?thesis
    using no_star_prefix [of ?f] by (simp add: matchCronField_def Contains_char_def)
qed

section \<open>Properties\<close>

text \<open>
  C10: A time returned by \<open>ParseCron\<close> is the first whole minute after \<open>from\<close> at which all five
  fields match.
\<close>

theorem ParseCron_least:
  assumes "ParseCron expr from = Ret t"
  shows "from < t \<and> minute_ns dvd t \<and> cron_match (Fields expr) t = Ret True \<and>
    (\<forall>u. from < u \<and> u < t \<and> minute_ns dvd u \<longrightarrow> cron_match (Fields expr) u = Ret False)"
proof -
  obtain n where t: "t = cron_start from + int n * minute_ns" "cron_match (Fields expr) t = Ret True"
    and before: "\<And>m. m < n \<Longrightarrow> cron_match (Fields expr) (cron_start from + int m * minute_ns) = Ret False"
    using assms by (auto simp: ParseCron_def Let_def cron_loop_Ret cron_start_def split: if_splits)
  show ?thesis
  proof (intro conjI allI impI)
    show "from < t" using cron_start_bounds(1) [of "from"] t(1) by simp
    show "minute_ns dvd t" using cron_start_bounds(3) [of "from"] t(1) by simp
    show "cron_match (Fields expr) t = Ret True" by (rule t(2))
    fix u
    assume "from < u \<and> u < t \<and> minute_ns dvd u"
    then obtain m where "m < n" "u = cron_start from + int m * minute_ns"
      using minutes_between [of "from" u] t(1) by auto
    then show "cron_match (Fields expr) u = Ret False" using before by simp
  qed
qed

lemma ParseCron_least_witness:
  "ParseCron ''30 * * * *'' 0 = Ret (30 * minute_ns) \<and> 0 < 30 * minute_ns"
proof -
  have "ParseCron ''30 * * * *'' 0 = Ret (30 * minute_ns)" by code_simp
  from ParseCron_least [OF this] this show ?thesis by simp
qed

text \<open>
  C24: \<open>ParseCron\<close> finds a match when there is one: if all five fields match at some whole minute
  at most 366 days after \<open>from\<close> and no earlier minute panics, it returns a time not later.
\<close>

theorem ParseCron_complete:
  assumes "length (Fields expr) = 5" and "n < nat maxIterations"
    and "cron_match (Fields expr) (cron_start from + int n * minute_ns) = Ret True"
    and "\<And>m p. m < n \<Longrightarrow> cron_match (Fields expr) (cron_start from + int m * minute_ns) \<noteq> Panic p"
  shows "\<exists>t \<le> cron_start from + int n * minute_ns. ParseCron expr from = Ret t"
proof -
  let ?P = "\<lambda>k. cron_match (Fields expr) (cron_start from + int k * minute_ns) = Ret True"
  define k where "k = (LEAST k. ?P k)"
  have k: "?P k" "k \<le> n" "\<And>m. m < k \<Longrightarrow> \<not> ?P m"
    unfolding k_def by (rule LeastI [of ?P, OF assms(3)], rule Least_le [of ?P, OF assms(3)],
      erule not_less_Least)
  have "cron_match (Fields expr) (cron_start from + int m * minute_ns) = Ret False" if "m < k" for m
    using k(2) k(3) [of m] assms(4) [of m] that
      cron_match_not_Err [of "Fields expr" "cron_start from + int m * minute_ns"]
    by (cases "cron_match (Fields expr) (cron_start from + int m * minute_ns)") auto
  then have "cron_loop expr (Fields expr) 0 (cron_start from) = Ret (cron_start from + int k * minute_ns)"
    unfolding cron_loop_Ret using k(1,2) assms(2) by (intro exI [of _ k]) auto
  then show ?thesis
    using assms(1) k(2) by (auto simp: ParseCron_def Let_def cron_start_def)
qed

lemma ParseCron_complete_witness:
  "\<exists>t \<le> cron_start 0 + 2 * minute_ns. ParseCron ''*/3 * * * *'' 0 = Ret t"
proof -
  have "cron_match (Fields ''*/3 * * * *'') (cron_start 0 + int 2 * minute_ns) = Ret True"
    "cron_match (Fields ''*/3 * * * *'') (cron_start 0 + int 1 * minute_ns) = Ret False"
    "cron_match (Fields ''*/3 * * * *'') (cron_start 0 + int 0 * minute_ns) = Ret False"
    "length (Fields ''*/3 * * * *'') = 5"
    by code_simp+
  moreover have "2 < nat maxIterations" by (simp add: maxIterations_def)
  moreover have "cron_match (Fields ''*/3 * * * *'') (cron_start 0 + int m * minute_ns) \<noteq> Panic p"
    if "m < 2" for m p
    using that \<open>cron_match _ (_ + int 1 * _) = Ret False\<close> \<open>cron_match _ (_ + int 0 * _) = Ret False\<close>
    by (metis less_2_cases One_nat_def res.distinct(3))
  ultimately show ?thesis
    using ParseCron_complete [of "''*/3 * * * *''" 2 0] by simp
qed

text \<open>
  C37: What a cron field means, for literals in the range of an \<open>int\<close>: \<open>*/n\<close> matches the
  multiples of \<open>n\<close>, \<open>a-b\<close> the values between, a number itself, and a comma list its members.
\<close>

theorem matchCronField_meaning:
  assumes "0 < n" and "list_all (\<lambda>n. int n \<le> max_int64) (n # a # b # cs)"
  shows "matchCronField ''*'' v mn mx = Ret True \<and>
    matchCronField (''*/'' @ show_nat n) v mn mx = Ret (int n dvd v) \<and>
    matchCronField (show_nat a @ CHR ''-'' # show_nat b) v mn mx = Ret (int a \<le> v \<and> v \<le> int b) \<and>
    matchCronField (show_nat a) v mn mx = Ret (v = int a) \<and>
    matchCronField (show_nat a @ join_comma (map show_nat (b # cs))) v mn mx =
      Ret (v \<in> int ` set (a # b # cs))"
proof (intro conjI)
  show "matchCronField ''*'' v mn mx = Ret True" by (simp add: matchCronField_def)
  show "matchCronField (''*/'' @ show_nat n) v mn mx = Ret (int n dvd v)"
    using assms by (intro matchCronField_step) simp_all
  show "matchCronField (show_nat a @ CHR ''-'' # show_nat b) v mn mx = Ret (int a \<le> v \<and> v \<le> int b)"
    using assms by (intro matchCronField_range) simp_all
  show "matchCronField (show_nat a) v mn mx = Ret (v = int a)"
    using assms by (intro matchCronField_single) simp
  show "matchCronField (show_nat a @ join_comma (map show_nat (b # cs))) v mn mx =
      Ret (v \<in> int ` set (a # b # cs))"
    using assms(2) by (intro matchCronField_list) simp
qed

lemma matchCronField_meaning_witness:
  "matchCronField (show_nat 3 @ join_comma (map show_nat [5, 9])) 5 0 59 = Ret True"
  using matchCronField_meaning [of 1 3 5 "[9]" 5 0 59] by (simp add: max_int64_def)

text \<open>
  An expression that does not have five fields is an error, and a step of 0 in the minute
  field is accepted by the parser and then divides by zero.
\<close>

theorem ParseCron_rejects_and_panics:
  "(length (Fields expr) \<noteq> 5 \<longrightarrow> (\<exists>e. ParseCron expr from = Err e)) \<and>
   ParseCron ''*/0 * * * *'' from = Panic ''integer divide by zero''"
proof -
  have f: "Fields ''*/0 * * * *'' = [''*/0'', ''*'', ''*'', ''*'', ''*'']" by code_simp
  have m: "matchCronField ''*/0'' v 0 59 = Panic ''integer divide by zero''" for v
    by (simp add: matchCronField_def HasPrefix_def Atoi_def parse_int_def parse_digits_def is_digit_def
        digits_val_def digit_val_def in_int64_def min_int64_def max_int64_def)
  show ?thesis
    by (simp add: ParseCron_def Let_def f m cron_loop.simps cron_match_def maxIterations_def)
qed

lemma ParseCron_rejects_and_panics_witness: "\<exists>e. ParseCron ''* * *'' 0 = Err e"
proof -
  have "length (Fields ''* * *'') \<noteq> 5" by code_simp
  with ParseCron_rejects_and_panics [of "''* * *''" 0] show ?thesis by blast
qed

end
