(* ===== verification/System.thy ===== *)
theory System
  imports Metrics Redis_Lock Queue_Facts Store_Facts Cron
begin

text \<open>
  The state the scheduler and the workers act on, and the flow of control of their methods: a call
  returns a value, an error or a panic, and the state it leaves.
\<close>

section \<open>State\<close>

record ('r, 'p) sys =
  sy_redis :: 'r
  sy_pg :: 'p
  sy_metrics :: Collector

text \<open>
  What one call takes from outside: the result of \<open>uuid.New()\<close>, the random bytes of a lock token, and
  the readings of the clock, numbered in the order the code takes them or named by the key handled.
\<close>

record inputs =
  in_uuid :: uuid
  in_bytes :: entropy
  in_now :: "nat \<Rightarrow> go_time"
  in_key_now :: "string \<Rightarrow> go_time"

text \<open>Redis and PostgreSQL, both undisturbed.\<close>

locale deployment = redis_isolated R view + postgres P tables
  for R :: "'r redis" and view and P :: "'p pg" and tables

interpretation demo: deployment mem_redis "\<lambda>s. s" mem_pg "\<lambda>s. s"
  by unfold_locales

section \<open>Flow of control\<close>

definition ret :: "'a \<Rightarrow> 's \<Rightarrow> 'a res \<times> 's" where
  "ret x s = (Ret x, s)"

definition fail :: "go_error \<Rightarrow> 's \<Rightarrow> 'a res \<times> 's" where
  "fail e s = (Err e, s)"

definition lift_res :: "'a res \<Rightarrow> 's \<Rightarrow> 'a res \<times> 's" where
  "lift_res x s = (x, s)"

text \<open>\<open>x, err := m(); if err != nil { return err }; k(x)\<close>\<close>

definition andthen :: "('s \<Rightarrow> 'a res \<times> 's) \<Rightarrow> ('a \<Rightarrow> 's \<Rightarrow> 'b res \<times> 's) \<Rightarrow> 's \<Rightarrow> 'b res \<times> 's" where
  "andthen m k s =
     (case m s of
        (Ret x, s') \<Rightarrow> k x s'
      | (Err e, s') \<Rightarrow> (Err e, s')
      | (Panic t, s') \<Rightarrow> (Panic t, s'))"

text \<open>\<open>return fmt.Errorf("...: %w", err)\<close> for the error of \<open>m\<close>.\<close>

definition wrapping :: "string \<Rightarrow> ('s \<Rightarrow> 'a res \<times> 's) \<Rightarrow> 's \<Rightarrow> 'a res \<times> 's" where
  "wrapping what m s = (case m s of (x, s') \<Rightarrow> (map_err (wrapf what) x, s'))"

text \<open>An error is only logged and the code goes on.\<close>

definition logged :: "('s \<Rightarrow> 'a res \<times> 's) \<Rightarrow> 's \<Rightarrow> unit res \<times> 's" where
  "logged m s =
     (case m s of (Ret _, s') \<Rightarrow> (Ret (), s') | (Err _, s') \<Rightarrow> (Ret (), s') | (Panic t, s') \<Rightarrow> (Panic t, s'))"

definition on_redis :: "('r \<Rightarrow> 'a res \<times> 'r) \<Rightarrow> ('r, 'p, 'x) sys_scheme \<Rightarrow> 'a res \<times> ('r, 'p, 'x) sys_scheme" where
  "on_redis f s = (case f (sy_redis s) of (x, r) \<Rightarrow> (x, s\<lparr>sy_redis := r\<rparr>))"

definition on_pg :: "('p \<Rightarrow> 'a res \<times> 'p) \<Rightarrow> ('r, 'p, 'x) sys_scheme \<Rightarrow> 'a res \<times> ('r, 'p, 'x) sys_scheme" where
  "on_pg f s = (case f (sy_pg s) of (x, p) \<Rightarrow> (x, s\<lparr>sy_pg := p\<rparr>))"

definition meter :: "(Collector \<Rightarrow> Collector) \<Rightarrow> ('r, 'p, 'x) sys_scheme \<Rightarrow> unit res \<times> ('r, 'p, 'x) sys_scheme" where
  "meter f s = (Ret (), s\<lparr>sy_metrics := f (sy_metrics s)\<rparr>)"

lemma flow_simps [simp]:
  "ret x s = (Ret x, s)" "fail e s = (Err e, s)" "lift_res y s = (y, s)"
  "meter f t = (Ret (), t\<lparr>sy_metrics := f (sy_metrics t)\<rparr>)"
  by (simp_all add: ret_def fail_def lift_res_def meter_def)

lemma andthen_case [simp]:
  "m s = (Ret x, s') \<Longrightarrow> andthen m k s = k x s'"
  "m s = (Err e, s') \<Longrightarrow> andthen m k s = (Err e, s')"
  "m s = (Panic t, s') \<Longrightarrow> andthen m k s = (Panic t, s')"
  by (simp_all add: andthen_def)

lemma wrapping_case [simp]:
  "m s = (Ret x, s') \<Longrightarrow> wrapping w m s = (Ret x, s')"
  "m s = (Err e, s') \<Longrightarrow> wrapping w m s = (Err (wrapf w e), s')"
  "m s = (Panic t, s') \<Longrightarrow> wrapping w m s = (Panic t, s')"
  by (simp_all add: wrapping_def)

lemma logged_case [simp]:
  "m s = (Ret x, s') \<Longrightarrow> logged m s = (Ret (), s')"
  "m s = (Err e, s') \<Longrightarrow> logged m s = (Ret (), s')"
  "m s = (Panic t, s') \<Longrightarrow> logged m s = (Panic t, s')"
  by (simp_all add: logged_def)

lemma on_state_case [simp]:
  "f (sy_redis s) = (x, r) \<Longrightarrow> on_redis f s = (x, s\<lparr>sy_redis := r\<rparr>)"
  "g (sy_pg s) = (y, p) \<Longrightarrow> on_pg g s = (y, s\<lparr>sy_pg := p\<rparr>)"
  by (simp_all add: on_redis_def on_pg_def)

text \<open>What holds after every statement holds after the whole.\<close>

lemma andthen_keeps:
  assumes "\<And>s. I s \<Longrightarrow> I (snd (m s))" and "\<And>x s. I s \<Longrightarrow> I (snd (k x s))" and "I s"
  shows "I (snd (andthen m k s))"
  using assms(1) [OF assms(3)] assms(2) by (cases "m s") (auto simp: andthen_def split: res.splits)

lemma wrapping_state [simp]: "snd (wrapping w m s) = snd (m s)" "snd (logged m s) = snd (m s)"
  by (auto simp: wrapping_def logged_def split: prod.splits res.splits)

lemma on_state_sel [simp]:
  "sy_redis (snd (on_redis f s)) = snd (f (sy_redis s))" "sy_pg (snd (on_redis f s)) = sy_pg s"
  "sy_pg (snd (on_pg g s)) = snd (g (sy_pg s))" "sy_redis (snd (on_pg g s)) = sy_redis s"
  by (simp_all add: on_redis_def on_pg_def split: prod.splits)

end
