(* ===== verification/Scheduler_Core.thy ===== *)
theory Scheduler_Core
  imports System "HOL-Library.AList"
begin

text \<open>
  \<open>internal/scheduler/scheduler.go\<close>: the scheduler core, over any queue, store and locker. The table of
  cron jobs is part of its state.
\<close>

record ('r, 'p) Core =
  c_queue :: "'r Queue"
  c_store :: "'p Store"
  c_locker :: "'r Locker"
  c_uuid :: uuid_lib

record ('r, 'p) core_state = "('r, 'p) sys" +
  cronJobs :: "(string \<times> Job) list"

definition NewCore :: "'r Queue \<Rightarrow> 'p Store \<Rightarrow> 'r Locker \<Rightarrow> uuid_lib \<Rightarrow> ('r, 'p) Core" where
  "NewCore q s l U = \<lparr>c_queue = q, c_store = s, c_locker = l, c_uuid = U\<rparr>"

definition init_core :: "'r \<Rightarrow> 'p \<Rightarrow> ('r, 'p) core_state" where
  "init_core r p = \<lparr>sy_redis = r, sy_pg = p, sy_metrics = NewCollector, cronJobs = []\<rparr>"

section \<open>Calls of the API\<close>

text \<open>
  Readings of the clock: 0 the start, 1 to 3 in \<open>NewJob\<close>, 4 for the next cron run, 5 in \<open>Enqueue\<close>,
  6 at the end.
\<close>

definition SubmitJob ::
  "('r, 'p) Core \<Rightarrow> inputs \<Rightarrow> SubmitJobRequest \<Rightarrow> ('r, 'p) core_state \<Rightarrow> Job res \<times> ('r, 'p) core_state" where
  "SubmitJob C i req =
     andthen (wrapping ''create job: ''
         (lift_res (NewJob (in_uuid i) (in_now i 1) (in_now i 2) (in_now i 3) (req_Type req) (req_Payload req)
            ([WithPriority (req_Priority req), WithMaxRetries (req_MaxRetries req), WithTimeout (req_Timeout req)] @
             (case req_ScheduledAt req of None \<Rightarrow> [] | Some t \<Rightarrow> [WithScheduledAt t]) @
             (if req_Cron req \<noteq> '''' then [WithCron (req_Cron req)] else [])))))
       (\<lambda>job0. andthen
         (if req_Cron req \<noteq> '''' then
            andthen (wrapping ''parse cron: '' (lift_res (ParseCron (req_Cron req) (in_now i 4))))
              (\<lambda>nxt. ret (job0\<lparr>job_CronNextRun := Some nxt\<rparr>))
          else ret job0)
         (\<lambda>job. andthen (wrapping ''persist job: '' (on_pg (s_CreateJob (c_store C) job)))
           (\<lambda>_. andthen (logged (on_redis (q_Enqueue (c_queue C) (in_now i 5) job)))
             (\<lambda>_. andthen (meter (RecordJobSubmitted (job_Type job) (job_Priority job)))
               (\<lambda>_. andthen (meter (RecordEnqueueLatency (time_Sub (in_now i 6) (in_now i 0))))
                 (\<lambda>_. ret job))))))"

definition Core_GetJob ::
  "('r, 'p) Core \<Rightarrow> uuid \<Rightarrow> ('r, 'p) core_state \<Rightarrow> Job res \<times> ('r, 'p) core_state" where
  "Core_GetJob C u = on_pg (s_GetJob (c_store C) u)"

definition GetJobStatus ::
  "('r, 'p) Core \<Rightarrow> uuid \<Rightarrow> ('r, 'p) core_state \<Rightarrow> JobStatusResponse res \<times> ('r, 'p) core_state" where
  "GetJobStatus C u =
     andthen (on_pg (s_GetJob (c_store C) u))
       (\<lambda>job. ret \<lparr>st_ID = job_ID job, st_Type = job_Type job, st_Status = job_Status job,
          st_Priority = job_Priority job, st_RetryCount = job_RetryCount job, st_MaxRetries = job_MaxRetries job,
          st_ScheduledAt = job_ScheduledAt job, st_StartedAt = job_StartedAt job,
          st_CompletedAt = job_CompletedAt job, st_WorkerID = job_WorkerID job,
          st_ErrorMessage = job_ErrorMessage job, st_Cron = job_CronExpression job\<rparr>)"

definition Core_DeleteJob ::
  "('r, 'p) Core \<Rightarrow> uuid \<Rightarrow> ('r, 'p) core_state \<Rightarrow> unit res \<times> ('r, 'p) core_state" where
  "Core_DeleteJob C u =
     andthen (on_pg (s_GetJob (c_store C) u))
       (\<lambda>job. if job_Status job = JobStatusRunning then fail (errorf ''cannot delete a running job'')
              else on_pg (s_DeleteJob (c_store C) u))"

text \<open>Readings of the clock: 0 the new scheduled time, 1 in \<open>Enqueue\<close>.\<close>

definition RetryJob ::
  "('r, 'p) Core \<Rightarrow> inputs \<Rightarrow> uuid \<Rightarrow> ('r, 'p) core_state \<Rightarrow> unit res \<times> ('r, 'p) core_state" where
  "RetryJob C i u =
     andthen (on_pg (s_GetJob (c_store C) u))
       (\<lambda>job. if \<not> IsTerminal (job_Status job)
              then fail (errorf (''job status '' @ job_Status job @ '' does not allow retry''))
              else
                let job = job\<lparr>job_RetryCount := 0, job_Status := JobStatusPending, job_ErrorMessage := '''',
                      job_WorkerID := '''', job_ScheduledAt := in_now i 0, job_StartedAt := None,
                      job_CompletedAt := None\<rparr>
                in andthen (wrapping ''update job status: ''
                       (on_pg (s_UpdateJobStatus (c_store C) (job_ID job) JobStatusPending [])))
                     (\<lambda>_. andthen (wrapping ''enqueue job: '' (on_redis (q_Enqueue (c_queue C) (in_now i 1) job)))
                       (\<lambda>_. meter (RecordJobRetried (job_Type job)))))"

text \<open>
  Readings of the clock: 0 for the next run, 1 to 3 in \<open>NewJob\<close>. A Go map holds one value per key.
\<close>

definition RegisterCronJob ::
  "('r, 'p) Core \<Rightarrow> inputs \<Rightarrow> SubmitJobRequest \<Rightarrow> ('r, 'p) core_state \<Rightarrow> Job res \<times> ('r, 'p) core_state" where
  "RegisterCronJob C i req =
     (if req_Cron req = '''' then fail (errorf ''cron expression is required'')
      else
        andthen (wrapping ''invalid cron expression: '' (lift_res (ParseCron (req_Cron req) (in_now i 0))))
          (\<lambda>nxt. andthen (wrapping ''create cron job: ''
              (lift_res (NewJob (in_uuid i) (in_now i 1) (in_now i 2) (in_now i 3) (req_Type req) (req_Payload req)
                 [WithPriority (req_Priority req), WithMaxRetries (req_MaxRetries req),
                  WithTimeout (req_Timeout req), WithCron (req_Cron req)])))
            (\<lambda>job0. let job = job0\<lparr>job_CronNextRun := Some nxt, job_Status := JobStatusPending\<rparr>
              in andthen (wrapping ''persist cron job: '' (on_pg (s_CreateJob (c_store C) job)))
                   (\<lambda>_ s. let cs = AList.update (u_String (c_uuid C) (job_ID job)) job (cronJobs s)
                          in (Ret job, s\<lparr>cronJobs := cs,
                                sy_metrics := SetCronJobsActive (int (length cs)) (sy_metrics s)\<rparr>)))))"

definition Core_ListJobs ::
  "('r, 'p) Core \<Rightarrow> JobFilter \<Rightarrow> ('r, 'p) core_state \<Rightarrow> (Job list \<times> int) res \<times> ('r, 'p) core_state" where
  "Core_ListJobs C f = on_pg (s_ListJobs (c_store C) f)"

definition Core_GetQueueStats ::
  "('r, 'p) Core \<Rightarrow> ('r, 'p) core_state \<Rightarrow> QueueStats res \<times> ('r, 'p) core_state" where
  "Core_GetQueueStats C = on_pg (s_GetQueueStats (c_store C))"

definition Core_GetDLQ ::
  "('r, 'p) Core \<Rightarrow> int \<Rightarrow> int \<Rightarrow> ('r, 'p) core_state \<Rightarrow> Job list res \<times> ('r, 'p) core_state" where
  "Core_GetDLQ C limit offset = on_redis (q_GetDLQ (c_queue C) limit offset)"

section \<open>Background work\<close>

text \<open>
  Readings of the clock: 0 the start, 1 in \<open>MoveDelayed\<close>, 2 at the end. The lock is released when the
  function returns, whatever happened in between; the error of the release is dropped.
\<close>

definition delayed_lock :: string where
  "delayed_lock = ''delayed-job-processor''"

definition processDelayedJobs ::
  "('r, 'p) Core \<Rightarrow> inputs \<Rightarrow> ('r, 'p) core_state \<Rightarrow> ('r, 'p) core_state" where
  "processDelayedJobs C i s =
     (case lk_Acquire (c_locker C) (in_bytes i) delayed_lock (5 * second) (sy_redis s) of
        (Ret token, r1) \<Rightarrow>
          (case q_MoveDelayed (c_queue C) (in_now i 1) 1000 r1 of
             ((moved, err), r2) \<Rightarrow>
               let m = (if err = None \<and> moved > 0
                        then RecordSchedulerLoop (time_Sub (in_now i 2) (in_now i 0))
                               (RecordDelayedJobsMoved moved (sy_metrics s))
                        else sy_metrics s)
               in s\<lparr>sy_redis := snd (lk_Release (c_locker C) delayed_lock token r2), sy_metrics := m\<rparr>)
      | (_, r1) \<Rightarrow> s\<lparr>sy_redis := r1\<rparr>)"

text \<open>The outcome of \<open>ReclaimOrphaned\<close> is only logged.\<close>

definition reclaimOrphanedJobs ::
  "('r, 'p) Core \<Rightarrow> inputs \<Rightarrow> ('r, 'p) core_state \<Rightarrow> unit res \<times> ('r, 'p) core_state" where
  "reclaimOrphanedJobs C i = logged (on_redis (q_ReclaimOrphaned (c_queue C) (in_key_now i) (2 * minute)))"

text \<open>
  Readings of the clock: 1 to 3 in \<open>NewJob\<close>, 4 in \<open>Enqueue\<close>, 5 for the next run. Every error is logged
  and ends the function; the cron job is the entry of the table the pointer leads to.
\<close>

definition scheduleCronInstance ::
  "('r, 'p) Core \<Rightarrow> inputs \<Rightarrow> string \<Rightarrow> Job \<Rightarrow> ('r, 'p) core_state \<Rightarrow> unit res \<times> ('r, 'p) core_state" where
  "scheduleCronInstance C i key cronJob =
     logged (andthen
       (lift_res (NewJob (in_uuid i) (in_now i 1) (in_now i 2) (in_now i 3) (job_Type cronJob) (job_Payload cronJob)
          [WithPriority (job_Priority cronJob), WithMaxRetries (job_MaxRetries cronJob), WithTimeout (job_Timeout cronJob)]))
       (\<lambda>inst. andthen (on_pg (s_CreateJob (c_store C) inst))
         (\<lambda>_. andthen (on_redis (q_Enqueue (c_queue C) (in_now i 4) inst))
           (\<lambda>_. andthen (lift_res (ParseCron (job_CronExpression cronJob) (in_now i 5)))
             (\<lambda>nxt s. (Ret (), s\<lparr>cronJobs := AList.update key (cronJob\<lparr>job_CronNextRun := Some nxt\<rparr>) (cronJobs s),
                sy_metrics := RecordJobSubmitted (job_Type inst) (job_Priority inst) (sy_metrics s)\<rparr>))))))"

text \<open>
  \<open>keys\<close> are the keys of the table in the order Go ranges over it, \<open>now\<close> is the time the loop compares
  with, and \<open>ins\<close> what each instance takes from outside.
\<close>

fun cron_pass ::
  "('r, 'p) Core \<Rightarrow> go_time \<Rightarrow> (string \<Rightarrow> inputs) \<Rightarrow> string list \<Rightarrow> ('r, 'p) core_state \<Rightarrow>
   unit res \<times> ('r, 'p) core_state" where
  "cron_pass C now ins [] s = (Ret (), s)"
| "cron_pass C now ins (k # ks) s =
     (case map_of (cronJobs s) k of
        None \<Rightarrow> cron_pass C now ins ks s
      | Some job \<Rightarrow>
          (case job_CronNextRun job of
             Some t \<Rightarrow>
               if t < now then andthen (scheduleCronInstance C (ins k) k job) (\<lambda>_. cron_pass C now ins ks) s
               else cron_pass C now ins ks s
           | None \<Rightarrow> cron_pass C now ins ks s))"

definition processCronJobs ::
  "('r, 'p) Core \<Rightarrow> go_time \<Rightarrow> (string \<Rightarrow> inputs) \<Rightarrow> string list \<Rightarrow> ('r, 'p) core_state \<Rightarrow>
   unit res \<times> ('r, 'p) core_state" where
  "processCronJobs C now ins order s = cron_pass C now ins order s"

section \<open>Loops\<close>

text \<open>
  The three background goroutines wait in a \<open>select\<close> for the end of the context, for \<open>cronStop\<close>, or
  for their ticker. A run is the list of what they saw; a panic ends the process.
\<close>

datatype 'i loop_event = CtxDone | CronStop | TickerC 'i

fun ticker_loop :: "('i \<Rightarrow> 's \<Rightarrow> unit res \<times> 's) \<Rightarrow> 'i loop_event list \<Rightarrow> 's \<Rightarrow> unit option res \<times> 's" where
  "ticker_loop body [] s = (Ret None, s)"
| "ticker_loop body (CtxDone # es) s = (Ret (Some ()), s)"
| "ticker_loop body (CronStop # es) s = (Ret (Some ()), s)"
| "ticker_loop body (TickerC i # es) s = andthen (body i) (\<lambda>_. ticker_loop body es) s"

definition delayedJobLoop ::
  "('r, 'p) Core \<Rightarrow> inputs loop_event list \<Rightarrow> ('r, 'p) core_state \<Rightarrow> unit option res \<times> ('r, 'p) core_state" where
  "delayedJobLoop C = ticker_loop (\<lambda>i s. (Ret (), processDelayedJobs C i s))"

definition reclaimLoop ::
  "('r, 'p) Core \<Rightarrow> inputs loop_event list \<Rightarrow> ('r, 'p) core_state \<Rightarrow> unit option res \<times> ('r, 'p) core_state" where
  "reclaimLoop C = ticker_loop (reclaimOrphanedJobs C)"

definition cronLoop ::
  "('r, 'p) Core \<Rightarrow> (go_time \<times> (string \<Rightarrow> inputs) \<times> string list) loop_event list \<Rightarrow> ('r, 'p) core_state \<Rightarrow>
   unit option res \<times> ('r, 'p) core_state" where
  "cronLoop C = ticker_loop (\<lambda>(now, ins, order). processCronJobs C now ins order)"

end
