(* ===== verification/Http_Api.thy ===== *)
theory Http_Api
  imports Scheduler_Core
begin

text \<open>
  \<open>internal/scheduler/api.go\<close>: the HTTP API. Routing by \<open>chi\<close>, rendering by \<open>go-chi/render\<close> and the
  parsing of the request by \<open>net/http\<close> are not part of the repository: the model starts from the
  endpoint the router picked and the values the handler reads from the request, and the renderer is a
  parameter.
\<close>

section \<open>Requests, responses and routes\<close>

record http_reply =
  rp_status :: int
  rp_body :: "json option"

text \<open>
  The request as the handlers read it: the URL parameter \<open>id\<close>, the query parameters (an absent one is
  empty), and the JSON text of the body, or the error of reading or parsing it.
\<close>

record api_request =
  ar_id :: string
  ar_query :: "string \<Rightarrow> string"
  ar_body :: "go_error + json"

text \<open>
  \<open>render.JSON\<close> after \<open>render.Status\<close>: from the status and the encoded value, or the error of encoding
  it, to what is sent.
\<close>

type_synonym renderer = "int \<Rightarrow> json res \<Rightarrow> http_reply"

datatype endpoint = SubmitJobE | ListJobsE | GetJobE | GetJobStatusE | DeleteJobE | RetryJobE | HealthE | MetricsE

definition setupRoutes :: "(string \<times> string \<times> endpoint) list" where
  "setupRoutes =
     [(''POST'', ''/jobs/'', SubmitJobE), (''GET'', ''/jobs/'', ListJobsE),
      (''GET'', ''/jobs/{id}/'', GetJobE), (''GET'', ''/jobs/{id}/status'', GetJobStatusE),
      (''DELETE'', ''/jobs/{id}/'', DeleteJobE), (''POST'', ''/jobs/{id}/retry'', RetryJobE),
      (''GET'', ''/health'', HealthE), (''GET'', ''/metrics'', MetricsE)]"

definition renderJSON :: "renderer \<Rightarrow> int \<Rightarrow> json res \<Rightarrow> http_reply" where
  "renderJSON V status v = V status v"

definition renderError :: "renderer \<Rightarrow> int \<Rightarrow> string \<Rightarrow> http_reply" where
  "renderError V status message = renderJSON V status (Ret (JObj [(''error'', JStr (json_string message))]))"

section \<open>JSON forms of the responses\<close>

definition marshal_times :: "go_time list \<Rightarrow> json \<Rightarrow> json res" where
  "marshal_times ts j =
     (if list_all time_encodable ts then Ret j
      else Err (Opaque ''json: error calling MarshalJSON for type time.Time: year outside of range [0,9999]''))"

definition marshal_response :: "uuid_lib \<Rightarrow> JobResponse \<Rightarrow> json res" where
  "marshal_response U r = marshal_times [resp_CreatedAt r]
     (JObj [(''id'', JStr (u_String U (resp_ID r))), (''status'', JStr (json_string (resp_Status r))),
            (''created_at'', JTime (resp_CreatedAt r))])"

definition marshal_status :: "uuid_lib \<Rightarrow> JobStatusResponse \<Rightarrow> json res" where
  "marshal_status U r =
     marshal_times ([st_ScheduledAt r] @ List.map_filter id [st_StartedAt r, st_CompletedAt r])
     (JObj ([(''id'', JStr (u_String U (st_ID r))), (''type'', JStr (json_string (st_Type r))),
             (''status'', JStr (json_string (st_Status r))),
             (''priority'', JNum (st_Priority r)), (''retry_count'', JNum (st_RetryCount r)),
             (''max_retries'', JNum (st_MaxRetries r)), (''scheduled_at'', JTime (st_ScheduledAt r))] @
            omit_time ''started_at'' (st_StartedAt r) @ omit_time ''completed_at'' (st_CompletedAt r) @
            omit_str ''worker_id'' (st_WorkerID r) @ omit_str ''error_message'' (st_ErrorMessage r) @
            omit_str ''cron'' (st_Cron r)))"

text \<open>A Go map is encoded with its keys in order.\<close>

definition marshal_page :: "uuid_lib \<Rightarrow> Job list \<Rightarrow> int \<Rightarrow> JobFilter \<Rightarrow> json res" where
  "marshal_page U jobs tot f =
     bind_res (collect (Marshal_job U) jobs)
       (\<lambda>js. Ret (JObj [(''jobs'', JArr js), (''limit'', JNum (f_Limit f)), (''offset'', JNum (f_Offset f)),
                         (''total'', JNum tot)]))"

section \<open>Handlers\<close>

text \<open>A handler's answer, or its panic, and the state it leaves.\<close>

type_synonym ('r, 'p) handled = "http_reply res \<times> ('r, 'p) core_state"

definition answer :: "http_reply \<Rightarrow> 's \<Rightarrow> http_reply res \<times> 's" where
  "answer r s = (Ret r, s)"

definition on_result :: "('s \<Rightarrow> 'a res \<times> 's) \<Rightarrow> (go_error \<Rightarrow> http_reply) \<Rightarrow> ('a \<Rightarrow> http_reply) \<Rightarrow> 's \<Rightarrow> http_reply res \<times> 's" where
  "on_result m bad good s =
     (case m s of
        (Ret x, s') \<Rightarrow> (Ret (good x), s')
      | (Err e, s') \<Rightarrow> (Ret (bad e), s')
      | (Panic t, s') \<Rightarrow> (Panic t, s'))"

definition handleSubmitJob ::
  "('r, 'p) Core \<Rightarrow> renderer \<Rightarrow> inputs \<Rightarrow> api_request \<Rightarrow> ('r, 'p) core_state \<Rightarrow> ('r, 'p) handled" where
  "handleSubmitJob C V i rq =
     (case (case ar_body rq of Inl e \<Rightarrow> Err e | Inr v \<Rightarrow> unmarshal_submit v) of
        Err e \<Rightarrow> answer (renderError V 400 (''invalid request body: '' @ error_text e))
      | Panic t \<Rightarrow> (\<lambda>s. (Panic t, s))
      | Ret req \<Rightarrow>
          (case SubmitJobRequest_Validate req of
             Some e \<Rightarrow> answer (renderError V 400 (error_text e))
           | None \<Rightarrow>
               on_result (if req_Cron req \<noteq> '''' then RegisterCronJob C i req else SubmitJob C i req)
                 (\<lambda>e. renderError V 500 (''failed to submit job: '' @ error_text e))
                 (\<lambda>job. renderJSON V 201 (marshal_response (c_uuid C)
                    \<lparr>resp_ID = job_ID job, resp_Status = job_Status job, resp_CreatedAt = job_CreatedAt job\<rparr>))))"

text \<open>The first lines of the handlers of a single job.\<close>

definition with_id ::
  "('r, 'p) Core \<Rightarrow> renderer \<Rightarrow> api_request \<Rightarrow> (uuid \<Rightarrow> ('r, 'p) core_state \<Rightarrow> ('r, 'p) handled) \<Rightarrow>
   ('r, 'p) core_state \<Rightarrow> ('r, 'p) handled" where
  "with_id C V rq k =
     (case u_Parse (c_uuid C) (ar_id rq) of
        None \<Rightarrow> answer (renderError V 400 ''invalid job id'')
      | Some u \<Rightarrow> k u)"

text \<open>\<open>err == models.ErrJobNotFound\<close> compares the error itself, not what it wraps.\<close>

definition not_found_or :: "renderer \<Rightarrow> string \<Rightarrow> go_error \<Rightarrow> http_reply" where
  "not_found_or V what e =
     (if e = ErrJobNotFound then renderError V 404 ''job not found'' else renderError V 500 (what @ error_text e))"

definition handleGetJob ::
  "('r, 'p) Core \<Rightarrow> renderer \<Rightarrow> api_request \<Rightarrow> ('r, 'p) core_state \<Rightarrow> ('r, 'p) handled" where
  "handleGetJob C V rq =
     with_id C V rq (\<lambda>u. on_result (Core_GetJob C u) (not_found_or V ''failed to get job: '')
       (\<lambda>job. renderJSON V 200 (Marshal_job (c_uuid C) job)))"

definition handleGetJobStatus ::
  "('r, 'p) Core \<Rightarrow> renderer \<Rightarrow> api_request \<Rightarrow> ('r, 'p) core_state \<Rightarrow> ('r, 'p) handled" where
  "handleGetJobStatus C V rq =
     with_id C V rq (\<lambda>u. on_result (GetJobStatus C u) (not_found_or V ''failed to get job status: '')
       (\<lambda>st. renderJSON V 200 (marshal_status (c_uuid C) st)))"

definition handleDeleteJob ::
  "('r, 'p) Core \<Rightarrow> renderer \<Rightarrow> api_request \<Rightarrow> ('r, 'p) core_state \<Rightarrow> ('r, 'p) handled" where
  "handleDeleteJob C V rq =
     with_id C V rq (\<lambda>u. on_result (Core_DeleteJob C u) (not_found_or V ''failed to delete job: '')
       (\<lambda>_. \<lparr>rp_status = 204, rp_body = None\<rparr>))"

definition handleRetryJob ::
  "('r, 'p) Core \<Rightarrow> renderer \<Rightarrow> inputs \<Rightarrow> api_request \<Rightarrow> ('r, 'p) core_state \<Rightarrow> ('r, 'p) handled" where
  "handleRetryJob C V i rq =
     with_id C V rq (\<lambda>u. on_result (RetryJob C i u)
       (\<lambda>e. renderError V 500 (''failed to retry job: '' @ error_text e))
       (\<lambda>_. renderJSON V 200 (Ret (JObj [(''status'', JStr ''retry queued'')]))))"

text \<open>Query parameters that do not parse, or are out of range, are ignored.\<close>

definition list_filter :: "(string \<Rightarrow> string) \<Rightarrow> JobFilter" where
  "list_filter query =
     \<lparr>f_Status = (if query ''status'' \<noteq> '''' then Some (query ''status'') else None),
      f_Type = query ''type'',
      f_Priority = (case Atoi (query ''priority'') of Some p \<Rightarrow> if 0 \<le> p \<and> p \<le> 9 then Some p else None | None \<Rightarrow> None),
      f_WorkerID = query ''worker_id'',
      f_Limit = (case Atoi (query ''limit'') of Some l \<Rightarrow> if 0 < l \<and> l \<le> 1000 then l else 100 | None \<Rightarrow> 100),
      f_Offset = (case Atoi (query ''offset'') of Some o1 \<Rightarrow> if 0 \<le> o1 then o1 else 0 | None \<Rightarrow> 0),
      f_OrderBy = '''', f_OrderDesc = (query ''order'' = ''desc'')\<rparr>"

definition handleListJobs ::
  "('r, 'p) Core \<Rightarrow> renderer \<Rightarrow> api_request \<Rightarrow> ('r, 'p) core_state \<Rightarrow> ('r, 'p) handled" where
  "handleListJobs C V rq =
     (let f = list_filter (ar_query rq)
      in on_result (Core_ListJobs C f) (\<lambda>e. renderError V 500 (''failed to list jobs: '' @ error_text e))
           (\<lambda>(jobs, tot). renderJSON V 200 (marshal_page (c_uuid C) jobs tot f)))"

definition handleHealth :: "renderer \<Rightarrow> inputs \<Rightarrow> 's \<Rightarrow> http_reply res \<times> 's" where
  "handleHealth V i =
     answer (renderJSON V 200 (marshal_times [in_now i 0]
       (JObj [(''status'', JStr ''healthy''), (''timestamp'', JTime (in_now i 0))])))"

section \<open>The server\<close>

text \<open>The metrics page is the exporter's: \<open>metrics_page\<close> is what it answers.\<close>

definition handle ::
  "('r, 'p) Core \<Rightarrow> renderer \<Rightarrow> http_reply \<Rightarrow> endpoint \<Rightarrow> inputs \<Rightarrow> api_request \<Rightarrow> ('r, 'p) core_state \<Rightarrow> ('r, 'p) handled" where
  "handle C V metrics_page e i rq =
     (case e of
        SubmitJobE \<Rightarrow> handleSubmitJob C V i rq
      | ListJobsE \<Rightarrow> handleListJobs C V rq
      | GetJobE \<Rightarrow> handleGetJob C V rq
      | GetJobStatusE \<Rightarrow> handleGetJobStatus C V rq
      | DeleteJobE \<Rightarrow> handleDeleteJob C V rq
      | RetryJobE \<Rightarrow> handleRetryJob C V i rq
      | HealthE \<Rightarrow> handleHealth V i
      | MetricsE \<Rightarrow> answer metrics_page)"

text \<open>A panic of a handler is answered; nothing has been written before it.\<close>

definition recoveryMiddleware :: "renderer \<Rightarrow> ('s \<Rightarrow> http_reply res \<times> 's) \<Rightarrow> 's \<Rightarrow> http_reply res \<times> 's" where
  "recoveryMiddleware V h s =
     (case h s of
        (Panic t, s') \<Rightarrow> (Ret (renderError V 500 ''internal server error''), s')
      | (x, s') \<Rightarrow> (x, s'))"

definition ServeHTTP ::
  "('r, 'p) Core \<Rightarrow> renderer \<Rightarrow> http_reply \<Rightarrow> endpoint \<Rightarrow> inputs \<Rightarrow> api_request \<Rightarrow> ('r, 'p) core_state \<Rightarrow> ('r, 'p) handled" where
  "ServeHTTP C V metrics_page e i rq = recoveryMiddleware V (handle C V metrics_page e i rq)"

text \<open>
  \<open>loggingMiddleware\<close> is the outermost handler. It hands on a writer that remembers the status: every
  \<open>WriteHeader\<close> sets it, and goes on to the writer of \<open>net/http\<close>, which sends the first status only.
\<close>

record responseWriter =
  ww_statusCode :: int
  ww_sent :: "int option"

definition WriteHeader :: "int \<Rightarrow> responseWriter \<Rightarrow> responseWriter" where
  "WriteHeader code w = w\<lparr>ww_statusCode := code, ww_sent := (case ww_sent w of None \<Rightarrow> Some code | Some c \<Rightarrow> Some c)\<rparr>"

text \<open>What the log gets of a request, and the connection it comes from: the clock is read before and after.\<close>

record connection =
  cn_method :: string
  cn_path :: string
  cn_remote :: string
  cn_start :: go_time
  cn_end :: go_time

record access_log =
  al_method :: string
  al_path :: string
  al_status :: int
  al_duration :: int
  al_remote_addr :: string

definition loggingMiddleware ::
  "connection \<Rightarrow> ('s \<Rightarrow> http_reply res \<times> 's) \<Rightarrow> 's \<Rightarrow> (http_reply \<times> responseWriter \<times> access_log) res \<times> 's" where
  "loggingMiddleware c next_handler s =
     (case next_handler s of
        (Ret rp, s') \<Rightarrow>
          let ww = WriteHeader (rp_status rp) \<lparr>ww_statusCode = 200, ww_sent = None\<rparr>
          in (Ret (rp, ww, \<lparr>al_method = cn_method c, al_path = cn_path c, al_status = ww_statusCode ww,
                  al_duration = cn_end c - cn_start c, al_remote_addr = cn_remote c\<rparr>), s')
      | (Err e, s') \<Rightarrow> (Err e, s')
      | (Panic t, s') \<Rightarrow> (Panic t, s'))"

record ('r, 'p) Server =
  srv_core :: "('r, 'p) Core"
  srv_addr :: string

definition NewServer :: "('r, 'p) Core \<Rightarrow> string \<Rightarrow> ('r, 'p) Server" where
  "NewServer core addr = \<lparr>srv_core = core, srv_addr = addr\<rparr>"

definition Server_ServeHTTP ::
  "('r, 'p) Server \<Rightarrow> renderer \<Rightarrow> http_reply \<Rightarrow> connection \<Rightarrow> endpoint \<Rightarrow> inputs \<Rightarrow> api_request \<Rightarrow> ('r, 'p) core_state \<Rightarrow>
   (http_reply \<times> responseWriter \<times> access_log) res \<times> ('r, 'p) core_state" where
  "Server_ServeHTTP S V metrics_page c e i rq = loggingMiddleware c (ServeHTTP (srv_core S) V metrics_page e i rq)"

text \<open>\<open>Start\<close> returns only when \<open>net/http\<close> can no longer listen, with its error.\<close>

definition Server_Start :: "(string \<Rightarrow> go_error) \<Rightarrow> ('r, 'p) Server \<Rightarrow> go_error" where
  "Server_Start ListenAndServe S = ListenAndServe (srv_addr S)"

section \<open>Middleware the router does not use\<close>

text \<open>
  \<open>RequestIDMiddleware\<close> hands the request identifier on in the context: the header, or a fresh UUID.
  \<open>CORS\<close> sets its headers and answers a preflight request itself.
\<close>

definition RequestIDMiddleware :: "uuid_lib \<Rightarrow> uuid \<Rightarrow> (string \<Rightarrow> string) \<Rightarrow> (string \<Rightarrow> 's \<Rightarrow> 'a) \<Rightarrow> 's \<Rightarrow> 'a" where
  "RequestIDMiddleware U fresh header next_handler =
     (let rid = header ''X-Request-ID'' in next_handler (if rid = '''' then u_String U fresh else rid))"

definition CORS ::
  "string \<Rightarrow> ((string \<times> string) list \<Rightarrow> 's \<Rightarrow> http_reply res \<times> (string \<times> string) list \<times> 's) \<Rightarrow>
   (string \<times> string) list \<Rightarrow> 's \<Rightarrow> http_reply res \<times> (string \<times> string) list \<times> 's" where
  "CORS meth next_handler header s =
     (let header = AList.update ''Access-Control-Allow-Headers'' ''Content-Type, Authorization''
           (AList.update ''Access-Control-Allow-Methods'' ''GET, POST, DELETE, OPTIONS''
             (AList.update ''Access-Control-Allow-Origin'' ''*'' header))
      in if meth = ''OPTIONS'' then (Ret \<lparr>rp_status = 200, rp_body = None\<rparr>, header, s)
         else next_handler header s)"

end
