(* ===== verification/Core_Facts.thy ===== *)
theory Core_Facts
  imports Scheduler_Core
begin

text \<open>
  What the scheduler core does on the queue, the locker and the store it is built on.
\<close>

section \<open>Queue and lock on one Redis\<close>

text \<open>
  The core's queue and its locker work on the same server. Beyond the two contracts the core relies on
  the lock keeping out of the way of the queue, and on \<open>MoveDelayed\<close> keeping out of the way of the
  locks.
\<close>

locale shared_backend = job_queue Q U ok absq clock + lock_service L ok held clock later
  for Q :: "'r Queue" and U :: uuid_lib and ok :: "'r \<Rightarrow> bool" and absq :: "'r \<Rightarrow> aqueue" and clock :: "'r \<Rightarrow> int"
    and L :: "'r Locker" and held and later +
  assumes acquire_queue: "ok r \<Longrightarrow> absq (snd (lk_Acquire L b key ttl r)) = absq r"
    and release_queue: "ok r \<Longrightarrow> absq (snd (lk_Release L key tok r)) = absq r"
    and move_locks: "ok r \<Longrightarrow> held (snd (q_MoveDelayed Q now n r)) = held r"

lemma lease_frame: "\<forall>k. cmd_key c = Some k \<longrightarrow> key_kind k \<noteq> KLock \<Longrightarrow> lease (snd (redis_doc c s)) = lease s"
proof
  fix key
  assume "\<forall>k. cmd_key c = Some k \<longrightarrow> key_kind k \<noteq> KLock"
  then have "cmd_key c \<noteq> Some (lockKey key)" by auto
  then have "fmlookup (rs_db (snd (redis_doc c s))) (lockKey key) = fmlookup (rs_db s) (lockKey key)"
    by (rule redis_doc_frame)
  then show "lease (snd (redis_doc c s)) key = lease s key"
    unfolding lease_def entry_def redis_doc_now by simp
qed

lemma entry_put_lock: "key_kind k \<noteq> KLock \<Longrightarrow> entry (put (lockKey key) x s) k = entry s k"
  by (auto simp: entry_put)

lemma queue_put_lock [simp]: "queue_of (put (lockKey key) x s) = queue_of s"
  by (auto simp: queue_of_def fun_eq_iff list_at_def zset_at_def doc_at_def str_at_def entry_put_lock)

context redis_isolated
begin

lemma cmd_lease:
  assumes "\<forall>k. cmd_key c = Some k \<longrightarrow> key_kind k \<noteq> KLock"
  shows "lease (view (snd (rtt R (exec R c) r))) = lease (view r)"
  using lease_frame [OF assms, of "view r"] by (simp add: rtt_iso exec_view del: redis_doc.simps)

lemma fetch_job_lease: "lease (view (snd (fetch_job R U k r))) = lease (view r)"
  using cmd_lease [of "GET k" r] by (auto simp: fetch_job_def split: prod.splits sum.splits)

lemma move_loop_lease:
  assumes "list_all (\<lambda>c. \<forall>k. cmd_key c = Some k \<longrightarrow> key_kind k \<noteq> KLock) cmds"
  shows "lease (view (snd (move_loop R U ks n cmds r))) = lease (view r) \<and>
    list_all (\<lambda>c. \<forall>k. cmd_key c = Some k \<longrightarrow> key_kind k \<noteq> KLock) (snd (fst (move_loop R U ks n cmds r)))"
  using assms
proof (induction ks arbitrary: n cmds r)
  case (Cons k ks)
  obtain x r1 where x: "fetch_job R U k r = (x, r1)" by (cases "fetch_job R U k r")
  then have "lease (view r1) = lease (view r)" using fetch_job_lease [of U k r] by simp
  with x Cons show ?case by (cases x) simp_all
qed simp

lemma pipe_lease:
  assumes "list_all (\<lambda>c. \<forall>k. cmd_key c = Some k \<longrightarrow> key_kind k \<noteq> KLock) cs"
  shows "lease (view (snd (pipe R cs r))) = lease (view r)"
  by (rule alone.pipe_inv) (use assms lease_frame in \<open>auto simp: list_all_iff simp del: redis_doc.simps\<close>)

lemma MoveDelayed_lease: "lease (view (snd (MoveDelayed R U now n r))) = lease (view r)"
proof -
  define c where "c = ZRANGEBYSCORE delayedQueueKey 0 (UnixMilli now) (if n = 0 then None else Some n)"
  obtain y r1 where y: "rtt R (exec R c) r = (y, r1)" by (cases "rtt R (exec R c) r")
  have l1: "lease (view r1) = lease (view r)" using cmd_lease [of c r] y by (simp add: c_def)
  show ?thesis
  proof (cases y)
    case (Inr x)
    obtain m cmds r2 where m: "move_loop R U (reply_texts x) 0 [] r1 = ((m, cmds), r2)" by (metis surj_pair)
    then have "lease (view (snd (pipe R cmds r2))) = lease (view r1)"
      using move_loop_lease [of "[]" U "reply_texts x" 0 r1] pipe_lease [of cmds r2] by simp
    with l1 show ?thesis
      by (auto simp: MoveDelayed_def c_def [symmetric] y Inr m split: prod.splits sum.splits)
  qed (use y l1 in \<open>simp add: MoveDelayed_def c_def [symmetric]\<close>)
qed

end

sublocale redis_isolated \<subseteq> rb: shared_backend "RedisQueue R U" U "\<lambda>r. typed (view r)" "\<lambda>r. queue_of (view r)"
  "\<lambda>r. now_ms (view r)" "RedisLocker R" "\<lambda>r. lease (view r)" "lock_idle view"
proof unfold_locales
  fix r :: 'a and b key ttl tok now n
  assume t: "typed (view r)"
  show "queue_of (view (snd (lk_Acquire (RedisLocker R) b key ttl r))) = queue_of (view r)"
    using acquireScript_typed(2) [OF t] by (auto simp: RedisLocker_def Acquire_def rtt_iso split: res.splits sum.splits prod.splits)
  show "queue_of (view (snd (lk_Release (RedisLocker R) key tok r))) = queue_of (view r)"
    using releaseScript_typed(2) [OF t] by (auto simp: RedisLocker_def Release_def rtt_iso split: sum.splits prod.splits)
  show "lease (view (snd (q_MoveDelayed (RedisQueue R U) now n r))) = lease (view r)"
    by (simp add: RedisQueue_def MoveDelayed_lease)
qed

section \<open>The core on its parts\<close>

locale scheduler = shared_backend Q U ok absq clock L held later + job_store S rows
  for Q :: "'r Queue" and U ok absq clock L held later and S :: "'p Store" and rows

sublocale deployment \<subseteq> core: scheduler "RedisQueue R U" U "\<lambda>r. typed (view r)" "\<lambda>r. queue_of (view r)"
  "\<lambda>r. now_ms (view r)" "RedisLocker R" "\<lambda>r. lease (view r)" "lock_idle view"
  "PostgreSQLStore P" "\<lambda>p u. find_row u (tables p)"
  by unfold_locales

text \<open>What the options of a submission without a cron expression leave.\<close>

lemma NewJob_no_panic: "NewJob u t1 t2 t3 ty pl opts \<noteq> Panic m"
  by (auto simp: NewJob_def Let_def split: option.splits)

lemma NewJob_no_cron:
  assumes "NewJob u t1 t2 t3 ty pl ([WithPriority p, WithMaxRetries n, WithTimeout ms] @ map WithScheduledAt ts) = Ret job"
  shows "job_CronExpression job = ''''"
proof -
  have "job_CronExpression (fold (\<lambda>opt j. opt j) (map WithScheduledAt ts) j) = job_CronExpression j" for j :: Job
    by (induction ts arbitrary: j) (simp_all add: WithScheduledAt_def)
  with assms show ?thesis
    by (auto simp: NewJob_def Let_def job_option_defs split: if_splits option.splits)
qed

definition map_opt :: "'a option \<Rightarrow> 'a list" where
  "map_opt x = (case x of None \<Rightarrow> [] | Some y \<Rightarrow> [y])"

lemma sched_opts: "(case t of None \<Rightarrow> [] | Some x \<Rightarrow> [WithScheduledAt x]) = map WithScheduledAt (map_opt t)"
  by (simp add: map_opt_def split: option.split)

context shared_backend
begin

lemma processDelayedJobs_free:
  assumes "ok (sy_redis s)" "held (sy_redis s) delayed_lock = None" "in_bytes i = Inr b"
    and "c_queue C = Q" "c_locker C = L"
  shows "\<exists>r. processDelayedJobs C i s =
      s\<lparr>sy_redis := r, sy_metrics :=
          (if 0 < fst (spec_move U (in_now i 1) 1000 (absq (sy_redis s)))
           then RecordSchedulerLoop (time_Sub (in_now i 2) (in_now i 0))
             (RecordDelayedJobsMoved (fst (spec_move U (in_now i 1) 1000 (absq (sy_redis s)))) (sy_metrics s))
           else sy_metrics s)\<rparr> \<and>
    ok r \<and> held r = held (sy_redis s) \<and> absq r = snd (spec_move U (in_now i 1) 1000 (absq (sy_redis s)))"
proof -
  let ?r = "sy_redis s" and ?mv = "spec_move U (in_now i 1) 1000"
  have "0 < Milliseconds (5 * second)" by (simp add: Milliseconds_def go_quot_def second_def)
  then obtain r1 where r1: "lk_Acquire L (Inr b) delayed_lock (5 * second) ?r = (Ret (hex_encode b), r1)" "ok r1"
    "held r1 = (held ?r)(delayed_lock := Some (hex_encode b, Some (clock ?r + Milliseconds (5 * second))))"
    using acquire_free [OF assms(1,2), of "5 * second" b] by blast
  have q1: "absq r1 = absq ?r" using acquire_queue [OF assms(1), of "Inr b" delayed_lock "5 * second"] r1(1) by simp
  obtain r2 where r2: "q_MoveDelayed Q (in_now i 1) 1000 r1 = ((fst (?mv (absq r1)), None), r2)" "ok r2"
    "absq r2 = snd (?mv (absq r1))"
    using move_law [OF r1(2), of "in_now i 1" 1000] by blast
  have h2: "held r2 = held r1" using move_locks [OF r1(2), of "in_now i 1" 1000] r2(1) by simp
  then have "held r2 delayed_lock = Some (hex_encode b, Some (clock ?r + Milliseconds (5 * second)))"
    using r1(3) by simp
  then obtain r3 where r3: "lk_Release L delayed_lock (hex_encode b) r2 = (Ret (), r3)" "ok r3"
    "held r3 = (held r2)(delayed_lock := None)"
    using release_own [OF r2(2)] by blast
  have "held r3 = held ?r" using r3(3) h2 r1(3) assms(2) by (auto simp: fun_eq_iff)
  moreover have "absq r3 = snd (?mv (absq ?r))"
    using release_queue [OF r2(2), of delayed_lock "hex_encode b"] r3(1) r2(3) q1 by simp
  ultimately show ?thesis
    using r1(1) r2(1) r3 assms(3-5) q1 by (auto simp: processDelayedJobs_def Let_def)
qed

lemma processDelayedJobs_held:
  assumes "ok (sy_redis s)" "held (sy_redis s) delayed_lock \<noteq> None" "in_bytes i = Inr b" "c_locker C = L"
  shows "\<exists>r. processDelayedJobs C i s = s\<lparr>sy_redis := r\<rparr> \<and> ok r \<and> held r = held (sy_redis s) \<and>
    absq r = absq (sy_redis s)"
  using acquire_held [OF assms(1,2), of b "5 * second"]
    acquire_queue [OF assms(1), of "Inr b" delayed_lock "5 * second"] assms(3,4)
  by (auto simp: processDelayedJobs_def)

end

context job_store
begin

lemma SubmitJob_no_cron:
  assumes "req_Cron req = ''''" "c_store C = S"
  shows "\<exists>e p. SubmitJob C i req s = (Err e, s\<lparr>sy_pg := p\<rparr>) \<and> rows p = rows (sy_pg s)"
proof -
  let ?nj = "NewJob (in_uuid i) (in_now i 1) (in_now i 2) (in_now i 3) (req_Type req) (req_Payload req)
    ([WithPriority (req_Priority req), WithMaxRetries (req_MaxRetries req), WithTimeout (req_Timeout req)] @
      map WithScheduledAt (map_opt (req_ScheduledAt req)))"
  show ?thesis
  proof (cases ?nj)
    case (Ret job)
    then have "\<not> row_accepted (job_to_row job) \<or> rows (sy_pg s) (job_ID job) \<noteq> None"
      using NewJob_no_cron no_cron_rejected by blast
    then obtain e p where p: "s_CreateJob S job (sy_pg s) = (Err (wrapf ''insert job: '' e), p)" "rows p = rows (sy_pg s)"
      using create_bad by blast
    with assms Ret show ?thesis by (auto simp: SubmitJob_def sched_opts)
  next
    case (Err e)
    with assms have "SubmitJob C i req s = (Err (wrapf ''create job: '' e), s\<lparr>sy_pg := sy_pg s\<rparr>)"
      by (simp add: SubmitJob_def sched_opts)
    then show ?thesis by blast
  qed (use NewJob_no_panic in blast)
qed

lemma scheduleCronInstance_fails:
  assumes "c_store C = S"
  shows "\<exists>p. scheduleCronInstance C i k job s = (Ret (), s\<lparr>sy_pg := p\<rparr>) \<and> rows p = rows (sy_pg s)"
proof -
  let ?nj = "NewJob (in_uuid i) (in_now i 1) (in_now i 2) (in_now i 3) (job_Type job) (job_Payload job)
    [WithPriority (job_Priority job), WithMaxRetries (job_MaxRetries job), WithTimeout (job_Timeout job)]"
  show ?thesis
  proof (cases ?nj)
    case (Ret inst)
    then have "job_CronExpression inst = ''''" using NewJob_no_cron [where ts = "[]"] by simp
    then obtain e p where "s_CreateJob S inst (sy_pg s) = (Err (wrapf ''insert job: '' e), p)" "rows p = rows (sy_pg s)"
      using create_bad no_cron_rejected by blast
    with assms Ret show ?thesis by (auto simp: scheduleCronInstance_def)
  next
    case (Err e)
    then have "scheduleCronInstance C i k job s = (Ret (), s\<lparr>sy_pg := sy_pg s\<rparr>)"
      by (simp add: scheduleCronInstance_def)
    then show ?thesis by blast
  qed (use NewJob_no_panic in blast)
qed

lemma cron_pass_idle:
  assumes "c_store C = S"
  shows "\<exists>p. cron_pass C now ins ks s = (Ret (), s\<lparr>sy_pg := p\<rparr>) \<and> rows p = rows (sy_pg s)"
proof (induction ks arbitrary: s)
  case Nil
  show ?case by (intro exI [of _ "sy_pg s"]) simp
next
  case (Cons k ks)
  have go: "\<exists>p. andthen (scheduleCronInstance C (ins k) k job) (\<lambda>_. cron_pass C now ins ks) s = (Ret (), s\<lparr>sy_pg := p\<rparr>) \<and>
      rows p = rows (sy_pg s)" for job
  proof -
    obtain p where p: "scheduleCronInstance C (ins k) k job s = (Ret (), s\<lparr>sy_pg := p\<rparr>)" "rows p = rows (sy_pg s)"
      using scheduleCronInstance_fails [OF assms] by blast
    then show ?thesis using Cons.IH [of "s\<lparr>sy_pg := p\<rparr>"] by simp
  qed
  show ?case using go Cons.IH [of s] by (simp split: option.split)
qed

end

context scheduler
begin

lemma SubmitJob_cron:
  assumes "ok (sy_redis s)" "req_Cron req \<noteq> ''''" "c_store C = S" "c_queue C = Q"
    and "NewJob (in_uuid i) (in_now i 1) (in_now i 2) (in_now i 3) (req_Type req) (req_Payload req)
      ([WithPriority (req_Priority req), WithMaxRetries (req_MaxRetries req), WithTimeout (req_Timeout req)] @
        map WithScheduledAt (map_opt (req_ScheduledAt req)) @ [WithCron (req_Cron req)]) = Ret job0"
    and "ParseCron (req_Cron req) (in_now i 4) = Ret nxt" and "job = job0\<lparr>job_CronNextRun := Some nxt\<rparr>"
    and "row_accepted (job_to_row job)" "rows (sy_pg s) (job_ID job) = None" "job_encodable job"
  shows "\<exists>s'. SubmitJob C i req s = (Ret job, s') \<and>
    rows (sy_pg s') = (rows (sy_pg s))(job_ID job \<mapsto> row_us (job_to_row job)) \<and>
    ok (sy_redis s') \<and> absq (sy_redis s') = spec_enqueue U (in_now i 5) job (absq (sy_redis s)) \<and>
    cronJobs s' = cronJobs s"
proof -
  obtain p where p: "s_CreateJob S job (sy_pg s) = (Ret (), p)"
    "rows p = (rows (sy_pg s))(job_ID job \<mapsto> row_us (job_to_row job))"
    using create_new [OF assms(8,9)] by blast
  obtain r where r: "q_Enqueue Q (in_now i 5) job (sy_redis s) = (Ret (), r)" "ok r"
    "absq r = spec_enqueue U (in_now i 5) job (absq (sy_redis s))"
    using enqueue_law [OF assms(1,10), of "in_now i 5"] by blast
  show ?thesis using assms p r by (simp add: SubmitJob_def sched_opts)
qed

lemma RegisterCronJob_stored:
  assumes "req_Cron req \<noteq> ''''" "c_store C = S" "ParseCron (req_Cron req) (in_now i 0) = Ret nxt"
    and "NewJob (in_uuid i) (in_now i 1) (in_now i 2) (in_now i 3) (req_Type req) (req_Payload req)
      [WithPriority (req_Priority req), WithMaxRetries (req_MaxRetries req), WithTimeout (req_Timeout req),
       WithCron (req_Cron req)] = Ret job0"
    and "job = job0\<lparr>job_CronNextRun := Some nxt, job_Status := JobStatusPending\<rparr>"
    and "row_accepted (job_to_row job)" "rows (sy_pg s) (job_ID job) = None"
  shows "\<exists>s'. RegisterCronJob C i req s = (Ret job, s') \<and>
    rows (sy_pg s') = (rows (sy_pg s))(job_ID job \<mapsto> row_us (job_to_row job)) \<and>
    sy_redis s' = sy_redis s \<and> map_of (cronJobs s') (u_String (c_uuid C) (job_ID job)) = Some job"
proof -
  obtain p where p: "s_CreateJob S job (sy_pg s) = (Ret (), p)"
    "rows p = (rows (sy_pg s))(job_ID job \<mapsto> row_us (job_to_row job))"
    using create_new [OF assms(6,7)] by blast
  show ?thesis using assms p by (simp add: RegisterCronJob_def Let_def update_conv)
qed

lemma RetryJob_cases:
  assumes "ok (sy_redis s)" "c_store C = S" "c_queue C = Q" "rows (sy_pg s) u = Some w" "scan_job w = Ret job"
    and "job_encodable (job\<lparr>job_ScheduledAt := in_now i 0, job_StartedAt := None, job_CompletedAt := None\<rparr>)"
  shows "\<not> IsTerminal (job_Status job) \<Longrightarrow> \<exists>e p. RetryJob C i u s = (Err e, s\<lparr>sy_pg := p\<rparr>) \<and> rows p = rows (sy_pg s)"
    and "IsTerminal (job_Status job) \<Longrightarrow> \<exists>s' t. RetryJob C i u s = (Ret (), s') \<and>
      rows (sy_pg s') = (rows (sy_pg s))(u \<mapsto> updated_row t JobStatusPending '''' '''' None None w) \<and>
      ok (sy_redis s') \<and> absq (sy_redis s') = spec_enqueue U (in_now i 1)
        (job\<lparr>job_RetryCount := 0, job_Status := JobStatusPending, job_ErrorMessage := '''', job_WorkerID := '''',
          job_ScheduledAt := in_now i 0, job_StartedAt := None, job_CompletedAt := None\<rparr>) (absq (sy_redis s))"
proof -
  obtain p where p: "s_GetJob S u (sy_pg s) = (Ret job, p)" "rows p = rows (sy_pg s)"
    using get_some [OF assms(4)] assms(5) by auto
  show "\<exists>e p. RetryJob C i u s = (Err e, s\<lparr>sy_pg := p\<rparr>) \<and> rows p = rows (sy_pg s)"
    if "\<not> IsTerminal (job_Status job)"
    using that p assms(2) by (auto simp: RetryJob_def)
  let ?job = "job\<lparr>job_RetryCount := 0, job_Status := JobStatusPending, job_ErrorMessage := '''', job_WorkerID := '''',
      job_ScheduledAt := in_now i 0, job_StartedAt := None, job_CompletedAt := None\<rparr>"
  have enc: "job_encodable ?job" using assms(6) by (simp add: job_encodable_def)
  have st: "JobStatusPending \<in> set statuses" by (simp add: statuses_def)
  have id: "job_ID job = row_id w" using assms(5) by (auto simp: scan_job_def scan_null_def split: option.splits)
  show "\<exists>s' t. RetryJob C i u s = (Ret (), s') \<and>
      rows (sy_pg s') = (rows (sy_pg s))(u \<mapsto> updated_row t JobStatusPending '''' '''' None None w) \<and>
      ok (sy_redis s') \<and> absq (sy_redis s') = spec_enqueue U (in_now i 1) ?job (absq (sy_redis s))"
    if fin: "IsTerminal (job_Status job)" 
  proof -
    obtain r where r: "q_Enqueue Q (in_now i 1) ?job (sy_redis s) = (Ret (), r)" "ok r"
      "absq r = spec_enqueue U (in_now i 1) ?job (absq (sy_redis s))"
      using enqueue_law [OF assms(1) enc, of "in_now i 1"] by blast
    have w: "rows p u = Some w" using p assms(4) by simp
    have "opts_ok (fold (\<lambda>opt x. opt x) [] no_opts)" by (simp add: opts_ok_def no_opts_def)
    from update_some [OF w st this] obtain p' t where p': "s_UpdateJobStatus S u JobStatusPending [] p = (Ret (), p')"
      "rows p' = (rows p)(u \<mapsto> updated_row t JobStatusPending '''' '''' None None w)"
      by (auto simp: Let_def no_opts_def)
    have "job_ID job = u" using id row_key [OF assms(4)] by simp
    then show ?thesis using fin p p' r assms(2,3) by (auto simp: RetryJob_def Let_def)
  qed
qed

end

context redis_isolated
begin

lemma processDelayedJobs_redis:
  assumes "typed (view (sy_redis s))" "in_bytes i = Inr b"
  shows "lease (view (sy_redis s)) delayed_lock = None \<Longrightarrow>
      \<exists>r m. processDelayedJobs (NewCore (RedisQueue R U) S (RedisLocker R) U) i s = s\<lparr>sy_redis := r, sy_metrics := m\<rparr> \<and>
        queue_of (view r) = snd (spec_move U (in_now i 1) 1000 (queue_of (view (sy_redis s)))) \<and>
        lease (view r) = lease (view (sy_redis s)) \<and>
        DelayedJobsMoved m = DelayedJobsMoved (sy_metrics s) + fst (spec_move U (in_now i 1) 1000 (queue_of (view (sy_redis s))))"
    and "lease (view (sy_redis s)) delayed_lock \<noteq> None \<Longrightarrow>
      \<exists>r. processDelayedJobs (NewCore (RedisQueue R U) S (RedisLocker R) U) i s = s\<lparr>sy_redis := r\<rparr> \<and>
        queue_of (view r) = queue_of (view (sy_redis s)) \<and> lease (view r) = lease (view (sy_redis s))"
proof -
  let ?C = "NewCore (RedisQueue R U) S (RedisLocker R) U" and ?mv = "spec_move U (in_now i 1) 1000 (queue_of (view (sy_redis s)))"
  have sel: "c_queue ?C = RedisQueue R U" "c_locker ?C = RedisLocker R" by (simp_all add: NewCore_def)
  have pos: "0 \<le> fst ?mv" by (simp add: spec_move_def Let_def)
  show "\<exists>r m. processDelayedJobs ?C i s = s\<lparr>sy_redis := r, sy_metrics := m\<rparr> \<and>
        queue_of (view r) = snd ?mv \<and> lease (view r) = lease (view (sy_redis s)) \<and>
        DelayedJobsMoved m = DelayedJobsMoved (sy_metrics s) + fst ?mv"
    if "lease (view (sy_redis s)) delayed_lock = None"
    using rb.processDelayedJobs_free [OF assms(1) that assms(2) sel] pos
    by (elim exE conjE) (intro exI conjI, assumption, auto simp: recorder_defs)
  show "\<exists>r. processDelayedJobs ?C i s = s\<lparr>sy_redis := r\<rparr> \<and>
        queue_of (view r) = queue_of (view (sy_redis s)) \<and> lease (view r) = lease (view (sy_redis s))"
    if "lease (view (sy_redis s)) delayed_lock \<noteq> None"
    using rb.processDelayedJobs_held [OF assms(1) that assms(2) sel(2)] by blast
qed

end

context deployment
begin

lemmas RetryJob_deployed = core.RetryJob_cases

end

section \<open>Properties\<close>

definition demo_inputs :: inputs where
  "demo_inputs = \<lparr>in_uuid = 9, in_bytes = Inr [1, 2, 3], in_now = (\<lambda>n. 1000000000 * int n), in_key_now = (\<lambda>_. 0)\<rparr>"

definition demo_core :: "(rstate, pgstate) Core" where
  "demo_core = NewCore (RedisQueue mem_redis demo_uuid) (PostgreSQLStore mem_pg) (RedisLocker mem_redis) demo_uuid"

text \<open>
  C39: with the store on PostgreSQL no cron job ever fires: a pass over the table, in any order, returns
  without a panic and leaves the queue, the rows, the table with its next runs and the metrics as they
  were, because every instance it creates has no cron expression and is refused.
\<close>

theorem cron_jobs_never_fire:
  assumes "postgres P tables"
  shows "\<exists>p. processCronJobs (NewCore q (PostgreSQLStore P) l U) now ins order s = (Ret (), s\<lparr>sy_pg := p\<rparr>) \<and>
    (\<forall>u. find_row u (tables p) = find_row u (tables (sy_pg s)))"
proof -
  have "job_store (PostgreSQLStore P) (\<lambda>p u. find_row u (tables p))"
    by (rule postgres.store_contract [OF assms(1)])
  from job_store.cron_pass_idle [OF this, of "NewCore q (PostgreSQLStore P) l U" now ins order s]
  show ?thesis by (auto simp: NewCore_def processCronJobs_def fun_eq_iff)
qed

lemma cron_jobs_never_fire_witness:
  "\<exists>s'. processCronJobs demo_core 4000000000000 (\<lambda>_. demo_inputs) [''7'']
      ((init_core empty_server empty_tables)\<lparr>cronJobs := [(''7'', cron_demo)]\<rparr>) = (Ret (), s') \<and>
    cronJobs s' = [(''7'', cron_demo)] \<and> sy_redis s' = empty_server"
  using cron_jobs_never_fire [OF mem_db.postgres_axioms, of "RedisQueue mem_redis demo_uuid" "RedisLocker mem_redis"
      demo_uuid 4000000000000 "\<lambda>_. demo_inputs" "[''7'']" "(init_core empty_server empty_tables)\<lparr>cronJobs := [(''7'', cron_demo)]\<rparr>"]
  unfolding demo_core_def by (auto simp: init_core_def)

text \<open>The keys of the delayed set whose time has come, in the order of the set.\<close>

definition due_keys :: "go_time \<Rightarrow> aqueue \<Rightarrow> string list" where
  "due_keys now q = map snd (filter (\<lambda>e. 0 \<le> fst e \<and> fst e \<le> UnixMilli now) (aq_delayed q))"

lemma due_take: "0 < n \<Longrightarrow> due now n q = take (nat n) (due_keys now q)"
  by (simp add: due_def due_keys_def zrange_def take_map)

lemma moved_frame:
  "aq_inflight (fold (spec_move1 U) ks q) = aq_inflight q \<and> aq_dlq (fold (spec_move1 U) ks q) = aq_dlq q \<and>
   aq_data (fold (spec_move1 U) ks q) = aq_data q"
proof (induction ks arbitrary: q)
  case (Cons k ks)
  have "aq_inflight (spec_move1 U k q) = aq_inflight q" "aq_dlq (spec_move1 U k q) = aq_dlq q"
    by (simp_all add: spec_move1_def aq_undelay_def aq_push_def split: res.splits)
  with Cons [of "spec_move1 U k q"] show ?case by simp
qed simp

text \<open>
  C9: One tick of the delayed-job loop. While another scheduler holds the lock it changes neither the queue nor the
  lock. Otherwise it takes the first 1000 due keys (all of them if no more are due) out of the delayed set, appends
  each whose document can be read to the ready queue of the job's priority, drops the others, adds the number of the
  moved ones to the counter, changes nothing else, and leaves the lock as it was. This is on an undisturbed server
  whose clock does not reach the end of the five seconds of the lock meanwhile; nothing extends the lock, so a move
  that takes longer is not protected.
\<close>

theorem processDelayedJobs_exclusive:
  assumes "redis_isolated R view" "typed (view (sy_redis s))" "in_bytes i = Inr b"
    and "q = queue_of (view (sy_redis s))" "ks = take 1000 (due_keys (in_now i 1) q)"
  shows "(lease (view (sy_redis s)) delayed_lock = None \<longrightarrow>
      (\<exists>r m q'. processDelayedJobs (NewCore (RedisQueue R U) S (RedisLocker R) U) i s = s\<lparr>sy_redis := r, sy_metrics := m\<rparr> \<and>
        q' = queue_of (view r) \<and>
        (\<forall>p. aq_ready q' p = rev (filter (\<lambda>k. \<exists>j. stored U q k = Ret j \<and> job_Priority j = p) ks) @ aq_ready q p) \<and>
        aq_delayed q' = filter (\<lambda>e. snd e \<notin> set ks) (aq_delayed q) \<and>
        aq_inflight q' = aq_inflight q \<and> aq_dlq q' = aq_dlq q \<and> aq_data q' = aq_data q \<and>
        (length (due_keys (in_now i 1) q) \<le> 1000 \<longrightarrow> set ks = set (due_keys (in_now i 1) q)) \<and>
        lease (view r) = lease (view (sy_redis s)) \<and>
        DelayedJobsMoved m = DelayedJobsMoved (sy_metrics s) + int (length (filter (\<lambda>k. is_Ret (stored U q k)) ks)))) \<and>
    (lease (view (sy_redis s)) delayed_lock \<noteq> None \<longrightarrow>
      (\<exists>r. processDelayedJobs (NewCore (RedisQueue R U) S (RedisLocker R) U) i s = s\<lparr>sy_redis := r\<rparr> \<and>
        queue_of (view r) = q \<and> lease (view r) = lease (view (sy_redis s))))"
proof -
  note free = redis_isolated.processDelayedJobs_redis [OF assms(1-3)]
  have ks: "due (in_now i 1) 1000 q = ks" by (simp add: assms(5) due_take)
  have mv: "spec_move U (in_now i 1) 1000 q =
      (int (length (filter (\<lambda>k. is_Ret (stored U q k)) ks)), fold (spec_move1 U) ks q)"
    unfolding spec_move_def ks Let_def by (rule refl)
  have all: "length (due_keys (in_now i 1) q) \<le> 1000 \<longrightarrow> set ks = set (due_keys (in_now i 1) q)"
    unfolding assms(5) by simp
  show ?thesis
  proof (intro conjI impI)
    assume "lease (view (sy_redis s)) delayed_lock = None"
    from free(1) [of U S, OF this] obtain r m where
      "processDelayedJobs (NewCore (RedisQueue R U) S (RedisLocker R) U) i s = s\<lparr>sy_redis := r, sy_metrics := m\<rparr>"
      "queue_of (view r) = fold (spec_move1 U) ks q" "lease (view r) = lease (view (sy_redis s))"
      "DelayedJobsMoved m = DelayedJobsMoved (sy_metrics s) + int (length (filter (\<lambda>k. is_Ret (stored U q k)) ks))"
      unfolding assms(4) [symmetric] mv by auto
    with all moved_queue [of U ks q] moved_frame [of U ks q]
    show "\<exists>r m q'. processDelayedJobs (NewCore (RedisQueue R U) S (RedisLocker R) U) i s = s\<lparr>sy_redis := r, sy_metrics := m\<rparr> \<and>
        q' = queue_of (view r) \<and>
        (\<forall>p. aq_ready q' p = rev (filter (\<lambda>k. \<exists>j. stored U q k = Ret j \<and> job_Priority j = p) ks) @ aq_ready q p) \<and>
        aq_delayed q' = filter (\<lambda>e. snd e \<notin> set ks) (aq_delayed q) \<and>
        aq_inflight q' = aq_inflight q \<and> aq_dlq q' = aq_dlq q \<and> aq_data q' = aq_data q \<and>
        (length (due_keys (in_now i 1) q) \<le> 1000 \<longrightarrow> set ks = set (due_keys (in_now i 1) q)) \<and>
        lease (view r) = lease (view (sy_redis s)) \<and>
        DelayedJobsMoved m = DelayedJobsMoved (sy_metrics s) + int (length (filter (\<lambda>k. is_Ret (stored U q k)) ks))"
      by (intro exI [of _ r] exI [of _ m] exI [of _ "queue_of (view r)"] conjI) simp_all
  next
    assume "lease (view (sy_redis s)) delayed_lock \<noteq> None"
    from free(2) [of U S, OF this] show "\<exists>r. processDelayedJobs (NewCore (RedisQueue R U) S (RedisLocker R) U) i s = s\<lparr>sy_redis := r\<rparr> \<and>
        queue_of (view r) = q \<and> lease (view r) = lease (view (sy_redis s))"
      unfolding assms(4) [symmetric] .
  qed
qed

lemma processDelayedJobs_exclusive_witness:
  "\<exists>r m. processDelayedJobs demo_core demo_inputs (init_core delayed_demo empty_tables) =
      (init_core delayed_demo empty_tables)\<lparr>sy_redis := r, sy_metrics := m\<rparr> \<and>
    lease r delayed_lock = None \<and> aq_delayed (queue_of r) = [] \<and>
    aq_ready (queue_of r) 5 = [job_key demo_uuid (demo_job 1 5)]"
proof -
  have d: "due_keys (in_now demo_inputs 1) (queue_of delayed_demo) = [job_key demo_uuid (demo_job 1 5)]"
    by (simp add: due_keys_def demo_inputs_def UnixMilli_def)
  have "aq_data (queue_of delayed_demo) (job_key demo_uuid (demo_job 1 5)) = Some (marshal_job demo_uuid (demo_job 1 5))"
    by (simp add: delayed_demo_def queue_put_zset queue_put_job aq_store_def)
  from stored_marshal [OF demo_uuid_ok _ this]
  have st: "stored demo_uuid (queue_of delayed_demo) (job_key demo_uuid (demo_job 1 5)) = Ret (demo_job 1 5)"
    using demo_submittable [of 5 1] by (simp add: submittable_def)
  have i: "in_bytes demo_inputs = Inr [1, 2, 3]" by (simp add: demo_inputs_def)
  have "typed (sy_redis (init_core delayed_demo empty_tables))" by (simp add: init_core_def)
  from processDelayedJobs_exclusive [OF mem.redis_isolated_axioms this i refl refl, of demo_uuid "PostgreSQLStore mem_pg"]
  have "lease delayed_demo delayed_lock = None \<longrightarrow> ?thesis"
    using d st unfolding demo_core_def by (auto simp: init_core_def)
  moreover have "delayedQueueKey \<noteq> lockKey delayed_lock" "jobDataKey demo_uuid 1 \<noteq> lockKey delayed_lock"
    by (rule kind_neq, simp)+
  then have "lease delayed_demo delayed_lock = None"
    by (simp add: lease_def delayed_demo_def entry_def put_zset_def put_def empty_server_def)
  ultimately show ?thesis by blast
qed

text \<open>
  C21: \<open>RetryJob\<close> accepts a job exactly if its status is terminal, so that a failed one is refused and a
  completed or cancelled one is run again. It queues the job with its retry count, worker and times
  cleared; of the row it only resets the status and the error message, not the retry count, the worker
  or the times.
\<close>

theorem RetryJob_effect:
  assumes "deployment R view P tables" "typed (view (sy_redis s))" "find_row u (tables (sy_pg s)) = Some w"
    and "scan_job w = Ret job"
    and "job_encodable (job\<lparr>job_ScheduledAt := in_now i 0, job_StartedAt := None, job_CompletedAt := None\<rparr>)"
  shows "(\<not> IsTerminal (job_Status job) \<longrightarrow>
      (\<exists>e p. RetryJob (NewCore (RedisQueue R U) (PostgreSQLStore P) l U) i u s = (Err e, s\<lparr>sy_pg := p\<rparr>) \<and>
        (\<forall>v. find_row v (tables p) = find_row v (tables (sy_pg s))))) \<and>
    (IsTerminal (job_Status job) \<longrightarrow>
      (\<exists>s' w'. RetryJob (NewCore (RedisQueue R U) (PostgreSQLStore P) l U) i u s = (Ret (), s') \<and>
        queue_of (view (sy_redis s')) = spec_enqueue U (in_now i 1)
          (job\<lparr>job_RetryCount := 0, job_Status := JobStatusPending, job_ErrorMessage := '''', job_WorkerID := '''',
             job_ScheduledAt := in_now i 0, job_StartedAt := None, job_CompletedAt := None\<rparr>)
          (queue_of (view (sy_redis s))) \<and>
        find_row u (tables (sy_pg s')) = Some w' \<and> row_status w' = JobStatusPending \<and>
        row_error_message w' = Some '''' \<and> row_retry_count w' = row_retry_count w \<and>
        row_worker_id w' = row_worker_id w \<and> row_started_at w' = row_started_at w))"
proof -
  let ?C = "NewCore (RedisQueue R U) (PostgreSQLStore P) l U"
  have sel: "c_store ?C = PostgreSQLStore P" "c_queue ?C = RedisQueue R U" by (simp_all add: NewCore_def)
  note r = deployment.RetryJob_deployed [OF assms(1,2) sel assms(3-5)]
  have "\<exists>e p. RetryJob ?C i u s = (Err e, s\<lparr>sy_pg := p\<rparr>) \<and>
      (\<forall>v. find_row v (tables p) = find_row v (tables (sy_pg s)))" if "\<not> IsTerminal (job_Status job)"
    using r(1) [OF that] by (auto simp: fun_eq_iff)
  moreover have "\<exists>s' w'. RetryJob ?C i u s = (Ret (), s') \<and>
        queue_of (view (sy_redis s')) = spec_enqueue U (in_now i 1)
          (job\<lparr>job_RetryCount := 0, job_Status := JobStatusPending, job_ErrorMessage := '''', job_WorkerID := '''',
             job_ScheduledAt := in_now i 0, job_StartedAt := None, job_CompletedAt := None\<rparr>)
          (queue_of (view (sy_redis s))) \<and>
        find_row u (tables (sy_pg s')) = Some w' \<and> row_status w' = JobStatusPending \<and>
        row_error_message w' = Some '''' \<and> row_retry_count w' = row_retry_count w \<and>
        row_worker_id w' = row_worker_id w \<and> row_started_at w' = row_started_at w" if fin: "IsTerminal (job_Status job)"
  proof -
    obtain s' t where s': "RetryJob ?C i u s = (Ret (), s')"
      "(\<lambda>u. find_row u (tables (sy_pg s'))) = (\<lambda>u. find_row u (tables (sy_pg s)))(u \<mapsto> updated_row t JobStatusPending '''' '''' None None w)"
      "queue_of (view (sy_redis s')) = spec_enqueue U (in_now i 1)
          (job\<lparr>job_RetryCount := 0, job_Status := JobStatusPending, job_ErrorMessage := '''', job_WorkerID := '''',
             job_ScheduledAt := in_now i 0, job_StartedAt := None, job_CompletedAt := None\<rparr>)
          (queue_of (view (sy_redis s)))"
      using r(2) [OF fin] by blast
    then show ?thesis using fun_cong [OF s'(2), of u]
      by (intro exI [of _ s'] exI [of _ "updated_row t JobStatusPending '''' '''' None None w"])
        (simp add: updated_row_def coalesce_def)
  qed
  ultimately show ?thesis by blast
qed

definition ran_demo :: "JobStatus \<Rightarrow> pgstate" where
  "ran_demo st = empty_tables\<lparr>pg_jobs := [(job_to_row cron_demo)\<lparr>row_status := st, row_worker_id := Some ''w1'',
     row_error_message := Some ''''\<rparr>]\<rparr>"

lemma RetryJob_effect_witness:
  "\<exists>s'. RetryJob demo_core demo_inputs 7 (init_core empty_server (ran_demo JobStatusCompleted)) = (Ret (), s')"
proof -
  let ?w = "(job_to_row cron_demo)\<lparr>row_status := JobStatusCompleted, row_worker_id := Some ''w1'', row_error_message := Some ''''\<rparr>"
  let ?j = "cron_demo\<lparr>job_Status := JobStatusCompleted, job_WorkerID := ''w1''\<rparr>"
  let ?s = "init_core empty_server (ran_demo JobStatusCompleted)"
  have 1: "typed (sy_redis ?s)" by (simp add: init_core_def)
  have 2: "find_row 7 (sy_pg ?s) = Some ?w"
    by (simp add: find_row_def init_core_def ran_demo_def cron_demo_def)
  have 3: "scan_job ?w = Ret ?j" by (simp add: scan_job_def job_to_row_def cron_demo_def)
  have 4: "job_encodable (?j\<lparr>job_ScheduledAt := in_now demo_inputs 0, job_StartedAt := None, job_CompletedAt := None\<rparr>)"
    by (simp add: job_encodable_def time_encodable_def cron_demo_def demo_inputs_def List.map_filter_def)
  have "IsTerminal (job_Status ?j)" by (simp add: IsTerminal_def)
  with RetryJob_effect [OF demo.deployment_axioms 1 2 3 4, of demo_uuid "RedisLocker mem_redis"]
  show ?thesis unfolding demo_core_def by blast
qed

end
