(* ===== verification/Worker_Handlers.thy ===== *)
theory Worker_Handlers
  imports Job_Json "HOL-Library.AList"
begin

text \<open>
  \<open>internal/worker/handler.go\<close>: the registry of handlers and the five handlers it ships. Their waits
  for a timer or the end of the context, and the HTTP client, are inputs of a run.
\<close>

section \<open>Handlers and their registry\<close>

text \<open>
  An HTTP request and what comes back. Building the request (\<open>http.NewRequestWithContext\<close>, which checks
  the method and the URL) and sending it are \<open>net/http\<close>'s.
\<close>

record http_request =
  rq_method :: string
  rq_url :: string
  rq_headers :: "(string \<times> string) list"
  rq_body :: "json option"

record http_response =
  rs_status :: int
  rs_body :: string

record http_client =
  hc_NewRequest :: "string \<Rightarrow> string \<Rightarrow> go_error option"
  hc_Do :: "http_request \<Rightarrow> go_error + http_response"

text \<open>
  What a run of a handler meets: the error of the context if it ends before the handler's timer, the
  HTTP client, and how \<open>fmt\<close> prints a float with two decimals.
\<close>

record exec_env =
  ex_ctx :: "go_error option"
  ex_http :: http_client
  ex_fmt2 :: "int \<times> nat \<Rightarrow> string"

record JobHandler =
  h_Name :: string
  h_Execute :: "exec_env \<Rightarrow> Job \<Rightarrow> unit res"

type_synonym Registry = "(string \<times> JobHandler) list"

definition NewRegistry :: Registry where
  "NewRegistry = []"

text \<open>A nil handler is only warned about; a handler already registered is replaced.\<close>

definition Register :: "JobHandler option \<Rightarrow> Registry \<Rightarrow> Registry" where
  "Register handler r = (case handler of None \<Rightarrow> r | Some h \<Rightarrow> AList.update (h_Name h) h r)"

definition Registry_Get :: "Registry \<Rightarrow> string \<Rightarrow> JobHandler option" where
  "Registry_Get r jobType = map_of r jobType"

text \<open>Go ranges over the map in any order: the set of the types.\<close>

definition RegisteredTypes :: "Registry \<Rightarrow> string set" where
  "RegisteredTypes r = fst ` set r"

section \<open>Decoding payloads\<close>

text \<open>
  A \<open>float64\<close> is kept as the decimal it was written as. \<open>encoding/json\<close> refuses a number that rounds
  to infinity; a positive number of at most \<open>2 ^ -1075\<close> rounds to zero.
\<close>

definition float_fits :: "int \<times> nat \<Rightarrow> bool" where
  "float_fits x \<longleftrightarrow> \<bar>fst x\<bar> < (2 ^ 1024 - 2 ^ 970) * 10 ^ snd x"

definition float_positive :: "int \<times> nat \<Rightarrow> bool" where
  "float_positive x \<longleftrightarrow> 10 ^ snd x < fst x * 2 ^ 1075"

definition dec_float :: "json \<Rightarrow> (int \<times> nat \<Rightarrow> 'a \<Rightarrow> 'a) \<Rightarrow> 'a \<Rightarrow> 'a res" where
  "dec_float v upd j =
     (case v of
        JNum n \<Rightarrow> if float_fits (n, 0) then Ret (upd (n, 0) j) else type_mismatch
      | JDec m e \<Rightarrow> if float_fits (m, e) then Ret (upd (m, e) j) else type_mismatch
      | JNull \<Rightarrow> Ret j
      | _ \<Rightarrow> type_mismatch)"

text \<open>A \<open>[]string\<close>, a \<open>map[string]string\<close> and a nested struct; \<open>null\<close> in place of a string is the empty one.\<close>

fun str_elem :: "json \<Rightarrow> string res" where
  "str_elem (JStr s) = Ret s"
| "str_elem JNull = Ret ''''"
| "str_elem _ = type_mismatch"

fun str_elems :: "json list \<Rightarrow> string list res" where
  "str_elems [] = Ret []"
| "str_elems (v # vs) = bind_res (str_elem v) (\<lambda>x. bind_res (str_elems vs) (\<lambda>xs. Ret (x # xs)))"

definition dec_strs :: "json \<Rightarrow> (string list \<Rightarrow> 'a \<Rightarrow> 'a) \<Rightarrow> 'a \<Rightarrow> 'a res" where
  "dec_strs v upd j =
     (case v of
        JArr vs \<Rightarrow> bind_res (str_elems vs) (\<lambda>xs. Ret (upd xs j))
      | JNull \<Rightarrow> Ret (upd [] j)
      | _ \<Rightarrow> type_mismatch)"

fun str_members :: "(string \<times> json) list \<Rightarrow> (string \<times> string) list \<Rightarrow> (string \<times> string) list res" where
  "str_members [] m = Ret m"
| "str_members ((k, v) # kvs) m = bind_res (str_elem v) (\<lambda>x. str_members kvs (AList.update k x m))"

definition dec_strmap :: "json \<Rightarrow> (string \<times> string) list \<Rightarrow> (string \<times> string) list res" where
  "dec_strmap v old =
     (case v of
        JObj kvs \<Rightarrow> str_members kvs old
      | JNull \<Rightarrow> Ret []
      | _ \<Rightarrow> type_mismatch)"

definition dec_nested :: "(string \<Rightarrow> json \<Rightarrow> 'b \<Rightarrow> 'b res) \<Rightarrow> json \<Rightarrow> 'b \<Rightarrow> ('b \<Rightarrow> 'a \<Rightarrow> 'a) \<Rightarrow> 'a \<Rightarrow> 'a res" where
  "dec_nested f v old upd j =
     (case v of
        JObj kvs \<Rightarrow> bind_res (dec_members f kvs old) (\<lambda>x. Ret (upd x j))
      | JNull \<Rightarrow> Ret j
      | _ \<Rightarrow> type_mismatch)"

text \<open>\<open>json.Unmarshal(job.Payload, &payload)\<close>: a nil payload is no JSON text.\<close>

definition unmarshal_payload :: "(string \<Rightarrow> json \<Rightarrow> 'a \<Rightarrow> 'a res) \<Rightarrow> 'a \<Rightarrow> Job \<Rightarrow> 'a res" where
  "unmarshal_payload f zero job =
     map_err (wrapf ''unmarshal payload: '')
       (case job_Payload job of
          None \<Rightarrow> Err (Opaque ''unexpected end of JSON input'')
        | Some v \<Rightarrow> dec_struct f zero v)"

text \<open>The \<open>select\<close> on the end of the context and the handler's timer.\<close>

definition wait_timer :: "exec_env \<Rightarrow> unit res" where
  "wait_timer x = (case ex_ctx x of Some e \<Rightarrow> Err e | None \<Rightarrow> Ret ())"

section \<open>Email\<close>

record SendEmailPayload =
  em_To :: string
  em_Subject :: string
  em_Body :: string
  em_From :: string
  em_CC :: "string list"
  em_BCC :: "string list"

definition email_field :: "string \<Rightarrow> json \<Rightarrow> SendEmailPayload \<Rightarrow> SendEmailPayload res" where
  "email_field k v p =
     (if k = ''to'' then dec_str v (\<lambda>s p. p\<lparr>em_To := s\<rparr>) p
      else if k = ''subject'' then dec_str v (\<lambda>s p. p\<lparr>em_Subject := s\<rparr>) p
      else if k = ''body'' then dec_str v (\<lambda>s p. p\<lparr>em_Body := s\<rparr>) p
      else if k = ''from'' then dec_str v (\<lambda>s p. p\<lparr>em_From := s\<rparr>) p
      else if k = ''cc'' then dec_strs v (\<lambda>xs p. p\<lparr>em_CC := xs\<rparr>) p
      else if k = ''bcc'' then dec_strs v (\<lambda>xs p. p\<lparr>em_BCC := xs\<rparr>) p
      else Ret p)"

definition SendEmail_Execute :: "exec_env \<Rightarrow> Job \<Rightarrow> unit res" where
  "SendEmail_Execute x job =
     bind_res (unmarshal_payload email_field
         \<lparr>em_To = '''', em_Subject = '''', em_Body = '''', em_From = '''', em_CC = [], em_BCC = []\<rparr> job)
       (\<lambda>_. wait_timer x)"

section \<open>Payment\<close>

record PaymentPayload =
  pay_OrderID :: string
  pay_Amount :: "int \<times> nat"
  pay_Currency :: string
  pay_Method :: string
  pay_CustomerID :: string

definition payment_field :: "string \<Rightarrow> json \<Rightarrow> PaymentPayload \<Rightarrow> PaymentPayload res" where
  "payment_field k v p =
     (if k = ''order_id'' then dec_str v (\<lambda>s p. p\<lparr>pay_OrderID := s\<rparr>) p
      else if k = ''amount'' then dec_float v (\<lambda>x p. p\<lparr>pay_Amount := x\<rparr>) p
      else if k = ''currency'' then dec_str v (\<lambda>s p. p\<lparr>pay_Currency := s\<rparr>) p
      else if k = ''payment_method'' then dec_str v (\<lambda>s p. p\<lparr>pay_Method := s\<rparr>) p
      else if k = ''customer_id'' then dec_str v (\<lambda>s p. p\<lparr>pay_CustomerID := s\<rparr>) p
      else Ret p)"

definition ProcessPayment_Execute :: "exec_env \<Rightarrow> Job \<Rightarrow> unit res" where
  "ProcessPayment_Execute x job =
     bind_res (unmarshal_payload payment_field
         \<lparr>pay_OrderID = '''', pay_Amount = (0, 0), pay_Currency = '''', pay_Method = '''', pay_CustomerID = ''''\<rparr> job)
       (\<lambda>p. if \<not> float_positive (pay_Amount p)
             then Err (errorf (''invalid payment amount: '' @ ex_fmt2 x (pay_Amount p)))
             else wait_timer x)"

section \<open>Report\<close>

record DateRange =
  dr_Start :: string
  dr_End :: string

record ReportPayload =
  rep_Type :: string
  rep_Format :: string
  rep_DateRange :: DateRange
  rep_Filters :: "(string \<times> string) list"
  rep_Recipients :: "string list"

definition range_field :: "string \<Rightarrow> json \<Rightarrow> DateRange \<Rightarrow> DateRange res" where
  "range_field k v d =
     (if k = ''start'' then dec_str v (\<lambda>s d. d\<lparr>dr_Start := s\<rparr>) d
      else if k = ''end'' then dec_str v (\<lambda>s d. d\<lparr>dr_End := s\<rparr>) d
      else Ret d)"

definition report_field :: "string \<Rightarrow> json \<Rightarrow> ReportPayload \<Rightarrow> ReportPayload res" where
  "report_field k v p =
     (if k = ''report_type'' then dec_str v (\<lambda>s p. p\<lparr>rep_Type := s\<rparr>) p
      else if k = ''format'' then dec_str v (\<lambda>s p. p\<lparr>rep_Format := s\<rparr>) p
      else if k = ''date_range'' then dec_nested range_field v (rep_DateRange p) (\<lambda>d p. p\<lparr>rep_DateRange := d\<rparr>) p
      else if k = ''filters'' then
        bind_res (dec_strmap v (rep_Filters p)) (\<lambda>m. Ret (p\<lparr>rep_Filters := m\<rparr>))
      else if k = ''recipients'' then dec_strs v (\<lambda>xs p. p\<lparr>rep_Recipients := xs\<rparr>) p
      else Ret p)"

text \<open>The default format is only logged.\<close>

definition GenerateReport_Execute :: "exec_env \<Rightarrow> Job \<Rightarrow> unit res" where
  "GenerateReport_Execute x job =
     bind_res (unmarshal_payload report_field
         \<lparr>rep_Type = '''', rep_Format = '''', rep_DateRange = \<lparr>dr_Start = '''', dr_End = ''''\<rparr>, rep_Filters = [],
          rep_Recipients = []\<rparr> job)
       (\<lambda>_. wait_timer x)"

section \<open>Webhook\<close>

record WebhookRetryPolicy =
  wr_MaxRetries :: int
  wr_Timeout :: int

record WebhookPayload =
  wh_URL :: string
  wh_Method :: string
  wh_Headers :: "(string \<times> string) list"
  wh_Body :: "json option"
  wh_RetryPolicy :: WebhookRetryPolicy

definition policy_field :: "string \<Rightarrow> json \<Rightarrow> WebhookRetryPolicy \<Rightarrow> WebhookRetryPolicy res" where
  "policy_field k v p =
     (if k = ''max_retries'' then dec_int v (\<lambda>n p. p\<lparr>wr_MaxRetries := n\<rparr>) p
      else if k = ''timeout_ms'' then dec_int v (\<lambda>n p. p\<lparr>wr_Timeout := n\<rparr>) p
      else Ret p)"

definition webhook_field :: "string \<Rightarrow> json \<Rightarrow> WebhookPayload \<Rightarrow> WebhookPayload res" where
  "webhook_field k v p =
     (if k = ''url'' then dec_str v (\<lambda>s p. p\<lparr>wh_URL := s\<rparr>) p
      else if k = ''method'' then dec_str v (\<lambda>s p. p\<lparr>wh_Method := s\<rparr>) p
      else if k = ''headers'' then
        bind_res (dec_strmap v (wh_Headers p)) (\<lambda>m. Ret (p\<lparr>wh_Headers := m\<rparr>))
      else if k = ''body'' then Ret (p\<lparr>wh_Body := Some v\<rparr>)
      else if k = ''retry_policy'' then dec_nested policy_field v (wh_RetryPolicy p) (\<lambda>d p. p\<lparr>wh_RetryPolicy := d\<rparr>) p
      else Ret p)"

text \<open>
  \<open>http.Header.Set\<close>: the canonical form of a name has a capital after every hyphen and at the start,
  if it consists of token characters. The payload's headers are set in the order Go ranges over the
  map: the list is the map in that order.
\<close>

definition upper_char :: "char \<Rightarrow> char" where
  "upper_char c = (if 97 \<le> (of_char c :: nat) \<and> (of_char c :: nat) \<le> 122
     then char_of ((of_char c :: nat) - 32) else c)"

definition token_char :: "char \<Rightarrow> bool" where
  "token_char c \<longleftrightarrow> is_digit c \<or> lower_char c \<noteq> c \<or> upper_char c \<noteq> c \<or>
     c \<in> set [CHR ''!'', CHR ''#'', CHR ''$'', CHR ''%'', CHR ''&'', CHR 0x27, CHR ''*'', CHR ''+'', CHR ''-'', CHR ''.'', CHR ''^'',
       CHR ''_'', CHR 0x60, CHR ''|'', CHR ''~'']"

fun canonical :: "bool \<Rightarrow> string \<Rightarrow> string" where
  "canonical up [] = []"
| "canonical up (c # cs) = (if up then upper_char c else lower_char c) # canonical (c = CHR ''-'') cs"

definition header_name :: "string \<Rightarrow> string" where
  "header_name k = (if list_all token_char k then canonical True k else k)"

definition set_header :: "string \<times> string \<Rightarrow> (string \<times> string) list \<Rightarrow> (string \<times> string) list" where
  "set_header kv hs = AList.update (header_name (fst kv)) (snd kv) hs"

definition webhook_request :: "uuid_lib \<Rightarrow> WebhookPayload \<Rightarrow> Job \<Rightarrow> http_request" where
  "webhook_request U p job =
     \<lparr>rq_method = (if wh_Method p = '''' then ''POST'' else wh_Method p), rq_url = wh_URL p,
      rq_headers = fold set_header
        ([(''Content-Type'', ''application/json''), (''X-Webhook-ID'', u_String U (job_ID job))] @ wh_Headers p) [],
      rq_body = wh_Body p\<rparr>"

definition WebhookCall_Execute :: "uuid_lib \<Rightarrow> exec_env \<Rightarrow> Job \<Rightarrow> unit res" where
  "WebhookCall_Execute U x job =
     bind_res (unmarshal_payload webhook_field
         \<lparr>wh_URL = '''', wh_Method = '''', wh_Headers = [], wh_Body = None,
          wh_RetryPolicy = \<lparr>wr_MaxRetries = 0, wr_Timeout = 0\<rparr>\<rparr> job)
       (\<lambda>p. if wh_URL p = '''' then Err (errorf ''webhook URL is required'')
             else
               let req = webhook_request U p job
               in (case hc_NewRequest (ex_http x) (rq_method req) (rq_url req) of
                     Some e \<Rightarrow> Err (wrapf ''create request: '' e)
                   | None \<Rightarrow>
                       (case hc_Do (ex_http x) req of
                          Inl e \<Rightarrow> Err (wrapf ''webhook request failed: '' e)
                        | Inr resp \<Rightarrow>
                            if rs_status resp < 200 \<or> rs_status resp \<ge> 300
                            then Err (errorf (''webhook returned status '' @ show_int (rs_status resp) @ '': '' @
                                   take 4096 (rs_body resp)))
                            else Ret ())))"

section \<open>Data cleanup\<close>

record DataCleanupPayload =
  dc_Table :: string
  dc_OlderThan :: string
  dc_BatchSize :: int

definition cleanup_field :: "string \<Rightarrow> json \<Rightarrow> DataCleanupPayload \<Rightarrow> DataCleanupPayload res" where
  "cleanup_field k v p =
     (if k = ''table'' then dec_str v (\<lambda>s p. p\<lparr>dc_Table := s\<rparr>) p
      else if k = ''older_than'' then dec_str v (\<lambda>s p. p\<lparr>dc_OlderThan := s\<rparr>) p
      else if k = ''batch_size'' then dec_int v (\<lambda>n p. p\<lparr>dc_BatchSize := n\<rparr>) p
      else Ret p)"

text \<open>The batch size, 1000 unless positive, is only logged.\<close>

definition DataCleanup_Execute :: "exec_env \<Rightarrow> Job \<Rightarrow> unit res" where
  "DataCleanup_Execute x job =
     bind_res (unmarshal_payload cleanup_field \<lparr>dc_Table = '''', dc_OlderThan = '''', dc_BatchSize = 0\<rparr> job)
       (\<lambda>p. if dc_Table p = '''' then Err (errorf ''table name is required'') else wait_timer x)"

section \<open>The handlers\<close>

definition SendEmailHandler :: JobHandler where
  "SendEmailHandler = \<lparr>h_Name = ''send-email'', h_Execute = SendEmail_Execute\<rparr>"

definition ProcessPaymentHandler :: JobHandler where
  "ProcessPaymentHandler = \<lparr>h_Name = ''process-payment'', h_Execute = ProcessPayment_Execute\<rparr>"

definition GenerateReportHandler :: JobHandler where
  "GenerateReportHandler = \<lparr>h_Name = ''generate-report'', h_Execute = GenerateReport_Execute\<rparr>"

definition WebhookCallHandler :: "uuid_lib \<Rightarrow> JobHandler" where
  "WebhookCallHandler U = \<lparr>h_Name = ''webhook-call'', h_Execute = WebhookCall_Execute U\<rparr>"

definition DataCleanupHandler :: JobHandler where
  "DataCleanupHandler = \<lparr>h_Name = ''data-cleanup'', h_Execute = DataCleanup_Execute\<rparr>"

end
