(* ===== verification/Api_Facts.thy ===== *)
theory Api_Facts
  imports Http_Api Core_Facts Worker_Handlers
begin

text \<open>
  What a client of the HTTP API sees, and what the built-in handlers check before they report success.
\<close>

section \<open>The renderer\<close>

text \<open>
  What the handlers rely on: \<open>render.JSON\<close> sends the value with the status set before, or a status of
  500 when the value cannot be encoded.
\<close>

locale rendering =
  fixes V :: renderer
  assumes render_value: "V st (Ret v) = \<lparr>rp_status = st, rp_body = Some v\<rparr>"
    and render_error: "rp_status (V st (Err e)) = 500"

definition plain_render :: renderer where
  "plain_render st v = (case v of Ret j \<Rightarrow> \<lparr>rp_status = st, rp_body = Some j\<rparr> | _ \<Rightarrow> \<lparr>rp_status = 500, rp_body = None\<rparr>)"

interpretation plain: rendering plain_render
  by unfold_locales (simp_all add: plain_render_def)

lemma Marshal_job_no_panic: "Marshal_job U j \<noteq> Panic t"
  by (simp add: Marshal_job_def)

lemma collect_no_panic: "(\<And>x t. f x \<noteq> Panic t) \<Longrightarrow> collect f xs \<noteq> Panic t"
proof (induction xs)
  case (Cons x xs)
  then show ?case by (cases "f x"; cases "collect f xs") auto
qed simp

lemma marshal_no_panic:
  "marshal_response U r \<noteq> Panic t" "marshal_status U st \<noteq> Panic t" "marshal_times ts j \<noteq> Panic t"
  "marshal_page U jobs n f \<noteq> Panic t"
proof -
  show "marshal_page U jobs n f \<noteq> Panic t"
    using collect_no_panic [of "Marshal_job U" jobs] Marshal_job_no_panic [of U]
    by (cases "collect (Marshal_job U) jobs") (auto simp: marshal_page_def)
qed (auto simp: marshal_response_def marshal_status_def marshal_times_def)

lemma dec_no_panic:
  "dec_str v f x \<noteq> Panic t" "dec_int v g y \<noteq> Panic t" "dec_time_ptr v h z \<noteq> Panic t"
  by (cases v; simp add: type_mismatch_def)+

lemma unmarshal_submit_no_panic: "unmarshal_submit v \<noteq> Panic t"
proof -
  have f: "unmarshal_submit_field k v r \<noteq> Panic t" for k v r
    by (simp add: unmarshal_submit_field_def dec_no_panic)
  have "dec_members unmarshal_submit_field kvs r \<noteq> Panic t" for kvs r
  proof (induction kvs arbitrary: r)
    case (Cons kv kvs)
    obtain k v where kv: "kv = (k, v)" by (cases kv)
    show ?case using Cons f [of "fold_name k" v r] by (cases "unmarshal_submit_field (fold_name k) v r") (auto simp: kv)
  qed simp
  then show ?thesis by (cases v) (auto simp: unmarshal_submit_def type_mismatch_def)
qed

context rendering
begin

lemma error_status [simp]: "rp_status (renderError V st m) = st" "rp_body (renderError V st m) = Some (JObj [(''error'', JStr (json_string m))])"
  by (simp_all add: renderError_def renderJSON_def render_value)

lemma json_status: "(\<And>t. v \<noteq> Panic t) \<Longrightarrow> st \<in> A \<Longrightarrow> 500 \<in> A \<Longrightarrow> rp_status (renderJSON V st v) \<in> A"
  using render_value render_error by (cases v) (auto simp: renderJSON_def)

lemma not_found_status: "404 \<in> A \<Longrightarrow> 500 \<in> A \<Longrightarrow> rp_status (not_found_or V what e) \<in> A"
  by (simp add: not_found_or_def)

lemmas reply_status = not_found_status json_status [OF marshal_no_panic(1)] json_status [OF marshal_no_panic(2)]
  json_status [OF marshal_no_panic(3)] json_status [OF marshal_no_panic(4)] json_status [OF Marshal_job_no_panic]

lemma on_result_status:
  assumes "on_result m bad good s = (Ret r, s')" "\<And>e. rp_status (bad e) \<in> A" "\<And>x. rp_status (good x) \<in> A"
  shows "rp_status r \<in> A"
  using assms by (auto simp: on_result_def split: prod.splits res.splits)

lemma one_job_status:
  assumes "with_id C V rq (\<lambda>u. on_result (m u) bad good) s = (Ret r, s')"
    and "\<And>e. rp_status (bad e) \<in> A" "\<And>x. rp_status (good x) \<in> A" "400 \<in> A"
  shows "rp_status r \<in> A"
  using assms on_result_status [where bad = bad and good = good and A = A]
  by (auto simp: with_id_def answer_def split: option.splits)

lemma submit_status:
  assumes "handleSubmitJob C V i rq s = (Ret r, s')"
  shows "rp_status r \<in> {201, 400, 500}"
proof -
  have on: "rp_status r \<in> {201, 400, 500}"
    if "on_result m (\<lambda>e. renderError V 500 (f e)) (\<lambda>job. renderJSON V 201 (marshal_response U (g job))) s = (Ret r, s')"
    for m f U g
    by (rule on_result_status [OF that]) ((rule reply_status; simp) | simp)+
  show ?thesis using assms on
    by (auto simp: handleSubmitJob_def answer_def split: sum.splits res.splits option.splits if_splits)
qed

lemma job_status_codes:
  "handleGetJob C V rq s = (Ret r, s') \<Longrightarrow> rp_status r \<in> {200, 400, 404, 500}"
  "handleGetJobStatus C V rq s = (Ret r, s') \<Longrightarrow> rp_status r \<in> {200, 400, 404, 500}"
  "handleDeleteJob C V rq s = (Ret r, s') \<Longrightarrow> rp_status r \<in> {204, 400, 404, 500}"
  "handleRetryJob C V i rq s = (Ret r, s') \<Longrightarrow> rp_status r \<in> {200, 400, 500}"
  unfolding handleGetJob_def handleGetJobStatus_def handleDeleteJob_def handleRetryJob_def
  by (erule one_job_status; ((rule reply_status; simp) | simp add: renderJSON_def render_value))+

lemma list_status:
  assumes "handleListJobs C V rq s = (Ret r, s')"
  shows "rp_status r \<in> {200, 500}"
proof (rule on_result_status [OF assms [unfolded handleListJobs_def Let_def]])
  show "rp_status (case x of (jobs, tot) \<Rightarrow> renderJSON V 200 (marshal_page (c_uuid C) jobs tot (list_filter (ar_query rq)))) \<in> {200, 500}" for x
    unfolding prod.case_eq_if by (rule reply_status; simp)
qed simp

lemma handle_status:
  assumes "handle C V mp e i rq s = (Ret r, s')" "rp_status mp = 200"
  shows "rp_status r \<in> {200, 201, 204, 400, 404, 500}"
proof (cases e)
  case HealthE
  then have "r = renderJSON V 200 (marshal_times [in_now i 0]
      (JObj [(''status'', JStr ''healthy''), (''timestamp'', JTime (in_now i 0))]))"
    using assms(1) by (simp add: handle_def handleHealth_def answer_def)
  then show ?thesis by (simp only:) (rule reply_status; simp)
next
  case MetricsE
  then show ?thesis using assms by (auto simp: handle_def answer_def)
qed (use assms(1) submit_status [of C i rq s r s'] job_status_codes(1-3) [of C rq s r s']
    job_status_codes(4) [of C i rq s r s'] list_status [of C rq s r s'] in \<open>auto simp: handle_def\<close>)

end

section \<open>Handlers of a single job\<close>

context job_store
begin

lemma get_job_codes:
  assumes "rendering V" "c_store C = S" "u_Parse (c_uuid C) (ar_id rq) = Some u"
  shows "\<exists>r p. handleGetJob C V rq s = (Ret r, s\<lparr>sy_pg := p\<rparr>) \<and> rows p = rows (sy_pg s) \<and>
    (case rows (sy_pg s) u of
       None \<Rightarrow> rp_status r = 404
     | Some w \<Rightarrow> (case scan_job w of
         Ret job \<Rightarrow> job_encodable job \<longrightarrow> r = \<lparr>rp_status = 200, rp_body = Some (marshal_job (c_uuid C) job)\<rparr>
       | _ \<Rightarrow> rp_status r = 500))"
proof (cases "rows (sy_pg s) u")
  case None
  with get_none [OF None] assms show ?thesis
    by (auto simp: handleGetJob_def with_id_def on_result_def Core_GetJob_def not_found_or_def rendering.error_status)
next
  case (Some w)
  obtain p where p: "s_GetJob S u (sy_pg s) = (map_err (wrapf ''get job: '') (scan_job w), p)" "rows p = rows (sy_pg s)"
    using get_some [OF Some] by blast
  have np: "scan_job w \<noteq> Panic t" for t by (simp add: scan_job_def scan_null_def split: option.split)
  show ?thesis
  proof (cases "scan_job w")
    case (Ret job)
    with p assms Some show ?thesis
      by (auto simp: handleGetJob_def with_id_def on_result_def Core_GetJob_def renderJSON_def Marshal_job_def rendering.render_value)
  next
    case (Err e)
    with p assms Some show ?thesis
      by (auto simp: handleGetJob_def with_id_def on_result_def Core_GetJob_def not_found_or_def rendering.error_status wrapf_def)
  qed (use np in blast)
qed

lemma submit_one_time:
  assumes "rendering V" "c_store C = S" "ar_body rq = Inr v" "unmarshal_submit v = Ret req" "req_Cron req = ''''"
  shows "\<exists>r p. handleSubmitJob C V i rq s = (Ret r, s\<lparr>sy_pg := p\<rparr>) \<and> rows p = rows (sy_pg s) \<and>
    rp_status r = (if SubmitJobRequest_Validate req = None then 500 else 400)"
proof (cases "SubmitJobRequest_Validate req")
  case None
  obtain e p where "SubmitJob C i req s = (Err e, s\<lparr>sy_pg := p\<rparr>)" "rows p = rows (sy_pg s)"
    using SubmitJob_no_cron [OF assms(5,2)] by blast
  with None assms show ?thesis
    by (auto simp: handleSubmitJob_def on_result_def rendering.error_status)
next
  case (Some e)
  with assms show ?thesis
    by (auto simp: handleSubmitJob_def answer_def rendering.error_status intro!: exI [of _ "sy_pg s"])
qed

end

section \<open>Properties\<close>

text \<open>
  C28: every request that reaches an endpoint is answered, with one of the status codes 200, 201, 204,
  400, 404 and 500, also when its handler panics, and is logged with the method, the path and the
  status that was sent.
\<close>

theorem api_always_answers:
  assumes "rendering V" "rp_status metrics_page = 200"
  shows "\<exists>r w entry s'. Server_ServeHTTP (NewServer C addr) V metrics_page c e i rq s = (Ret (r, w, entry), s') \<and>
    rp_status r \<in> {200, 201, 204, 400, 404, 500} \<and> ww_sent w = Some (rp_status r) \<and>
    al_status entry = rp_status r \<and> al_method entry = cn_method c \<and> al_path entry = cn_path c"
proof -
  obtain x s' where x: "handle C V metrics_page e i rq s = (x, s')" by (cases "handle C V metrics_page e i rq s")
  have "\<exists>r s'. ServeHTTP C V metrics_page e i rq s = (Ret r, s') \<and> rp_status r \<in> {200, 201, 204, 400, 404, 500}"
  proof (cases x)
    case (Ret r)
    with x rendering.handle_status [OF assms(1), of C metrics_page e i rq s r s'] assms(2) show ?thesis
      by (simp add: ServeHTTP_def recoveryMiddleware_def)
  next
    case (Panic t)
    with x assms(1) show ?thesis by (simp add: ServeHTTP_def recoveryMiddleware_def rendering.error_status)
  next
    case (Err err)
    have False if "handle C V metrics_page e i rq s = (Err err, s')"
      using that by (cases e) (auto simp: handle_def handleSubmitJob_def handleListJobs_def handleGetJob_def handleGetJobStatus_def
        handleDeleteJob_def handleRetryJob_def handleHealth_def answer_def with_id_def on_result_def Let_def
        split: sum.splits res.splits option.splits prod.splits if_splits)
    with x Err show ?thesis by blast
  qed
  then show ?thesis
    by (auto simp: Server_ServeHTTP_def NewServer_def loggingMiddleware_def WriteHeader_def Let_def)
qed

definition bad_cron_request :: api_request where
  "bad_cron_request = \<lparr>ar_id = '''', ar_query = (\<lambda>_. ''''),
     ar_body = Inr (JObj [(''type'', JStr ''report''), (''timeout'', JNum 1000), (''cron'', JStr ''*/0 * * * *'')])\<rparr>"

lemma api_always_answers_witness:
  "\<exists>r w entry s'. Server_ServeHTTP (NewServer demo_core '':8080'') plain_render \<lparr>rp_status = 200, rp_body = None\<rparr>
     \<lparr>cn_method = ''POST'', cn_path = ''/jobs/'', cn_remote = '''', cn_start = 0, cn_end = 1\<rparr>
     SubmitJobE demo_inputs bad_cron_request (init_core empty_server empty_tables) = (Ret (r, w, entry), s')"
  using api_always_answers [OF plain.rendering_axioms, of "\<lparr>rp_status = 200, rp_body = None\<rparr>" demo_core "'':8080''"
      "\<lparr>cn_method = ''POST'', cn_path = ''/jobs/'', cn_remote = '''', cn_start = 0, cn_end = 1\<rparr>" SubmitJobE demo_inputs
      bad_cron_request "init_core empty_server empty_tables"] by auto

text \<open>
  C40: with the store on PostgreSQL, a request for a one-time job is never accepted: it is answered with
  400 if it does not validate and with 500 otherwise, and neither the queue nor the rows change.
\<close>

theorem api_rejects_one_time_jobs:
  assumes "postgres P tables" "rendering V" "ar_body rq = Inr v" "unmarshal_submit v = Ret req" "req_Cron req = ''''"
  shows "\<exists>r p. ServeHTTP (NewCore q (PostgreSQLStore P) l U) V metrics_page SubmitJobE i rq s = (Ret r, s\<lparr>sy_pg := p\<rparr>) \<and>
    (\<forall>u. find_row u (tables p) = find_row u (tables (sy_pg s))) \<and>
    rp_status r = (if SubmitJobRequest_Validate req = None then 500 else 400)"
proof -
  let ?C = "NewCore q (PostgreSQLStore P) l U"
  have "c_store ?C = PostgreSQLStore P" by (simp add: NewCore_def)
  from job_store.submit_one_time [OF postgres.store_contract [OF assms(1)] assms(2) this assms(3-5), of i s]
  show ?thesis by (auto simp: ServeHTTP_def recoveryMiddleware_def handle_def fun_eq_iff)
qed

lemma api_rejects_one_time_jobs_witness:
  "\<exists>r s'. ServeHTTP demo_core plain_render \<lparr>rp_status = 200, rp_body = None\<rparr> SubmitJobE demo_inputs
     \<lparr>ar_id = '''', ar_query = (\<lambda>_. ''''),
       ar_body = Inr (JObj [(''type'', JStr ''send-email''), (''timeout'', JNum 1000)])\<rparr>
     (init_core empty_server empty_tables) = (Ret r, s') \<and> rp_status r = 500"
proof -
  let ?v = "JObj [(''type'', JStr ''send-email''), (''timeout'', JNum 1000)]"
  let ?rq = "\<lparr>ar_id = '''', ar_query = (\<lambda>_. ''''), ar_body = Inr ?v\<rparr>"
  let ?req = "zero_submit\<lparr>req_Type := ''send-email'', req_Timeout := 1000\<rparr>"
  have 1: "ar_body ?rq = Inr ?v" by simp
  have 2: "unmarshal_submit ?v = Ret ?req" by code_simp
  have 3: "req_Cron ?req = ''''" "SubmitJobRequest_Validate ?req = None" by (simp_all add: zero_submit_def SubmitJobRequest_Validate_def)
  show ?thesis
    using api_rejects_one_time_jobs [OF mem_db.postgres_axioms plain.rendering_axioms 1 2 3(1), of
        "RedisQueue mem_redis demo_uuid" "RedisLocker mem_redis" demo_uuid "\<lparr>rp_status = 200, rp_body = None\<rparr>" demo_inputs "init_core empty_server empty_tables"]
    unfolding 3(2) demo_core_def by auto
qed

text \<open>
  C14: \<open>GET /jobs/{id}\<close> answers 400 for an id that is not a UUID, 404 for an unknown job, 500 for a job
  that no worker has touched, and otherwise 200 with the job.
\<close>

theorem api_get_job_codes:
  assumes "postgres P tables" "rendering V"
  shows "\<exists>r p. ServeHTTP (NewCore q (PostgreSQLStore P) l U) V metrics_page GetJobE i rq s = (Ret r, s\<lparr>sy_pg := p\<rparr>) \<and>
    (case u_Parse U (ar_id rq) of
       None \<Rightarrow> rp_status r = 400
     | Some u \<Rightarrow> (case find_row u (tables (sy_pg s)) of
         None \<Rightarrow> rp_status r = 404
       | Some w \<Rightarrow> (case scan_job w of
           Ret job \<Rightarrow> job_encodable job \<longrightarrow> r = \<lparr>rp_status = 200, rp_body = Some (marshal_job U job)\<rparr>
         | _ \<Rightarrow> rp_status r = 500)))"
proof -
  let ?C = "NewCore q (PostgreSQLStore P) l U"
  have sel: "c_store ?C = PostgreSQLStore P" "c_uuid ?C = U" by (simp_all add: NewCore_def)
  show ?thesis
  proof (cases "u_Parse U (ar_id rq)")
    case None
    then show ?thesis using sel assms(2)
      by (auto simp: ServeHTTP_def recoveryMiddleware_def handle_def handleGetJob_def with_id_def answer_def
          rendering.error_status intro!: exI [of _ "sy_pg s"])
  next
    case (Some u)
    then have "u_Parse (c_uuid ?C) (ar_id rq) = Some u" by (simp add: sel)
    from job_store.get_job_codes [OF postgres.store_contract [OF assms(1)] assms(2) sel(1) this, of s] Some
    show ?thesis unfolding sel by (auto simp: ServeHTTP_def recoveryMiddleware_def handle_def)
  qed
qed

lemma api_get_job_codes_witness:
  "\<exists>r s'. ServeHTTP demo_core plain_render \<lparr>rp_status = 200, rp_body = None\<rparr> GetJobE demo_inputs
     \<lparr>ar_id = ''7'', ar_query = (\<lambda>_. ''''), ar_body = Inl ContextCanceled\<rparr> (init_core empty_server one_row) = (Ret r, s') \<and>
     rp_status r = 500"
proof -
  have p: "u_Parse demo_uuid ''7'' = Some 7" by code_simp
  have s: "scan_job (row_us (job_to_row cron_demo)) = scan_null" by (rule scan_never_run) simp
  show ?thesis
    using api_get_job_codes [OF mem_db.postgres_axioms plain.rendering_axioms, of
        "RedisQueue mem_redis demo_uuid" "RedisLocker mem_redis" demo_uuid "\<lparr>rp_status = 200, rp_body = None\<rparr>" demo_inputs
        "\<lparr>ar_id = ''7'', ar_query = (\<lambda>_. ''''), ar_body = Inl ContextCanceled\<rparr>" "init_core empty_server one_row"]
    unfolding demo_core_def by (auto simp: p s scan_null_def init_core_def)
qed

end
