(* ===== verification/Handler_Facts.thy ===== *)
theory Handler_Facts
  imports Worker_Handlers
begin

text \<open>What the built-in handlers check before they report success.\<close>

lemma unmarshal_payload_Ret:
  "unmarshal_payload f zero job = Ret p \<longleftrightarrow> (\<exists>v. job_Payload job = Some v \<and> dec_struct f zero v = Ret p)"
  by (auto simp: unmarshal_payload_def map_err_eq_Ret split: option.splits)

lemma wait_timer_Ret: "wait_timer x = Ret () \<longleftrightarrow> ex_ctx x = None"
  by (simp add: wait_timer_def split: option.split)

text \<open>The payload of a payment, a webhook and a cleanup job as its handler decodes it.\<close>

definition payment_of :: "Job \<Rightarrow> PaymentPayload res" where
  "payment_of job = unmarshal_payload payment_field
     \<lparr>pay_OrderID = '''', pay_Amount = (0, 0), pay_Currency = '''', pay_Method = '''', pay_CustomerID = ''''\<rparr> job"

definition webhook_of :: "Job \<Rightarrow> WebhookPayload res" where
  "webhook_of job = unmarshal_payload webhook_field
     \<lparr>wh_URL = '''', wh_Method = '''', wh_Headers = [], wh_Body = None, wh_RetryPolicy = \<lparr>wr_MaxRetries = 0, wr_Timeout = 0\<rparr>\<rparr> job"

definition cleanup_of :: "Job \<Rightarrow> DataCleanupPayload res" where
  "cleanup_of job = unmarshal_payload cleanup_field \<lparr>dc_Table = '''', dc_OlderThan = '''', dc_BatchSize = 0\<rparr> job"

lemma payment_success_iff:
  "ProcessPayment_Execute x job = Ret () \<longleftrightarrow>
     (\<exists>p. payment_of job = Ret p \<and> float_positive (pay_Amount p)) \<and> ex_ctx x = None"
  unfolding ProcessPayment_Execute_def payment_of_def [symmetric]
  by (cases "payment_of job") (auto simp: wait_timer_Ret)

lemma cleanup_success_iff:
  "DataCleanup_Execute x job = Ret () \<longleftrightarrow> (\<exists>p. cleanup_of job = Ret p \<and> dc_Table p \<noteq> '''') \<and> ex_ctx x = None"
  unfolding DataCleanup_Execute_def cleanup_of_def [symmetric]
  by (cases "cleanup_of job") (auto simp: wait_timer_Ret)

lemma webhook_success_iff:
  "WebhookCall_Execute U x job = Ret () \<longleftrightarrow>
     (\<exists>p resp. webhook_of job = Ret p \<and> wh_URL p \<noteq> '''' \<and>
        hc_NewRequest (ex_http x) (rq_method (webhook_request U p job)) (wh_URL p) = None \<and>
        hc_Do (ex_http x) (webhook_request U p job) = Inr resp \<and> 200 \<le> rs_status resp \<and> rs_status resp < 300)"
proof -
  have url: "rq_url (webhook_request U p job) = wh_URL p" for p by (simp add: webhook_request_def)
  show ?thesis
    unfolding WebhookCall_Execute_def webhook_of_def [symmetric] Let_def url
    by (cases "webhook_of job") (auto split: option.splits sum.splits)
qed

section \<open>Where the values come from\<close>

text \<open>A value that decoding the members has put into a field was given by a member.\<close>

lemma dec_members_invariant:
  assumes "dec_members f kvs z = Ret p" "I z"
    and "\<And>k v y y'. (k, v) \<in> set kvs \<Longrightarrow> I y \<Longrightarrow> f (fold_name k) v y = Ret y' \<Longrightarrow> I y'"
  shows "I p"
  using assms
proof (induction kvs arbitrary: z)
  case (Cons kv kvs)
  obtain k v where kv: "kv = (k, v)" by (cases kv)
  from Cons.prems(1) obtain y where y: "f (fold_name k) v z = Ret y" "dec_members f kvs y = Ret p"
    by (auto simp: kv bind_res_eq_Ret)
  show ?case
    by (rule Cons.IH [OF y(2)]) (use Cons.prems(2,3) y(1) in \<open>auto simp: kv\<close>)
qed simp

lemma payload_member:
  assumes "unmarshal_payload f zero job = Ret p" "g p \<noteq> g zero"
    and step: "\<And>k v y y'. f k v y = Ret y' \<Longrightarrow> g y' = g y \<or> R k v (g y')"
  shows "\<exists>kvs k v. job_Payload job = Some (JObj kvs) \<and> (k, v) \<in> set kvs \<and> R (fold_name k) v (g p)"
proof -
  obtain v where v: "job_Payload job = Some v" "dec_struct f zero v = Ret p"
    using assms(1) by (auto simp: unmarshal_payload_Ret)
  show ?thesis
  proof (cases v)
    case (JObj kvs)
    let ?I = "\<lambda>y. g y = g zero \<or> (\<exists>k v. (k, v) \<in> set kvs \<and> R (fold_name k) v (g y))"
    have "dec_members f kvs zero = Ret p" using v(2) JObj by simp
    then have "?I p"
    proof (rule dec_members_invariant [where I = ?I])
      fix k w y y' assume "(k, w) \<in> set kvs" "?I y" "f (fold_name k) w y = Ret y'"
      with step [of "fold_name k" w y y'] show "?I y'" by auto
    qed simp
    with v JObj assms(2) show ?thesis by auto
  qed (use v assms(2) in \<open>auto simp: type_mismatch_def\<close>)
qed

definition number :: "json \<Rightarrow> (int \<times> nat) option" where
  "number v = (case v of JNum n \<Rightarrow> Some (n, 0) | JDec m e \<Rightarrow> Some (m, e) | _ \<Rightarrow> None)"

lemma dec_str_Ret: "dec_str v f y = Ret y' \<longleftrightarrow> (\<exists>s. v = JStr s \<and> y' = f s y) \<or> v = JNull \<and> y' = y"
  by (cases v) (auto simp: type_mismatch_def)

lemma dec_int_Ret: "dec_int v f y = Ret y' \<Longrightarrow> (\<exists>n. v = JNum n \<and> y' = f n y) \<or> v = JNull \<and> y' = y"
  by (cases v) (auto simp: type_mismatch_def split: if_splits)

lemma dec_float_Ret: "dec_float v f y = Ret y' \<Longrightarrow> (\<exists>a. number v = Some a \<and> y' = f a y) \<or> v = JNull \<and> y' = y"
  by (cases v) (auto simp: dec_float_def number_def type_mismatch_def split: if_splits)

lemma dec_nested_Ret: "dec_nested g v old f y = Ret y' \<Longrightarrow> (\<exists>d. y' = f d y) \<or> y' = y"
  by (cases v) (auto simp: dec_nested_def type_mismatch_def bind_res_eq_Ret)

lemma payment_field_amount:
  "payment_field k v y = Ret y' \<Longrightarrow> pay_Amount y' = pay_Amount y \<or> k = ''amount'' \<and> number v = Some (pay_Amount y')"
  by (auto simp: payment_field_def dec_str_Ret dest!: dec_float_Ret split: if_splits)

lemma webhook_field_url:
  "webhook_field k v y = Ret y' \<Longrightarrow> wh_URL y' = wh_URL y \<or> k = ''url'' \<and> v = JStr (wh_URL y')"
  by (auto simp: webhook_field_def dec_str_Ret bind_res_eq_Ret dest!: dec_nested_Ret split: if_splits)

lemma cleanup_field_table:
  "cleanup_field k v y = Ret y' \<Longrightarrow> dc_Table y' = dc_Table y \<or> k = ''table'' \<and> v = JStr (dc_Table y')"
  by (auto simp: cleanup_field_def dec_str_Ret dest!: dec_int_Ret split: if_splits)

lemma not_positive_zero: "\<not> float_positive (0, 0)"
  unfolding float_positive_def fst_conv snd_conv mult_zero_left by simp

lemma amount_from_payload:
  assumes "payment_of job = Ret p" "float_positive (pay_Amount p)"
  shows "\<exists>kvs k v. job_Payload job = Some (JObj kvs) \<and> (k, v) \<in> set kvs \<and>
    fold_name k = ''amount'' \<and> number v = Some (pay_Amount p)"
  by (rule payload_member [OF assms(1) [unfolded payment_of_def], where g = pay_Amount and R = "\<lambda>k v a. k = ''amount'' \<and> number v = Some a"])
    (use assms(2) not_positive_zero payment_field_amount in auto)

lemma url_from_payload:
  assumes "webhook_of job = Ret p" "wh_URL p \<noteq> ''''"
  shows "\<exists>kvs k v. job_Payload job = Some (JObj kvs) \<and> (k, v) \<in> set kvs \<and>
    fold_name k = ''url'' \<and> v = JStr (wh_URL p)"
  by (rule payload_member [OF assms(1) [unfolded webhook_of_def], where g = wh_URL and R = "\<lambda>k v u. k = ''url'' \<and> v = JStr u"])
    (use assms(2) webhook_field_url in auto)

lemma table_from_payload:
  assumes "cleanup_of job = Ret p" "dc_Table p \<noteq> ''''"
  shows "\<exists>kvs k v. job_Payload job = Some (JObj kvs) \<and> (k, v) \<in> set kvs \<and>
    fold_name k = ''table'' \<and> v = JStr (dc_Table p)"
  by (rule payload_member [OF assms(1) [unfolded cleanup_of_def], where g = dc_Table and R = "\<lambda>k v s. k = ''table'' \<and> v = JStr s"])
    (use assms(2) cleanup_field_table in auto)

section \<open>Properties\<close>

text \<open>
  C25: a payment is reported as processed only if the payload is an object with a positive number as its
  amount; a webhook only if the payload has a non-empty URL, the request sent went there, and it was
  answered with a status from 200 to 299; a cleanup only if the payload names a table.
\<close>

theorem handlers_check_payload:
  "(ProcessPayment_Execute x job = Ret () \<longrightarrow>
     (\<exists>kvs k v a. job_Payload job = Some (JObj kvs) \<and> (k, v) \<in> set kvs \<and> fold_name k = ''amount'' \<and>
        number v = Some a \<and> float_positive a)) \<and>
   (WebhookCall_Execute U x job = Ret () \<longrightarrow>
     (\<exists>kvs k url req resp. job_Payload job = Some (JObj kvs) \<and> (k, JStr url) \<in> set kvs \<and> fold_name k = ''url'' \<and>
        url \<noteq> '''' \<and> rq_url req = url \<and> hc_Do (ex_http x) req = Inr resp \<and> 200 \<le> rs_status resp \<and> rs_status resp < 300)) \<and>
   (DataCleanup_Execute x job = Ret () \<longrightarrow>
     (\<exists>kvs k t. job_Payload job = Some (JObj kvs) \<and> (k, JStr t) \<in> set kvs \<and> fold_name k = ''table'' \<and> t \<noteq> ''''))"
proof (intro conjI impI)
  assume "ProcessPayment_Execute x job = Ret ()"
  then obtain p where "payment_of job = Ret p" "float_positive (pay_Amount p)" by (auto simp: payment_success_iff)
  then show "\<exists>kvs k v a. job_Payload job = Some (JObj kvs) \<and> (k, v) \<in> set kvs \<and> fold_name k = ''amount'' \<and>
      number v = Some a \<and> float_positive a"
    using amount_from_payload by blast
next
  assume "WebhookCall_Execute U x job = Ret ()"
  then obtain p resp where p: "webhook_of job = Ret p" "wh_URL p \<noteq> ''''"
    "hc_Do (ex_http x) (webhook_request U p job) = Inr resp" "200 \<le> rs_status resp" "rs_status resp < 300"
    by (auto simp: webhook_success_iff)
  moreover have "rq_url (webhook_request U p job) = wh_URL p" by (simp add: webhook_request_def)
  ultimately show "\<exists>kvs k url req resp. job_Payload job = Some (JObj kvs) \<and> (k, JStr url) \<in> set kvs \<and> fold_name k = ''url'' \<and>
      url \<noteq> '''' \<and> rq_url req = url \<and> hc_Do (ex_http x) req = Inr resp \<and> 200 \<le> rs_status resp \<and> rs_status resp < 300"
    using url_from_payload [OF p(1,2)] by blast
next
  assume "DataCleanup_Execute x job = Ret ()"
  then obtain p where "cleanup_of job = Ret p" "dc_Table p \<noteq> ''''" by (auto simp: cleanup_success_iff)
  then show "\<exists>kvs k t. job_Payload job = Some (JObj kvs) \<and> (k, JStr t) \<in> set kvs \<and> fold_name k = ''table'' \<and> t \<noteq> ''''"
    using table_from_payload by blast
qed

definition pay_job :: Job where
  "pay_job = zero_job\<lparr>job_Payload := Some (JObj [(''Amount'', JDec 995 2), (''currency'', JStr ''EUR'')])\<rparr>"

definition pay_env :: exec_env where
  "pay_env = \<lparr>ex_ctx = None, ex_http = \<lparr>hc_NewRequest = \<lambda>_ _. None, hc_Do = \<lambda>_. Inl ContextCanceled\<rparr>, ex_fmt2 = \<lambda>_. ''9.95''\<rparr>"

lemma handlers_check_payload_witness:
  "\<exists>kvs k v a. job_Payload pay_job = Some (JObj kvs) \<and> (k, v) \<in> set kvs \<and> fold_name k = ''amount'' \<and>
     number v = Some a \<and> float_positive a"
proof -
  have "ProcessPayment_Execute pay_env pay_job = Ret ()" by code_simp
  with handlers_check_payload [of pay_env pay_job demo_uuid] show ?thesis by blast
qed

end
