(* ===== verification/Queue_Recovery.thy ===== *)
theory Queue_Recovery
  imports Queue_Facts
begin

text \<open>
  What the queue does about jobs that a worker took and never finished, and what it reports about
  itself: \<open>ReclaimOrphaned\<close>, \<open>GetDLQ\<close> and \<open>QueueDepth\<close> refine their specifications on the abstract queue.
\<close>

section \<open>Specifications\<close>

text \<open>
  The entries of one worker that are old enough, in the order of their deadlines: a key without a
  readable document is dropped; a job comes back with one retry more, unless it cannot be encoded.
\<close>

fun spec_entries :: "uuid_lib \<Rightarrow> (string \<Rightarrow> go_time) \<Rightarrow> string \<Rightarrow> string list \<Rightarrow> int \<Rightarrow> aqueue \<Rightarrow> int res \<times> aqueue" where
  "spec_entries U now w [] n q = (Ret n, q)"
| "spec_entries U now w (k # ks) n q =
     (case stored U q k of
        Ret j \<Rightarrow>
          (case orphan U (now k) j of
             Ret j' \<Rightarrow>
               if job_encodable j' then spec_entries U now w ks (n + 1) (aq_land w k (spec_requeue U j' q))
               else spec_entries U now w ks n q
           | Err e \<Rightarrow> (Err e, q)
           | Panic p \<Rightarrow> (Panic p, q))
      | _ \<Rightarrow> spec_entries U now w ks n (aq_land w k q))"

definition stale :: "go_time \<Rightarrow> duration \<Rightarrow> string \<Rightarrow> aqueue \<Rightarrow> string list" where
  "stale now maxAge w q = zrange 0 (UnixMilli (time_Add now (- maxAge))) None (aq_inflight q w)"

fun spec_reclaim ::
  "uuid_lib \<Rightarrow> (string \<Rightarrow> go_time) \<Rightarrow> duration \<Rightarrow> string list \<Rightarrow> int \<Rightarrow> aqueue \<Rightarrow> int res \<times> aqueue" where
  "spec_reclaim U now maxAge [] n q = (Ret n, q)"
| "spec_reclaim U now maxAge (w # ws) n q =
     (case spec_entries U now w (stale (now (inflightKey w)) maxAge w q) n q of
        (Ret m, q') \<Rightarrow> spec_reclaim U now maxAge ws m q'
      | (x, q') \<Rightarrow> (x, q'))"

definition spec_depth :: "aqueue \<Rightarrow> int \<rightharpoonup> int" where
  "spec_depth q = (\<lambda>p. if 0 \<le> p \<and> p \<le> 9 then Some (int (length (aq_ready q p))) else None)"

text \<open>A page of the dead letters; it fails as a whole if one of the documents has expired.\<close>

definition spec_dlq :: "uuid_lib \<Rightarrow> int \<Rightarrow> int \<Rightarrow> aqueue \<Rightarrow> Job list res" where
  "spec_dlq U limit offset q =
     (let ks = lrange offset (offset + limit - 1) (aq_dlq q)
      in if list_ex (\<lambda>k. aq_data q k = None) ks then Err (wrapf ''get dlq job data: '' RedisNil)
         else Ret (List.map_filter (\<lambda>k. case stored U q k of Ret j \<Rightarrow> Some j | _ \<Rightarrow> None) ks))"

section \<open>Refinement\<close>

lemma stored_not_Panic: "stored U q k \<noteq> Panic p"
  by (auto simp: stored_def unmarshal_reply_def split: option.splits reply.splits bulk.splits)

lemma orphan_not_Err: "orphan U now j \<noteq> Err e"
  by (auto simp: orphan_def NextRetryTime_def Let_def)

lemma stale_jobs: "typed s \<Longrightarrow> list_all (\<lambda>k. key_kind k = KJob) (stale t maxAge w (queue_of s))"
  using zset_at_wf(3) [of s "inflightKey w"] by (auto simp: stale_def zrange_def list_all_iff queue_of_sel)

context redis_isolated
begin

lemma fetch_Ret:
  "typed (view r) \<Longrightarrow> key_kind k = KJob \<Longrightarrow> stored U (queue_of (view r)) k = Ret j \<Longrightarrow>
     \<exists>r'. fetch_job R U k r = (Ret j, r') \<and> view r' = view r"
  using fetch_job_typed [of r k U] by auto

lemma fetch_Err:
  assumes "typed (view r)" "key_kind k = KJob" "stored U (queue_of (view r)) k = Err e"
  shows "\<exists>r' e'. fetch_job R U k r = (Err e', r') \<and> view r' = view r"
proof -
  obtain r' x where "fetch_job R U k r = (x, r')" "view r' = view r" "\<not> is_Ret x \<and> (\<forall>p. x \<noteq> Panic p)"
    using fetch_job_typed [OF assms(1,2), of U] assms(3) by auto
  then show ?thesis by (cases x) auto
qed

lemma fire_land:
  assumes "typed (view r)"
  shows "typed (view (fire R (ZREM (inflightKey w) k) r))"
    and "queue_of (view (fire R (ZREM (inflightKey w) k) r)) = aq_land w k (queue_of (view r))"
  using assms queue_cmds(3) [OF assms]
  by (simp_all add: fire_def rtt_cmd exec_view typed_redis_doc del: redis_doc.simps)

lemma reclaim_entries_typed:
  assumes "typed (view r)" "list_all (\<lambda>k. key_kind k = KJob) ks"
  shows "\<exists>r'. reclaim_entries R U now (inflightKey w) ks n r =
      (fst (spec_entries U now w ks n (queue_of (view r))), r') \<and> typed (view r') \<and>
      queue_of (view r') = snd (spec_entries U now w ks n (queue_of (view r)))"
  using assms
proof (induction ks arbitrary: n r)
  case (Cons k ks)
  have k: "key_kind k = KJob" "list_all (\<lambda>k. key_kind k = KJob) ks" using Cons.prems(2) by simp_all
  let ?q = "queue_of (view r)" and ?z = "fire R (ZREM (inflightKey w) k)"
  show ?case
  proof (cases "stored U ?q k")
    case (Ret j)
    obtain r1 where r1: "fetch_job R U k r = (Ret j, r1)" "view r1 = view r"
      using fetch_Ret [OF Cons.prems(1) k(1) Ret] by blast
    show ?thesis
    proof (cases "orphan U (now k) j")
      case o: (Ret j')
      show ?thesis
      proof (cases "job_encodable j'")
        case True
        obtain r2 where r2: "Requeue R U j' r1 = (Ret (), r2)" "typed (view r2)"
          "queue_of (view r2) = spec_requeue U j' ?q"
          using Requeue_typed [of r1 j' U] Cons.prems(1) r1(2) True by auto
        from Cons.IH [OF fire_land(1) [OF r2(2)] k(2), of "n + 1" w k] show ?thesis
          by (simp add: Ret r1(1) o True r2(1,3) fire_land(2) [OF r2(2)])
      next
        case False
        then obtain e where "Requeue R U j' r1 = (Err e, r1)" by (simp add: Requeue_def Marshal_job_def)
        with Cons.IH [of r1 n] Cons.prems(1) r1 k(2) show ?thesis by (simp add: Ret o False)
      qed
    qed (use r1 Cons.prems(1) Ret in simp_all)
  next
    case (Err e)
    obtain r1 e' where r1: "fetch_job R U k r = (Err e', r1)" "view r1 = view r"
      using fetch_Err [OF Cons.prems(1) k(1) Err] by blast
    then have t1: "typed (view r1)" using Cons.prems(1) by simp
    from Cons.IH [OF fire_land(1) [OF t1] k(2), of n w k] show ?thesis
      by (simp add: Err r1 fire_land(2) [OF t1])
  qed (simp add: stored_not_Panic)
qed simp

text \<open>An empty in-flight set is no entry of the key space: removing it changes nothing.\<close>

lemma del_empty_inflight:
  assumes "typed (view r)" "aq_inflight (queue_of (view r)) w = []"
  shows "typed (view (fire R (DEL (inflightKey w)) r))"
    and "queue_of (view (fire R (DEL (inflightKey w)) r)) = queue_of (view r)"
proof -
  have "put (inflightKey w) None (view r) = put_zset (inflightKey w) [] (view r)" by (simp add: put_zset_def)
  then have v: "view (fire R (DEL (inflightKey w)) r) = put_zset (inflightKey w) [] (view r)"
    by (simp add: fire_def rtt_cmd exec_view)
  have "(aq_inflight (queue_of (view r)))(w := []) = aq_inflight (queue_of (view r))"
    using assms(2) by (simp add: fun_upd_idem)
  then show "queue_of (view (fire R (DEL (inflightKey w)) r)) = queue_of (view r)"
    unfolding v by (simp add: queue_put_zset)
  show "typed (view (fire R (DEL (inflightKey w)) r))"
    unfolding v put_zset_def using assms(1) by auto
qed

lemma zcard_inflight:
  assumes "typed (view r)"
  shows "\<exists>r'. zcard_or_zero R (inflightKey w) r = (int (length (aq_inflight (queue_of (view r)) w)), r') \<and> view r' = view r"
  using assms
  by (simp add: zcard_or_zero_def rtt_cmd exec_view on_zset_typed queue_of_sel int_of_reply_def)

lemma reclaim_sets_typed:
  assumes "typed (view r)"
  shows "\<exists>r'. reclaim_sets R U now maxAge (map inflightKey ws) n r =
      (fst (spec_reclaim U now maxAge ws n (queue_of (view r))), r') \<and> typed (view r') \<and>
      queue_of (view r') = snd (spec_reclaim U now maxAge ws n (queue_of (view r)))"
  using assms
proof (induction ws arbitrary: n r)
  case (Cons w ws)
  let ?q = "queue_of (view r)" and ?k = "inflightKey w"
  define ks where "ks = stale (now ?k) maxAge w ?q"
  define c where "c = ZRANGEBYSCORE ?k 0 (UnixMilli (time_Add (now ?k) (- maxAge))) None"
  have d: "redis_doc c (view r) = (bulks ks, view r)"
    using Cons.prems by (simp add: c_def ks_def on_zset_typed stale_def queue_of_sel)
  then have v: "view (snd (exec R c r)) = view r" by (simp add: exec_view)
  have "list_all (\<lambda>k. key_kind k = KJob) ks" unfolding ks_def by (rule stale_jobs [OF Cons.prems])
  obtain y q2 where e: "spec_entries U now w ks n ?q = (y, q2)" by (cases "spec_entries U now w ks n ?q")
  with \<open>list_all _ ks\<close> obtain r2 where r2: "reclaim_entries R U now ?k ks n (snd (exec R c r)) = (y, r2)"
    "typed (view r2)" "queue_of (view r2) = q2"
    using reclaim_entries_typed [of "snd (exec R c r)" ks U now w n] Cons.prems v by auto
  note step = c_def [symmetric] ks_def [symmetric] rtt_cmd d r2(1) e
  show ?case
  proof (cases y)
    case (Ret m)
    obtain r3 where r3: "zcard_or_zero R ?k r2 = (int (length (aq_inflight q2 w)), r3)" "view r3 = view r2"
      using zcard_inflight [OF r2(2), of w] r2(3) by auto
    define r4 where "r4 = (if int (length (aq_inflight q2 w)) = 0 then fire R (DEL ?k) r3 else r3)"
    have "typed (view r4)" "queue_of (view r4) = q2"
      using del_empty_inflight [of r3 w] r2(2,3) r3(2) by (simp_all add: r4_def)
    with Cons.IH [of r4 m] show ?thesis
      using r3(1) by (auto simp: step Ret r4_def split: if_splits)
  qed (use r2(2,3) in \<open>simp_all add: step\<close>)
qed simp

text \<open>The sets the scan finds, in any order, are those of all workers with jobs in flight.\<close>

lemma ReclaimOrphaned_typed:
  assumes "typed (view r)"
  shows "\<exists>ws r'. {w. aq_inflight (queue_of (view r)) w \<noteq> []} \<subseteq> set ws \<and>
    ReclaimOrphaned R U now maxAge r =
      (bind_res (fst (spec_reclaim U now maxAge ws 0 (queue_of (view r)))) (\<lambda>n. Ret (n, None)), r') \<and>
    typed (view r') \<and> queue_of (view r') = snd (spec_reclaim U now maxAge ws 0 (queue_of (view r)))"
proof -
  obtain ks where ks: "scan R inflightPrefix r = ((ks, None), r)"
    "set ks = {k. HasPrefix k inflightPrefix \<and> entry (view r) k \<noteq> None}"
    using scan_iso [of inflightPrefix r] by blast
  have "\<forall>k \<in> set ks. \<exists>w. k = inflightKey w" using ks(2) HasPrefix_inflight by auto
  then have "\<exists>ws. ks = map inflightKey ws"
  proof (induction ks)
    case (Cons k ks)
    then obtain w ws where "k = inflightKey w" "ks = map inflightKey ws" by auto
    then show ?case by (intro exI [of _ "w # ws"]) simp
  qed simp
  then obtain ws where ws: "ks = map inflightKey ws" by blast
  have "{w. aq_inflight (queue_of (view r)) w \<noteq> []} \<subseteq> set ws"
  proof
    fix w assume "w \<in> {w. aq_inflight (queue_of (view r)) w \<noteq> []}"
    then have "entry (view r) (inflightKey w) \<noteq> None"
      by (cases "entry (view r) (inflightKey w)") (auto simp: queue_of_def zset_at_def)
    then have "inflightKey w \<in> set ks" unfolding ks(2) by (simp add: HasPrefix_def inflightKey_def)
    then show "w \<in> set ws" unfolding ws by auto
  qed
  moreover obtain y q' where e: "spec_reclaim U now maxAge ws 0 (queue_of (view r)) = (y, q')"
    by (cases "spec_reclaim U now maxAge ws 0 (queue_of (view r))")
  moreover obtain r' where "reclaim_sets R U now maxAge ks 0 r = (y, r')" "typed (view r')" "queue_of (view r') = q'"
    using reclaim_sets_typed [OF assms, of U now maxAge ws 0] ws e by auto
  ultimately show ?thesis using ks(1) by (cases y) (auto simp: ReclaimOrphaned_def)
qed

lemma read_pipe:
  assumes "list_all (\<lambda>c. cmd_key c = None) cs"
  shows "\<exists>r'. pipe R cs r = (pipe_reply (map (\<lambda>c. fst (redis_doc c (view r))) cs), r') \<and> view r' = view r"
proof -
  have "\<exists>r'. run_all R cs r = (map (\<lambda>c. fst (redis_doc c (view r))) cs, r') \<and> view r' = view r"
    using assms
  proof (induction cs arbitrary: r)
    case (Cons c cs)
    have "view (snd (exec R c r)) = view r" using Cons.prems by (simp add: exec_view redis_doc_read)
    with Cons.IH [of "snd (exec R c r)"] Cons.prems obtain r' where
      "run_all R cs (snd (exec R c r)) = (map (\<lambda>c. fst (redis_doc c (view r))) cs, r')" "view r' = view r"
      by auto
    then show ?case by (simp add: exec_reply [symmetric] case_prod_beta Let_def)
  qed simp
  then show ?thesis by (auto simp: pipe_iso)
qed

lemma QueueDepth_typed:
  assumes "typed (view r)"
  shows "\<exists>r'. QueueDepth R r = (Ret (spec_depth (queue_of (view r))), r') \<and> view r' = view r"
proof -
  let ?q = "queue_of (view r)"
  have "map (\<lambda>c. fst (redis_doc c (view r))) (map LLEN ready_keys) =
      map (\<lambda>p. RInt (int (length (aq_ready ?q p)))) priorities"
    using assms by (simp add: ready_keys_def on_list_typed queue_of_sel)
  moreover have "pipe_reply (map (\<lambda>p. RInt (f p)) ps) = Inr (map (\<lambda>p. RInt (f p)) ps)" for f and ps :: "int list"
    by (induction ps) simp_all
  moreover have "list_all (\<lambda>c. cmd_key c = None) (map LLEN ready_keys)" by (simp add: ready_keys_def)
  ultimately obtain r' where r': "pipe R (map LLEN ready_keys) r = (Inr (map (\<lambda>p. RInt (int (length (aq_ready ?q p)))) priorities), r')"
    "view r' = view r"
    using read_pipe [of "map LLEN ready_keys" r] by metis
  have "map_of (zip [0, 1, 2, 3, 4, 5, 6, 7, 8, 9] (map (\<lambda>p. int (length (aq_ready ?q p))) priorities)) = spec_depth ?q"
    by (rule ext) (simp add: spec_depth_def, presburger)
  with r' show ?thesis by (simp add: QueueDepth_def int_of_reply_def comp_def)
qed

lemma GetDLQ_typed:
  assumes "typed (view r)"
  shows "\<exists>r'. GetDLQ R U limit offset r = (spec_dlq U limit offset (queue_of (view r)), r') \<and> view r' = view r"
proof -
  let ?q = "queue_of (view r)"
  define c where "c = LRANGE dlqKey offset (offset + limit - 1)"
  define ks where "ks = lrange offset (offset + limit - 1) (aq_dlq ?q)"
  have d: "redis_doc c (view r) = (bulks ks, view r)"
    using assms by (simp add: c_def ks_def on_list_typed queue_of_sel)
  then have v: "view (snd (exec R c r)) = view r" by (simp add: exec_view)
  have jobs: "key_kind k = KJob" if "k \<in> set ks" for k
    using list_at_jobs [OF assms, of dlqKey] that
    by (auto simp: ks_def lrange_def Let_def queue_of_sel list_all_iff dest: in_set_takeD in_set_dropD)
  define g where "g k = (case aq_data ?q k of None \<Rightarrow> RNil | Some j \<Rightarrow> RBulk (Doc j))" for k
  have g: "fst (redis_doc (GET k) (view r)) = g k" if "k \<in> set ks" for k
  proof -
    have k: "key_kind k = KJob" using jobs that by blast
    note get = get_typed [OF assms, of k] k g_def queue_of_def doc_at_def
    show ?thesis
    proof (cases "str_at (view r) k")
      case (Some b)
      then obtain j where "b = Doc j" using str_at_job [OF assms k] by blast
      with Some show ?thesis by (simp add: get del: redis_doc.simps)
    qed (simp add: get del: redis_doc.simps)
  qed
  have reply: "pipe_reply (map g ks') = (if list_ex (\<lambda>k. aq_data ?q k = None) ks' then Inl RedisNil else Inr (map g ks'))" for ks'
    by (induction ks') (auto simp: g_def split: option.splits)
  have "decode_all U (map g ks) = List.map_filter (\<lambda>k. case stored U ?q k of Ret j \<Rightarrow> Some j | _ \<Rightarrow> None) ks"
    by (simp add: decode_all_def List.map_filter_def filter_map comp_def stored_def g_def)
  moreover obtain r' where "pipe R (map GET ks) (snd (exec R c r)) = (pipe_reply (map g ks), r')" "view r' = view r"
    using read_pipe [of "map GET ks" "snd (exec R c r)"] g by (auto simp: v list_all_iff comp_def cong: map_cong)
  ultimately show ?thesis
    using reply [of ks] d v
    by (auto simp: GetDLQ_def spec_dlq_def c_def [symmetric] ks_def [symmetric] rtt_cmd List.map_filter_def)
qed

end

text \<open>The rest of the contract of a queue.\<close>

locale recovering_queue = job_queue +
  assumes reclaim_law: "ok r \<Longrightarrow>
      \<exists>ws r'. {w. aq_inflight (absq r) w \<noteq> []} \<subseteq> set ws \<and>
        q_ReclaimOrphaned Q now maxAge r =
          (bind_res (fst (spec_reclaim U now maxAge ws 0 (absq r))) (\<lambda>n. Ret (n, None)), r') \<and>
        ok r' \<and> absq r' = snd (spec_reclaim U now maxAge ws 0 (absq r))"
    and depth_law: "ok r \<Longrightarrow> \<exists>r'. q_QueueDepth Q r = (Ret (spec_depth (absq r)), r') \<and> ok r' \<and> absq r' = absq r"
    and dlq_law: "ok r \<Longrightarrow> \<exists>r'. q_GetDLQ Q limit offset r = (spec_dlq U limit offset (absq r), r') \<and> ok r' \<and> absq r' = absq r"

sublocale redis_isolated \<subseteq> rv: recovering_queue "RedisQueue R U" U "\<lambda>r. typed (view r)" "\<lambda>r. queue_of (view r)"
  "\<lambda>r. now_ms (view r)" for U
proof unfold_locales
  fix r now maxAge limit offset
  assume t: "typed (view r)"
  show "\<exists>ws r'. {w. aq_inflight (queue_of (view r)) w \<noteq> []} \<subseteq> set ws \<and>
      q_ReclaimOrphaned (RedisQueue R U) now maxAge r =
        (bind_res (fst (spec_reclaim U now maxAge ws 0 (queue_of (view r)))) (\<lambda>n. Ret (n, None)), r') \<and>
      typed (view r') \<and> queue_of (view r') = snd (spec_reclaim U now maxAge ws 0 (queue_of (view r)))"
    using ReclaimOrphaned_typed [OF t] by (simp add: RedisQueue_def)
  show "\<exists>r'. q_QueueDepth (RedisQueue R U) r = (Ret (spec_depth (queue_of (view r))), r') \<and> typed (view r') \<and>
      queue_of (view r') = queue_of (view r)"
    using QueueDepth_typed [OF t] t by (auto simp: RedisQueue_def)
  show "\<exists>r'. q_GetDLQ (RedisQueue R U) limit offset r = (spec_dlq U limit offset (queue_of (view r)), r') \<and>
      typed (view r') \<and> queue_of (view r') = queue_of (view r)"
    using GetDLQ_typed [OF t, of U limit offset] t by (auto simp: RedisQueue_def)
qed

section \<open>Recovery of crashed jobs\<close>

lemma distinct_set_single: "distinct xs \<Longrightarrow> set xs = {x} \<Longrightarrow> xs = [x]"
  by (cases xs) (auto dest: subset_singletonD)

text \<open>
  One job comes back: it leaves the in-flight set of its worker, and \<open>rj k\<close>, the job with one retry
  more, is stored and pushed to the ready queue of its priority.
\<close>

definition revive :: "uuid_lib \<Rightarrow> (string \<Rightarrow> Job) \<Rightarrow> string \<Rightarrow> string \<Rightarrow> aqueue \<Rightarrow> aqueue" where
  "revive U rj w k q = aq_land w k (spec_requeue U (rj k) q)"

definition revivable :: "uuid_lib \<Rightarrow> (string \<Rightarrow> go_time) \<Rightarrow> (string \<Rightarrow> Job) \<Rightarrow> aqueue \<Rightarrow> string \<Rightarrow> bool" where
  "revivable U now rj q k \<longleftrightarrow> job_key U (rj k) = k \<and> job_encodable (rj k) \<and>
     (\<exists>j. stored U q k = Ret j \<and> orphan U (now k) j = Ret (rj k))"

lemma revive_sel:
  "aq_ready (revive U rj w k q) p =
     (if p = job_Priority (rj k) then job_key U (rj k) # aq_ready q p else aq_ready q p)"
  "aq_delayed (revive U rj w k q) = aq_delayed q" "aq_dlq (revive U rj w k q) = aq_dlq q"
  "aq_inflight (revive U rj w k q) v = (if v = w then zrem k (aq_inflight q v) else aq_inflight q v)"
  "aq_data (revive U rj w k q) = (aq_data q)(job_key U (rj k) \<mapsto> marshal_job U (rj k))"
  by (simp_all add: revive_def spec_requeue_def Let_def aq_defs)

lemma spec_entries_revive:
  assumes "distinct ks" "\<forall>k \<in> set ks. revivable U now rj q k"
  shows "spec_entries U now w ks n q = (Ret (n + int (length ks)), fold (revive U rj w) ks q)"
  using assms
proof (induction ks arbitrary: n q)
  case (Cons k ks)
  obtain j where k: "job_key U (rj k) = k" "job_encodable (rj k)" "stored U q k = Ret j"
    "orphan U (now k) j = Ret (rj k)"
    using Cons.prems(2) by (auto simp: revivable_def)
  have "revivable U now rj (revive U rj w k q) m" if "m \<in> set ks" for m
  proof -
    have "m \<noteq> k" using Cons.prems(1) that by auto
    then have "stored U (revive U rj w k q) m = stored U q m" by (intro stored_cong) (simp add: revive_sel k(1))
    then show ?thesis using Cons.prems(2) that by (simp add: revivable_def)
  qed
  then have "spec_entries U now w ks (n + 1) (revive U rj w k q) =
      (Ret (n + 1 + int (length ks)), fold (revive U rj w) ks (revive U rj w k q))"
    using Cons by simp
  then show ?case using k by (simp add: revive_def [of U rj w k q, symmetric])
qed simp

text \<open>What the recovery of the keys \<open>ks\<close>, in this order, makes of a queue.\<close>

definition revived :: "uuid_lib \<Rightarrow> (string \<Rightarrow> Job) \<Rightarrow> string list \<Rightarrow> aqueue \<Rightarrow> aqueue \<Rightarrow> bool" where
  "revived U rj ks q q' \<longleftrightarrow>
     (\<forall>p. aq_ready q' p = rev (filter (\<lambda>k. job_Priority (rj k) = p) ks) @ aq_ready q p) \<and>
     aq_delayed q' = aq_delayed q \<and> aq_dlq q' = aq_dlq q \<and>
     (\<forall>w. aq_inflight q' w = filter (\<lambda>e. snd e \<notin> set ks) (aq_inflight q w)) \<and>
     (\<forall>k. aq_data q' k = (if k \<in> set ks then Some (marshal_job U (rj k)) else aq_data q k))"

lemma revived_trans: "revived U rj ks q q1 \<Longrightarrow> revived U rj ks' q1 q2 \<Longrightarrow> revived U rj (ks @ ks') q q2"
  by (auto simp: revived_def intro: filter_cong)

lemma revived_fold:
  assumes "\<forall>k \<in> set ks. job_key U (rj k) = k" "\<And>v k. k \<in> set ks \<Longrightarrow> k \<in> members (aq_inflight q v) \<Longrightarrow> v = w"
  shows "revived U rj ks q (fold (revive U rj w) ks q)"
  using assms
proof (induction ks arbitrary: q)
  case (Cons k ks)
  have m: "k' \<in> members (aq_inflight (revive U rj w k q) v) \<Longrightarrow> k' \<in> members (aq_inflight q v)" for k' v
    by (auto simp: revive_sel zrem_def members_def split: if_splits)
  have "zrem k (aq_inflight q v) = aq_inflight q v" if "v \<noteq> w" for v
    using Cons.prems(2) [of k v] that by (auto simp: zrem_def members_def filter_id_conv)
  then have "revived U rj [k] q (revive U rj w k q)"
    using Cons.prems(1) by (auto simp: revived_def revive_sel zrem_def)
  moreover have "revived U rj ks (revive U rj w k q) (fold (revive U rj w) ks (revive U rj w k q))"
    using Cons.prems m by (intro Cons.IH) auto
  ultimately show ?case using revived_trans [of U rj "[k]"] by fastforce
qed (simp add: revived_def)

text \<open>Each job is in flight for one worker, as every delivery of it is.\<close>

definition one_owner :: "aqueue \<Rightarrow> bool" where
  "one_owner q \<longleftrightarrow> (\<forall>v w k. k \<in> members (aq_inflight q v) \<longrightarrow> k \<in> members (aq_inflight q w) \<longrightarrow> v = w) \<and>
     (\<forall>w. distinct (map snd (aq_inflight q w)))"

definition orphans :: "(string \<Rightarrow> go_time) \<Rightarrow> duration \<Rightarrow> string \<Rightarrow> aqueue \<Rightarrow> string list" where
  "orphans now maxAge w q = stale (now (inflightKey w)) maxAge w q"

lemma set_orphans: "set (orphans now maxAge w q) \<subseteq> members (aq_inflight q w)"
  by (auto simp: orphans_def stale_def zrange_def members_def)

lemma distinct_orphans: "one_owner q \<Longrightarrow> distinct (orphans now maxAge w q)"
  by (simp add: orphans_def stale_def zrange_def one_owner_def distinct_map_filter)

lemma orphans_revived:
  "revived U rj ks q q' \<Longrightarrow> orphans now maxAge w q' = filter (\<lambda>k. k \<notin> set ks) (orphans now maxAge w q)"
  by (simp add: orphans_def stale_def zrange_def revived_def filter_map comp_def conj_ac)

lemma one_owner_revived:
  assumes "revived U rj ks q q'" "one_owner q"
  shows "one_owner q'"
proof -
  have f: "aq_inflight q' w = filter (\<lambda>e. snd e \<notin> set ks) (aq_inflight q w)" for w
    using assms(1) by (simp add: revived_def)
  then have "members (aq_inflight q' w) \<subseteq> members (aq_inflight q w)" for w by (auto simp: members_def)
  then show ?thesis using assms(2) unfolding one_owner_def by (metis subsetD f distinct_map_filter)
qed

lemma revivable_revived:
  "revived U rj ks q q' \<Longrightarrow> revivable U now rj q k \<Longrightarrow> k \<notin> set ks \<Longrightarrow> revivable U now rj q' k"
  using stored_cong [of q k q' U] by (simp add: revivable_def revived_def)

lemma spec_reclaim_revive:
  assumes "one_owner q" "\<And>w k. k \<in> set (orphans now maxAge w q) \<Longrightarrow> revivable U now rj q k"
  shows "\<exists>ks q'. spec_reclaim U now maxAge ws n q = (Ret (n + int (length ks)), q') \<and> distinct ks \<and>
    set ks = (\<Union>w \<in> set ws. set (orphans now maxAge w q)) \<and> revived U rj ks q q'"
  using assms
proof (induction ws arbitrary: n q)
  case Nil
  then show ?case by (intro exI [of _ "[]"]) (simp add: revived_def)
next
  case (Cons w ws)
  define ks where "ks = orphans now maxAge w q"
  define q1 where "q1 = fold (revive U rj w) ks q"
  have d: "distinct ks" and g: "\<forall>k \<in> set ks. revivable U now rj q k"
    using Cons.prems distinct_orphans by (simp_all add: ks_def)
  have e: "spec_entries U now w ks n q = (Ret (n + int (length ks)), q1)"
    unfolding q1_def by (rule spec_entries_revive [OF d g])
  have r1: "revived U rj ks q q1" unfolding q1_def
  proof (rule revived_fold)
    show "\<forall>k \<in> set ks. job_key U (rj k) = k" using g by (simp add: revivable_def)
    show "v = w" if "k \<in> set ks" "k \<in> members (aq_inflight q v)" for v k
      using that Cons.prems(1) set_orphans [of now maxAge w q] by (auto simp: ks_def one_owner_def)
  qed
  note o1 = orphans_revived [OF r1]
  have g1: "revivable U now rj q1 k" if "k \<in> set (orphans now maxAge v q1)" for v k
    using that Cons.prems(2) [of k v] revivable_revived [OF r1, of now k] by (simp add: o1)
  have "\<exists>ks' q'. spec_reclaim U now maxAge ws (n + int (length ks)) q1 =
      (Ret (n + int (length ks) + int (length ks')), q') \<and> distinct ks' \<and>
      set ks' = (\<Union>w \<in> set ws. set (orphans now maxAge w q1)) \<and> revived U rj ks' q1 q'"
    by (rule Cons.IH [OF one_owner_revived [OF r1 Cons.prems(1)]]) (rule g1)
  then obtain ks' q' where r2: "spec_reclaim U now maxAge ws (n + int (length ks)) q1 = (Ret (n + int (length ks) + int (length ks')), q')"
    "distinct ks'" "set ks' = (\<Union>w \<in> set ws. set (orphans now maxAge w q1))" "revived U rj ks' q1 q'"
    by blast
  have "set (ks @ ks') = (\<Union>w \<in> set (w # ws). set (orphans now maxAge w q))" "distinct (ks @ ks')"
    using r2(2,3) d by (auto simp: o1 ks_def)
  moreover have "spec_reclaim U now maxAge (w # ws) n q = (Ret (n + int (length (ks @ ks'))), q')"
    using e r2(1) by (simp add: orphans_def [symmetric] ks_def [symmetric] add.assoc)
  ultimately show ?case using revived_trans [OF r1 r2(4)] by blast
qed

text \<open>
  A key whose job can be put back: its document is a job with this key, fewer than 20 retries, times
  that JSON can express, and the clock shows a time in the years 1970 to 8300.
\<close>

definition recoverable :: "uuid_lib \<Rightarrow> aqueue \<Rightarrow> go_time \<Rightarrow> string \<Rightarrow> bool" where
  "recoverable U q t k =
     (case stored U q k of
        Ret j \<Rightarrow> job_key U j = k \<and> job_encodable j \<and> job_int64 j \<and> 0 \<le> job_RetryCount j \<and> job_RetryCount j < 20 \<and>
          0 \<le> t \<and> t < 200000000000 * 1000000000
      | _ \<Rightarrow> False)"

definition retried :: "uuid_lib \<Rightarrow> (string \<Rightarrow> go_time) \<Rightarrow> aqueue \<Rightarrow> string \<Rightarrow> Job" where
  "retried U now q k = (case bind_res (stored U q k) (orphan U (now k)) of Ret j \<Rightarrow> j | _ \<Rightarrow> zero_job)"

lemma retried_job:
  assumes "recoverable U q (now k) k"
  obtains j t where "stored U q k = Ret j" "orphan U (now k) j = Ret (retried U now q k)"
    "retried U now q k = j\<lparr>job_RetryCount := job_RetryCount j + 1, job_Status := JobStatusPending, job_WorkerID := '''',
      job_ScheduledAt := t\<rparr>"
    "job_key U j = k" "job_encodable (retried U now q k)" "job_int64 (retried U now q k)"
    "now k + 5000000000 * 2 ^ nat (job_RetryCount j + 1) \<le> t"
    "t < now k + 5000000000 * 2 ^ nat (job_RetryCount j + 1) + 1000000000"
proof -
  obtain j where j: "stored U q k = Ret j" "job_key U j = k" "job_encodable j" "job_int64 j" "0 \<le> job_RetryCount j"
    "job_RetryCount j < 20" "0 \<le> now k" "now k < 200000000000 * 1000000000"
    using assms by (auto simp: recoverable_def split: res.splits)
  let ?j = "j\<lparr>job_RetryCount := job_RetryCount j + 1, job_Status := JobStatusPending, job_WorkerID := ''''\<rparr>"
  have c: "go_int (job_RetryCount j + 1) = job_RetryCount j + 1"
    using j(5,6) by (intro go_int_id) (simp add: in_int64_def min_int64_def max_int64_def)
  have s: "sint (5 * second) = 5000000000" by (simp add: second_def)
  obtain t where t: "NextRetryTime U (now k) (5 * second) ?j = Ret t"
    "now k + 5000000000 * 2 ^ nat (job_RetryCount j + 1) \<le> t"
    "t < now k + 5000000000 * 2 ^ nat (job_RetryCount j + 1) + 1000000000"
    using NextRetryTime_bounds [of ?j "5 * second" U "now k"] j(5,6) s by auto
  have o: "orphan U (now k) j = Ret (?j\<lparr>job_ScheduledAt := t\<rparr>)" using t(1) c by (simp add: orphan_def)
  then have r: "retried U now q k = ?j\<lparr>job_ScheduledAt := t\<rparr>" using j(1) by (simp add: retried_def)
  have "(2::int) ^ nat (job_RetryCount j + 1) \<le> 2 ^ 20" using j(6) by (intro power_increasing) auto
  then have "(2::int) ^ nat (job_RetryCount j + 1) \<le> 1048576" by simp
  moreover have "(0::int) \<le> 2 ^ nat (job_RetryCount j + 1)" by simp
  ultimately have "time_encodable t" using t(2,3) j(7,8) unfolding time_encodable_def by (intro conjI) linarith+
  then have "job_encodable (retried U now q k)" using j(3) by (simp add: r job_encodable_def)
  moreover have "job_int64 (retried U now q k)"
    using j(4,5,6) by (simp add: r job_int64_def in_int64_def min_int64_def max_int64_def)
  ultimately show ?thesis using that j(1,2) o r t(2,3) by simp
qed

lemma revivable_retried: "recoverable U q (now k) k \<Longrightarrow> revivable U now (retried U now q) q k"
  by (erule retried_job) (simp add: revivable_def)

context redis_isolated
begin

lemma reclaim_revives:
  assumes "typed (view r)" "one_owner (queue_of (view r))"
    and "\<And>w k. k \<in> set (orphans now maxAge w (queue_of (view r))) \<Longrightarrow> recoverable U (queue_of (view r)) (now k) k"
  shows "\<exists>ks r'. ReclaimOrphaned R U now maxAge r = (Ret (int (length ks), None), r') \<and> typed (view r') \<and> distinct ks \<and>
    set ks = (\<Union>w. set (orphans now maxAge w (queue_of (view r)))) \<and>
    revived U (retried U now (queue_of (view r))) ks (queue_of (view r)) (queue_of (view r'))"
proof -
  let ?q = "queue_of (view r)"
  obtain ws r' where ws: "{w. aq_inflight ?q w \<noteq> []} \<subseteq> set ws" "typed (view r')"
    "ReclaimOrphaned R U now maxAge r = (bind_res (fst (spec_reclaim U now maxAge ws 0 ?q)) (\<lambda>n. Ret (n, None)), r')"
    "queue_of (view r') = snd (spec_reclaim U now maxAge ws 0 ?q)"
    using ReclaimOrphaned_typed [OF assms(1), of U now maxAge] by blast
  have "aq_inflight ?q w = []" if "w \<notin> set ws" for w using that ws(1) by auto
  then have e: "orphans now maxAge w ?q = []" if "w \<notin> set ws" for w
    using that by (simp add: orphans_def stale_def zrange_def)
  have "w \<in> set ws" if "k \<in> set (orphans now maxAge w ?q)" for w k
    using that e [of w] by (cases "w \<in> set ws") simp_all
  then have u: "(\<Union>w \<in> set ws. set (orphans now maxAge w ?q)) = (\<Union>w. set (orphans now maxAge w ?q))"
    by blast
  have "\<exists>ks q'. spec_reclaim U now maxAge ws 0 ?q = (Ret (0 + int (length ks)), q') \<and> distinct ks \<and>
      set ks = (\<Union>w \<in> set ws. set (orphans now maxAge w ?q)) \<and> revived U (retried U now ?q) ks ?q q'"
    by (rule spec_reclaim_revive [OF assms(2)]) (rule revivable_retried, rule assms(3))
  then obtain ks q' where "spec_reclaim U now maxAge ws 0 ?q = (Ret (0 + int (length ks)), q')" "distinct ks"
    "set ks = (\<Union>w \<in> set ws. set (orphans now maxAge w ?q))" "revived U (retried U now ?q) ks ?q q'"
    by blast
  then show ?thesis using ws(2-) u by (intro exI [of _ ks] exI [of _ r']) simp
qed

end

text \<open>The job under the key is the one of before with one retry more, to be started after a backoff.\<close>

definition came_back :: "uuid_lib \<Rightarrow> go_time \<Rightarrow> aqueue \<Rightarrow> aqueue \<Rightarrow> string \<Rightarrow> bool" where
  "came_back U now q q' k \<longleftrightarrow> (\<exists>j t. stored U q k = Ret j \<and>
     stored U q' k = Ret (from_json (j\<lparr>job_RetryCount := job_RetryCount j + 1, job_Status := JobStatusPending,
       job_WorkerID := '''', job_ScheduledAt := t\<rparr>)) \<and>
     now + 5000000000 * 2 ^ nat (job_RetryCount j + 1) \<le> t \<and>
     t < now + 5000000000 * 2 ^ nat (job_RetryCount j + 1) + 1000000000)"

lemma came_back:
  assumes "uuid_ok U" "recoverable U q (now k) k" "aq_data q' k = Some (marshal_job U (retried U now q k))"
  shows "came_back U (now k) q q' k"
  by (rule retried_job [of U q now k, OF assms(2)]) (use stored_marshal [OF assms(1) _ assms(3)] in \<open>auto simp: came_back_def\<close>)

text \<open>The job a \<open>Nack\<close> requeues: one retry more, to be started at \<open>t\<close>.\<close>

definition nacked_job :: "Job \<Rightarrow> string \<Rightarrow> go_time \<Rightarrow> Job" where
  "nacked_job job msg t = job\<lparr>job_RetryCount := go_int (job_RetryCount job + 1), job_Status := JobStatusPending,
     job_ErrorMessage := msg, job_ScheduledAt := t\<rparr>"

lemma nacked_encodable: "job_encodable job \<Longrightarrow> job_encodable (nacked_job job msg t) \<longleftrightarrow> time_encodable t"
  by (simp add: job_encodable_def nacked_job_def)

context redis_isolated
begin

lemma Nack_retry:
  assumes "typed (view r)" "job_encodable job" "IsRetryable job"
  shows "if go_int (job_RetryCount job + 1) < 0
    then Nack R U now job w msg r = (Panic ''negative shift amount'', nacked_job job msg (job_ScheduledAt job), r)
    else \<exists>t r'. typed (view r') \<and>
      (go_int (job_RetryCount job + 1) \<le> 20 \<longrightarrow>
        now + 5000000000 * 2 ^ nat (go_int (job_RetryCount job + 1)) \<le> t \<and>
        t < now + 5000000000 * 2 ^ nat (go_int (job_RetryCount job + 1)) + 1000000000) \<and>
      (if time_encodable t
       then Nack R U now job w msg r = (Ret (), nacked_job job msg t, r') \<and>
         queue_of (view r') = spec_requeue U (nacked_job job msg t) (queue_of (view r))
       else \<exists>e. Nack R U now job w msg r = (Err (wrapf ''marshal job: '' e), nacked_job job msg t, r') \<and> view r' = view r)"
proof -
  let ?j = "nacked_job job msg (job_ScheduledAt job)"
  let ?n = "go_int (job_RetryCount job + 1)"
  have j: "job\<lparr>job_RetryCount := ?n, job_Status := JobStatusPending, job_ErrorMessage := msg\<rparr> = ?j"
    by (simp add: nacked_job_def)
  have rc: "job_RetryCount ?j = ?n" by (simp add: nacked_job_def)
  have at: "?j\<lparr>job_ScheduledAt := t\<rparr> = nacked_job job msg t" for t by (simp add: nacked_job_def)
  show ?thesis
  proof (cases "?n < 0")
    case True
    then show ?thesis using assms(3) rc by (simp add: Nack_def Let_def j NextRetryTime_def)
  next
    case False
    then obtain t where t: "NextRetryTime U now (5 * second) ?j = Ret t" using rc by (simp add: NextRetryTime_def Let_def)
    have b: "?n \<le> 20 \<longrightarrow> now + 5000000000 * 2 ^ nat ?n \<le> t \<and> t < now + 5000000000 * 2 ^ nat ?n + 1000000000"
      using NextRetryTime_bounds [of ?j "5 * second" U now] False t rc by (fastforce simp: second_def)
    have nack: "Nack R U now job w msg r = (case Requeue R U (nacked_job job msg t) r of (x, r') \<Rightarrow> (x, nacked_job job msg t, r'))"
      using assms(3) t by (simp add: Nack_def Let_def j at)
    show ?thesis
    proof (cases "time_encodable t")
      case True
      then have "job_encodable (nacked_job job msg t)" using assms(2) nacked_encodable by simp
      from Requeue_typed [OF assms(1) this, of U] nack b False True show ?thesis by auto
    next
      case enc: False
      then have "\<not> job_encodable (nacked_job job msg t)" using assms(2) nacked_encodable by simp
      then have "Nack R U now job w msg r = (Err (wrapf ''marshal job: '' (Opaque
          ''json: error calling MarshalJSON for type time.Time: year outside of range [0,9999]'')), nacked_job job msg t, r)"
        using nack by (simp add: Requeue_def Marshal_job_def)
      with b False enc assms(1) show ?thesis by auto
    qed
  qed
qed

end

section \<open>Properties\<close>

text \<open>
  C1: On an undisturbed server every operation of the queue has exactly the effect of its specification on the
  abstract queue and keeps the key space well formed. \<open>Enqueue\<close>, \<open>Acknowledge\<close>, \<open>Requeue\<close> and \<open>MoveDelayed\<close>
  succeed; \<open>Dequeue\<close>, \<open>GetDLQ\<close>, \<open>QueueDepth\<close> and \<open>ReclaimOrphaned\<close> return what the specification says (a job, the
  error for an empty queue or for a missing document, the numbers). \<open>Nack\<close> has three cases. A job that is not
  retryable is dead-lettered. A retryable one is stored and requeued with one retry more, the status pending, the
  message, and a start time that for up to 20 retries lies between the exponential backoff and one second after it;
  its entry in flight stays. If that start time has no JSON form the call fails and changes nothing, and if the count
  is negative it panics.
\<close>

theorem queue_refines_spec:
  assumes "redis_isolated R view" and "typed (view r)" and "job_encodable job"
  shows "(\<exists>r'. Enqueue R U now job r = (Ret (), r') \<and> typed (view r') \<and>
      queue_of (view r') = spec_enqueue U now job (queue_of (view r))) \<and>
    (\<exists>r'. Dequeue R U w timeout r = (fst (spec_dequeue U (now_ms (view r)) w timeout (queue_of (view r))), r') \<and>
      typed (view r') \<and> queue_of (view r') = snd (spec_dequeue U (now_ms (view r)) w timeout (queue_of (view r)))) \<and>
    (\<exists>r'. Acknowledge R U u w r = (Ret (), r') \<and> typed (view r') \<and>
      queue_of (view r') = spec_ack U u w (queue_of (view r))) \<and>
    (\<exists>r'. Requeue R U job r = (Ret (), r') \<and> typed (view r') \<and>
      queue_of (view r') = spec_requeue U job (queue_of (view r))) \<and>
    (\<exists>r'. MoveDelayed R U now n r = ((fst (spec_move U now n (queue_of (view r))), None), r') \<and>
      typed (view r') \<and> queue_of (view r') = snd (spec_move U now n (queue_of (view r)))) \<and>
    (\<not> IsRetryable job \<longrightarrow> (\<exists>r'. Nack R U now job w msg r = (Ret (), dead_job job msg, r') \<and> typed (view r') \<and>
      queue_of (view r') = spec_bury U (dead_job job msg) w (queue_of (view r)))) \<and>
    (IsRetryable job \<longrightarrow>
      (if go_int (job_RetryCount job + 1) < 0
       then Nack R U now job w msg r = (Panic ''negative shift amount'', nacked_job job msg (job_ScheduledAt job), r)
       else \<exists>t r'. typed (view r') \<and>
         (go_int (job_RetryCount job + 1) \<le> 20 \<longrightarrow>
           now + 5000000000 * 2 ^ nat (go_int (job_RetryCount job + 1)) \<le> t \<and>
           t < now + 5000000000 * 2 ^ nat (go_int (job_RetryCount job + 1)) + 1000000000) \<and>
         (if time_encodable t
          then Nack R U now job w msg r = (Ret (), nacked_job job msg t, r') \<and>
            queue_of (view r') = spec_requeue U (nacked_job job msg t) (queue_of (view r))
          else \<exists>e. Nack R U now job w msg r = (Err (wrapf ''marshal job: '' e), nacked_job job msg t, r') \<and> view r' = view r))) \<and>
    (\<exists>ws r'. {w. aq_inflight (queue_of (view r)) w \<noteq> []} \<subseteq> set ws \<and>
      ReclaimOrphaned R U clock maxAge r =
        (bind_res (fst (spec_reclaim U clock maxAge ws 0 (queue_of (view r)))) (\<lambda>n. Ret (n, None)), r') \<and>
      typed (view r') \<and> queue_of (view r') = snd (spec_reclaim U clock maxAge ws 0 (queue_of (view r)))) \<and>
    (\<exists>r'. GetDLQ R U limit offset r = (spec_dlq U limit offset (queue_of (view r)), r') \<and> view r' = view r) \<and>
    (\<exists>r'. QueueDepth R r = (Ret (spec_depth (queue_of (view r))), r') \<and> view r' = view r)"
  using redis_isolated.Enqueue_typed [OF assms, of U now] redis_isolated.Dequeue_typed [OF assms(1,2), of U w timeout]
    redis_isolated.Acknowledge_typed [OF assms(1,2), of U u w] redis_isolated.Requeue_typed [OF assms, of U]
    redis_isolated.MoveDelayed_typed [OF assms(1,2), of U now n]
    redis_isolated.Nack_dead [OF assms, of U now w msg] redis_isolated.Nack_retry [OF assms, of U now w msg]
    redis_isolated.ReclaimOrphaned_typed [OF assms(1,2), of U clock maxAge]
    redis_isolated.GetDLQ_typed [OF assms(1,2), of U limit offset] redis_isolated.QueueDepth_typed [OF assms(1,2)]
  by (intro conjI impI)

lemma queue_refines_spec_witness:
  "\<exists>t r'. Nack mem_redis demo_uuid 0 ((demo_job 1 5)\<lparr>job_Status := JobStatusFailed\<rparr>) ''w1'' ''boom'' empty_server =
       (Ret (), (demo_job 1 5)\<lparr>job_RetryCount := 1, job_Status := JobStatusPending, job_ErrorMessage := ''boom'',
          job_ScheduledAt := t\<rparr>, r') \<and>
     10000000000 \<le> t \<and> aq_ready (queue_of r') 5 = [job_key demo_uuid (demo_job 1 5)]"
proof -
  let ?j = "(demo_job 1 5)\<lparr>job_Status := JobStatusFailed\<rparr>"
  have j: "job_encodable ?j" "IsRetryable ?j" "go_int (job_RetryCount ?j + 1) = 1"
    using demo_encodable [of 1 5] by (simp_all add: demo_job_def zero_job_def IsRetryable_def job_encodable_def go_int_def)
  have n: "nacked_job ?j ''boom'' t = (demo_job 1 5)\<lparr>job_RetryCount := 1, job_Status := JobStatusPending, job_ErrorMessage := ''boom'',
      job_ScheduledAt := t\<rparr>" for t
    by (simp add: nacked_job_def demo_job_def zero_job_def go_int_def)
  obtain t r' where t: "10000000000 \<le> t" "t < 11000000000"
    and r': "if time_encodable t
      then Nack mem_redis demo_uuid 0 ?j ''w1'' ''boom'' empty_server = (Ret (), nacked_job ?j ''boom'' t, r') \<and>
        queue_of r' = spec_requeue demo_uuid (nacked_job ?j ''boom'' t) (queue_of empty_server)
      else \<exists>e. Nack mem_redis demo_uuid 0 ?j ''w1'' ''boom'' empty_server =
        (Err (wrapf ''marshal job: '' e), nacked_job ?j ''boom'' t, r') \<and> r' = empty_server"
    using queue_refines_spec [OF mem.redis_isolated_axioms typed_empty j(1), of demo_uuid 0 "''w1''" _ _ _ "''boom''",
        THEN conjunct2, THEN conjunct2, THEN conjunct2, THEN conjunct2, THEN conjunct2, THEN conjunct2,
        THEN conjunct1, THEN mp, OF j(2), unfolded j(3)]
    by auto
  have "time_encodable t" using t by (simp add: time_encodable_def)
  with r' t(1) show ?thesis
    by (intro exI [of _ t] exI [of _ r']) (simp add: n spec_requeue_def Let_def aq_push_def aq_store_def)
qed

text \<open>
  C8: \<open>ReclaimOrphaned\<close> brings every crashed job back. If each job is in flight for one worker and the
  documents of the entries that are older than \<open>maxAge\<close> are intact, then exactly these entries leave
  the in-flight sets, their number is returned, and each of the jobs is appended to the ready queue of
  its priority, stored with the status pending, no worker, one retry more and an exponential backoff
  of five seconds; nothing else changes.
\<close>

theorem ReclaimOrphaned_recovers:
  assumes "redis_isolated R view" and "uuid_ok U" and "typed (view r)" and "q = queue_of (view r)" and "one_owner q"
    and "\<forall>w. \<forall>k \<in> set (orphans now maxAge w q). recoverable U q (now k) k"
  shows "\<exists>ks r' q'. ReclaimOrphaned R U now maxAge r = (Ret (int (length ks), None), r') \<and> typed (view r') \<and>
    q' = queue_of (view r') \<and> distinct ks \<and> set ks = (\<Union>w. set (orphans now maxAge w q)) \<and>
    (\<forall>p. aq_ready q' p = rev (filter (\<lambda>k. job_Priority (retried U now q k) = p) ks) @ aq_ready q p) \<and>
    (\<forall>w. aq_inflight q' w = filter (\<lambda>e. snd e \<notin> set ks) (aq_inflight q w)) \<and>
    aq_delayed q' = aq_delayed q \<and> aq_dlq q' = aq_dlq q \<and> (\<forall>k. k \<notin> set ks \<longrightarrow> aq_data q' k = aq_data q k) \<and>
    (\<forall>k \<in> set ks. came_back U (now k) q q' k)"
proof -
  obtain ks r' where r': "ReclaimOrphaned R U now maxAge r = (Ret (int (length ks), None), r')" "typed (view r')" "distinct ks"
    "set ks = (\<Union>w. set (orphans now maxAge w q))" and v: "revived U (retried U now q) ks q (queue_of (view r'))"
    using redis_isolated.reclaim_revives [OF assms(1,3), of now maxAge U] assms(4-6) by blast
  have "came_back U (now k) q (queue_of (view r')) k" if k: "k \<in> set ks" for k
  proof -
    have "recoverable U q (now k) k" using k r'(4) assms(6) by auto
    moreover have "aq_data (queue_of (view r')) k = Some (marshal_job U (retried U now q k))"
      using v k by (simp add: revived_def)
    ultimately show ?thesis by (rule came_back [where now = now, OF assms(2)])
  qed
  then have "\<forall>k \<in> set ks. came_back U (now k) q (queue_of (view r')) k" by blast
  with r' v show ?thesis
    unfolding revived_def by (intro exI [of _ ks] exI [of _ r'] exI [of _ "queue_of (view r')"] conjI) (simp_all only: if_False simp_thms, auto)
qed

text \<open>The witness: a job that a worker took long ago and has not finished.\<close>

definition crashed_demo :: "uuid \<Rightarrow> rstate" where
  "crashed_demo u = put_zset (inflightKey ''w1'') [(5, jobDataKey demo_uuid u)]
     (put (jobDataKey demo_uuid u) (Some (VStr (Doc (marshal_job demo_uuid (demo_job u 5))), None)) empty_server)"

lemma typed_crashed_demo [simp]: "typed (crashed_demo u)"
  unfolding crashed_demo_def by (intro typed_put_zset typed_put_str) simp_all

lemma crashed_demo_sel [simp]:
  "aq_inflight (queue_of (crashed_demo u)) w = (if w = ''w1'' then [(5, jobDataKey demo_uuid u)] else [])"
  "aq_ready (queue_of (crashed_demo u)) p = []"
  "aq_data (queue_of (crashed_demo u)) (jobDataKey demo_uuid u) = Some (marshal_job demo_uuid (demo_job u 5))"
  by (simp_all add: crashed_demo_def queue_put_zset queue_put_job aq_store_def)

lemma crashed_demo_orphans [simp]:
  "one_owner (queue_of (crashed_demo u))"
  "orphans (\<lambda>_. 1000000000000) (2 * minute) w (queue_of (crashed_demo u)) = (if w = ''w1'' then [jobDataKey demo_uuid u] else [])"
  by (auto simp: one_owner_def members_def orphans_def stale_def zrange_def UnixMilli_def time_Add_def minute_def second_def
      split: if_splits)

lemma crashed_demo_job [simp]:
  "stored demo_uuid (queue_of (crashed_demo u)) (jobDataKey demo_uuid u) = Ret (demo_job u 5)"
  "recoverable demo_uuid (queue_of (crashed_demo u)) 1000000000000 (jobDataKey demo_uuid u)"
proof -
  have i: "job_int64 (demo_job u 5)" using demo_submittable [of 5 u] by (simp add: submittable_def)
  moreover have "from_json (demo_job u 5) = demo_job u 5" by (rule from_json_demo)
  ultimately show s: "stored demo_uuid (queue_of (crashed_demo u)) (jobDataKey demo_uuid u) = Ret (demo_job u 5)"
    using stored_marshal [of demo_uuid "demo_job u 5" "queue_of (crashed_demo u)"] by simp
  have "job_RetryCount (demo_job u 5) = 0" by (simp add: demo_job_def zero_job_def)
  with s i show "recoverable demo_uuid (queue_of (crashed_demo u)) 1000000000000 (jobDataKey demo_uuid u)"
    by (simp add: recoverable_def)
qed

lemma ReclaimOrphaned_recovers_witness:
  "\<exists>r'. ReclaimOrphaned mem_redis demo_uuid (\<lambda>_. 1000000000000) (2 * minute) (crashed_demo 1) = (Ret (1, None), r') \<and>
     aq_ready (queue_of r') 5 = [jobDataKey demo_uuid 1] \<and> (\<forall>w. aq_inflight (queue_of r') w = [])"
proof -
  let ?q = "queue_of (crashed_demo 1)" and ?now = "\<lambda>_. 1000000000000 :: go_time" and ?k = "jobDataKey demo_uuid 1"
  have p: "job_Priority (retried demo_uuid ?now ?q ?k) = 5"
    by (rule retried_job [of demo_uuid ?q ?now ?k]) auto
  obtain ks r' where r': "ReclaimOrphaned mem_redis demo_uuid ?now (2 * minute) (crashed_demo 1) = (Ret (int (length ks), None), r')"
    "distinct ks" "set ks = (\<Union>w. set (orphans ?now (2 * minute) w ?q))"
    "\<forall>p. aq_ready (queue_of r') p = rev (filter (\<lambda>k. job_Priority (retried demo_uuid ?now ?q k) = p) ks) @ aq_ready ?q p"
    "\<forall>w. aq_inflight (queue_of r') w = filter (\<lambda>e. snd e \<notin> set ks) (aq_inflight ?q w)"
    using ReclaimOrphaned_recovers [OF mem.redis_isolated_axioms demo_uuid_ok typed_crashed_demo [of 1] refl, of ?now "2 * minute"]
    by auto
  have "set ks = {?k}" using r'(3) by (auto split: if_splits)
  with r'(2) have "ks = [?k]" by (intro distinct_set_single)
  with r' p show ?thesis by auto
qed


section \<open>A slow job\<close>

text \<open>The queue after a worker has taken its only job: the entry in flight carries the deadline of the delivery.\<close>

lemma taken_queue:
  fixes t :: int and w :: string and timeout :: duration
  assumes "uuid_ok U" "holds U [j] q" "\<forall>v. aq_inflight q v = []" "submittable U t0 j"
  defines "q1 \<equiv> snd (spec_dequeue U t w timeout q)"
  shows "fst (spec_dequeue U t w timeout q) = Ret (from_json j)"
    and "aq_inflight q1 v = (if v = w then [(t + Milliseconds timeout, job_key U j)] else [])"
    and "aq_ready q1 p = []" and "stored U q1 (job_key U j) = Ret (from_json j)"
proof -
  have s: "sorted (map job_Priority [j])" by simp
  note eq = holds_dequeue_eq [OF assms(1,2) s assms(4), of t w timeout]
  show "fst (spec_dequeue U t w timeout q) = Ret (from_json j)" by (simp add: eq)
  show "aq_inflight q1 v = (if v = w then [(t + Milliseconds timeout, job_key U j)] else [])"
    using assms(3) by (simp add: q1_def eq aq_fly_def aq_pop_def zadd_def zrem_def)
  show "aq_ready q1 p = []" using assms(2) by (simp add: q1_def eq aq_fly_def aq_pop_def holds_def)
  have "aq_data q1 = aq_data q" by (simp add: q1_def eq aq_fly_def aq_pop_def)
  then show "stored U q1 (job_key U j) = Ret (from_json j)"
    using assms(2,4) by (intro stored_marshal [OF assms(1)]) (simp_all add: holds_def submittable_def)
qed

text \<open>
  C19: a worker that is still busy with a job loses it. \<open>worker\<close> takes every job with a deadline of five
  seconds, whatever its own timeout, and nothing extends the deadline while it runs; so two minutes
  after the deadline the reclaim loop puts the job back, and the next \<open>Dequeue\<close> of any worker delivers
  it a second time, with one retry more.
\<close>

theorem slow_job_runs_twice:
  assumes "redis_isolated R view" "uuid_ok U" "typed (view r)"
    and "holds U [j] (queue_of (view r))" "\<forall>v. aq_inflight (queue_of (view r)) v = []" "submittable U t0 j"
    and "0 \<le> job_RetryCount j" "job_RetryCount j < 20"
    and "0 \<le> now_ms (view r)" "now_ms (view r) + 125000 \<le> UnixMilli t" "t < 200000000000 * 1000000000"
  shows "\<exists>r1 r2 r3 t'. Dequeue R U w (5 * second) r = (Ret (from_json j), r1) \<and>
    ReclaimOrphaned R U (\<lambda>_. t) (2 * minute) r1 = (Ret (1, None), r2) \<and>
    Dequeue R U w' timeout r2 = (Ret ((from_json j)\<lparr>job_RetryCount := job_RetryCount j + 1, job_Status := JobStatusPending,
      job_WorkerID := '''', job_ScheduledAt := t'\<rparr>), r3)"
proof -
  let ?k = "job_key U j"
  obtain r1 where r1: "Dequeue R U w (5 * second) r = (Ret (from_json j), r1)" "typed (view r1)"
    "queue_of (view r1) = snd (spec_dequeue U (now_ms (view r)) w (5 * second) (queue_of (view r)))"
    using redis_isolated.Dequeue_typed [OF assms(1,3), of U w "5 * second"] taken_queue(1) [OF assms(2,4-6)] by auto
  define q where "q = queue_of (view r1)"
  note q = taken_queue(2-4) [OF assms(2,4-6), of "now_ms (view r)" w "5 * second", folded r1(3), folded q_def]
  have ms: "Milliseconds (5 * second) = 5000" by (simp add: Milliseconds_def second_def go_quot_def)
  have "0 \<le> t" using assms(9,10) by (simp add: UnixMilli_def)
  then have rec: "recoverable U q t ?k" using q(3) assms(6-8,11) by (simp add: recoverable_def submittable_def)
  have own: "one_owner q" by (auto simp: one_owner_def q(1) members_def split: if_splits)
  have "UnixMilli (time_Add t (- (2 * minute))) = UnixMilli t - 120000"
    by (simp add: UnixMilli_def time_Add_def minute_def second_def)
  then have o: "orphans (\<lambda>_. t) (2 * minute) v q = (if v = w then [?k] else [])" for v
    using assms(9,10) by (simp add: orphans_def stale_def zrange_def q(1) ms)
  obtain ks r2 where r2: "ReclaimOrphaned R U (\<lambda>_. t) (2 * minute) r1 = (Ret (int (length ks), None), r2)" "typed (view r2)"
    "distinct ks" "set ks = (\<Union>v. set (orphans (\<lambda>_. t) (2 * minute) v q))" "revived U (retried U (\<lambda>_. t) q) ks q (queue_of (view r2))"
    using redis_isolated.reclaim_revives [OF assms(1) r1(2), of "\<lambda>_. t" "2 * minute" U] own rec o
    unfolding q_def by auto
  have "set ks = {?k}" unfolding r2(4) o by auto
  then have ks: "ks = [?k]" using r2(3) by (intro distinct_set_single)
  obtain t' where j': "retried U (\<lambda>_. t) q ?k = (from_json j)\<lparr>job_RetryCount := job_RetryCount j + 1,
      job_Status := JobStatusPending, job_WorkerID := '''', job_ScheduledAt := t'\<rparr>" (is "_ = ?j")
    "job_encodable (retried U (\<lambda>_. t) q ?k)" "job_int64 (retried U (\<lambda>_. t) q ?k)"
    by (rule retried_job [of U q "\<lambda>_. t" ?k, OF rec]) (use q(3) in auto)
  have h: "holds U [?j] (queue_of (view r2))"
    using r2(5) q(2) by (simp add: ks holds_def revived_def j'(1))
  have sub: "submittable U (job_ScheduledAt ?j) ?j" using assms(6) j' by (simp add: submittable_def)
  have "from_json ?j = ?j" by (simp add: from_json_def)
  then have "fst (spec_dequeue U (now_ms (view r2)) w' timeout (queue_of (view r2))) = Ret ?j"
    using holds_dequeue(1) [OF assms(2) h _ sub, of "now_ms (view r2)" w' timeout] by simp
  then have "\<exists>r3. Dequeue R U w' timeout r2 = (Ret ?j, r3)"
    using redis_isolated.Dequeue_typed [OF assms(1) r2(2), of U w' timeout] by auto
  then show ?thesis using r1(1) r2(1) ks by auto
qed
text \<open>The witness: a job waits, and nothing is in flight.\<close>

definition delivery_demo :: rstate where
  "delivery_demo = put_list (readyKey 5) [jobDataKey demo_uuid 1]
     (put (jobDataKey demo_uuid 1) (Some (VStr (Doc (marshal_job demo_uuid (demo_job 1 5))), None)) empty_server)"

lemma delivery_demo:
  "typed delivery_demo" "holds demo_uuid [demo_job 1 5] (queue_of delivery_demo)"
  "\<forall>w. aq_inflight (queue_of delivery_demo) w = []" "now_ms delivery_demo = 1000000"
proof -
  show "typed delivery_demo" unfolding delivery_demo_def by (intro typed_put_list typed_put_str) simp_all
  show "holds demo_uuid [demo_job 1 5] (queue_of delivery_demo)" "\<forall>w. aq_inflight (queue_of delivery_demo) w = []"
    by (auto simp: delivery_demo_def queue_put_list queue_put_job aq_store_def holds_def)
  show "now_ms delivery_demo = 1000000"
    by (simp add: delivery_demo_def put_list_def put_def now_ms_def empty_server_def)
qed

lemma slow_job_runs_twice_witness:
  "\<exists>r1 r2 r3 t'. Dequeue mem_redis demo_uuid ''w1'' (5 * second) delivery_demo = (Ret (demo_job 1 5), r1) \<and>
    ReclaimOrphaned mem_redis demo_uuid (\<lambda>_. 2000000000000) (2 * minute) r1 = (Ret (1, None), r2) \<and>
    Dequeue mem_redis demo_uuid ''w2'' (5 * second) r2 = (Ret ((demo_job 1 5)\<lparr>job_RetryCount := 1, job_ScheduledAt := t'\<rparr>), r3)"
proof -
  have j: "from_json (demo_job 1 5) = demo_job 1 5" "job_RetryCount (demo_job 1 5) = 0" "job_Status (demo_job 1 5) = JobStatusPending"
    "job_WorkerID (demo_job 1 5) = ''''"
    by (simp_all add: demo_job_def zero_job_def from_json_def)
  have e: "(demo_job 1 5)\<lparr>job_RetryCount := 1, job_Status := JobStatusPending, job_WorkerID := '''', job_ScheduledAt := t'\<rparr> =
      (demo_job 1 5)\<lparr>job_RetryCount := 1, job_ScheduledAt := t'\<rparr>" for t'
    using j(3,4) by (cases "demo_job 1 5") simp
  show ?thesis
    using slow_job_runs_twice [OF mem.redis_isolated_axioms demo_uuid_ok, of delivery_demo "demo_job 1 5" 0 2000000000000 "''w1''" "''w2''" "5 * second"]
      delivery_demo j by (simp add: e UnixMilli_def)
qed

end
