(* ===== verification/Worker_Pool.thy ===== *)
theory Worker_Pool
  imports System Worker_Handlers
begin

text \<open>
  \<open>internal/worker/pool.go\<close>: the worker pool, over any queue and store. Goroutines are modelled by the
  turns of their loops; which branch a \<open>select\<close> takes is an input.
\<close>

section \<open>Configuration\<close>

record Config =
  WorkerID :: string
  Concurrency :: int
  PollInterval :: duration
  HeartbeatInterval :: duration
  MaxJobExecutionTime :: duration
  QueueEmptyBackoff :: duration

text \<open>\<open>os.Hostname()\<close> and \<open>os.Getpid()\<close> are inputs; the error of the former is dropped.\<close>

definition DefaultConfig :: "string \<Rightarrow> int \<Rightarrow> Config" where
  "DefaultConfig hostname pid =
     \<lparr>WorkerID = hostname @ ''-'' @ show_int pid, Concurrency = 10, PollInterval = 1 * second,
      HeartbeatInterval = 10 * second, MaxJobExecutionTime = 5 * minute, QueueEmptyBackoff = 100 * millisecond\<rparr>"

record ('r, 'p) Pool =
  p_config :: Config
  p_queue :: "'r Queue"
  p_store :: "'p Store"
  p_handlers :: Registry

definition NewPool :: "Config \<Rightarrow> 'r Queue \<Rightarrow> 'p Store \<Rightarrow> Registry \<Rightarrow> ('r, 'p) Pool" where
  "NewPool cfg q s handlers = \<lparr>p_config = cfg, p_queue = q, p_store = s, p_handlers = handlers\<rparr>"

abbreviation worker_id :: "('r, 'p) Pool \<Rightarrow> string" where
  "worker_id W \<equiv> WorkerID (p_config W)"

section \<open>Running a job\<close>

text \<open>
  What a run of a job meets: whether \<open>runWithRecovery\<close> sees the end of the context before the handler's
  result, whether the deadline has passed when the pool asks for \<open>ctx.Err()\<close>, what the handler meets, and
  the readings of the clock.
\<close>

record job_env =
  je_timed_out :: bool
  je_late :: bool
  je_exec :: exec_env
  je_now :: "nat \<Rightarrow> go_time"

definition ctx_Err :: "job_env \<Rightarrow> go_error option" where
  "ctx_Err x = (if je_timed_out x \<or> je_late x then Some DeadlineExceeded else None)"

text \<open>A handler that panics has failed; one that is still running when the context ends is left behind.\<close>

definition runWithRecovery :: "job_env \<Rightarrow> JobHandler \<Rightarrow> Job \<Rightarrow> bool" where
  "runWithRecovery x h job =
     (if je_timed_out x then False
      else (case h_Execute h (je_exec x) job of Ret _ \<Rightarrow> True | Err _ \<Rightarrow> False | Panic _ \<Rightarrow> False))"

text \<open>Readings of the clock: 3 the completion time, 4 for the latency.\<close>

definition handleJobSuccess ::
  "('r, 'p) Pool \<Rightarrow> job_env \<Rightarrow> Job \<Rightarrow> go_time \<Rightarrow> ('r, 'p) sys \<Rightarrow> unit res \<times> ('r, 'p) sys" where
  "handleJobSuccess W x job startTime =
     andthen (logged (on_redis (q_Acknowledge (p_queue W) (job_ID job) (worker_id W))))
       (\<lambda>_. andthen (logged (on_pg (s_UpdateJobStatus (p_store W) (job_ID job) JobStatusCompleted
                [WithCompletedAt (je_now x 3)])))
         (\<lambda>_. andthen (meter (RecordJobProcessed (worker_id W) (job_Type job) True))
           (\<lambda>_. meter (RecordJobLatency (job_Type job) (time_Sub (je_now x 4) startTime)))))"

text \<open>
  \<open>Nack\<close> changes the job it is given; the status that goes to the database depends on the changed job.
  Reading 3 of the clock is the one in \<open>Nack\<close>.
\<close>

definition handleJobError ::
  "('r, 'p) Pool \<Rightarrow> job_env \<Rightarrow> Job \<Rightarrow> go_error option \<Rightarrow> ('r, 'p) sys \<Rightarrow> unit res \<times> ('r, 'p) sys" where
  "handleJobError W x job execErr s =
     (let errMsg = (case execErr of None \<Rightarrow> '''' | Some e \<Rightarrow> error_text e)
      in (case q_Nack (p_queue W) (je_now x 3) job (worker_id W) errMsg (sy_redis s) of
            (Panic m, job1, r) \<Rightarrow> (Panic m, s\<lparr>sy_redis := r\<rparr>)
          | (_, job1, r) \<Rightarrow>
              andthen (meter (if \<not> IsRetryable job1 then RecordJobDLQ (job_Type job1) else RecordJobRetried (job_Type job1)))
                (\<lambda>_. andthen (logged (on_pg (s_UpdateJobStatus (p_store W) (job_ID job1)
                         (if \<not> IsRetryable job1 then JobStatusDeadLetter else JobStatusFailed) [WithErrorMessage errMsg])))
                  (\<lambda>_. meter (RecordJobProcessed (worker_id W) (job_Type job1) False)))
                (s\<lparr>sy_redis := r\<rparr>)))"

text \<open>Readings of the clock: 0 the start, 1 the start time in the database, 2 for the execution time.\<close>

definition executeJob ::
  "('r, 'p) Pool \<Rightarrow> job_env \<Rightarrow> Job \<Rightarrow> ('r, 'p) sys \<Rightarrow> unit res \<times> ('r, 'p) sys" where
  "executeJob W x job =
     andthen (logged (on_pg (s_UpdateJobStatus (p_store W) (job_ID job) JobStatusRunning
           [WithWorkerID (worker_id W), WithStartedAt (je_now x 1)])))
       (\<lambda>_. case Registry_Get (p_handlers W) (job_Type job) of
              None \<Rightarrow> handleJobError W x job (Some (errorf (''no handler registered for job type: '' @ job_Type job)))
            | Some h \<Rightarrow>
                andthen (meter (RecordJobExecutionTime (job_Type job) (time_Sub (je_now x 2) (je_now x 0))))
                  (\<lambda>_. if runWithRecovery x h job then handleJobSuccess W x job (je_now x 0)
                        else handleJobError W x job (ctx_Err x)))"

section \<open>The worker loop\<close>

text \<open>
  One turn of a worker's loop: whether it sees \<open>stopChan\<close> closed at the top of the turn or while it
  backs off, and what a job meets that it dequeues. The result says whether the goroutine goes on, and
  with which poll interval. A panic, which only \<open>Nack\<close>'s retry time could raise, ends the process.
\<close>

record turn =
  tn_stop :: bool
  tn_stop_wait :: bool
  tn_job :: job_env

definition maxPollInterval :: duration where
  "maxPollInterval = 30 * second"

definition next_poll :: "Config \<Rightarrow> duration \<Rightarrow> duration" where
  "next_poll cfg poll =
     (let d = poll + QueueEmptyBackoff cfg in if sint d > sint maxPollInterval then maxPollInterval else d)"

definition worker_turn ::
  "('r, 'p) Pool \<Rightarrow> turn \<Rightarrow> duration \<Rightarrow> ('r, 'p) sys \<Rightarrow> duration option res \<times> ('r, 'p) sys" where
  "worker_turn W t poll s =
     (if tn_stop t then (Ret None, s)
      else (case q_Dequeue (p_queue W) (worker_id W) (5 * second) (sy_redis s) of
              (Err e, r) \<Rightarrow>
                if e = ErrQueueEmpty then
                  (Ret (if tn_stop_wait t then None else Some (next_poll (p_config W) poll)), s\<lparr>sy_redis := r\<rparr>)
                else (Ret (Some poll), s\<lparr>sy_redis := r\<rparr>)
            | (Panic m, r) \<Rightarrow> (Panic m, s\<lparr>sy_redis := r\<rparr>)
            | (Ret job, r) \<Rightarrow>
                andthen (executeJob W (tn_job t) job) (\<lambda>_. ret (Some (PollInterval (p_config W)))) (s\<lparr>sy_redis := r\<rparr>)))"

text \<open>The loop over the turns it gets; \<open>None\<close> when the goroutine has returned.\<close>

fun worker_loop ::
  "('r, 'p) Pool \<Rightarrow> turn list \<Rightarrow> duration \<Rightarrow> ('r, 'p) sys \<Rightarrow> duration option res \<times> ('r, 'p) sys" where
  "worker_loop W [] poll s = (Ret (Some poll), s)"
| "worker_loop W (t # ts) poll s =
     andthen (worker_turn W t poll)
       (\<lambda>x. case x of None \<Rightarrow> ret None | Some poll' \<Rightarrow> worker_loop W ts poll') s"

definition worker ::
  "('r, 'p) Pool \<Rightarrow> turn list \<Rightarrow> ('r, 'p) sys \<Rightarrow> duration option res \<times> ('r, 'p) sys" where
  "worker W ts = worker_loop W ts (PollInterval (p_config W))"

section \<open>Heartbeats\<close>

text \<open>Readings of the clock: the heartbeat and the start time.\<close>

definition heartbeat ::
  "('r, 'p) Pool \<Rightarrow> (nat \<Rightarrow> go_time) \<Rightarrow> ('r, 'p) sys \<Rightarrow> unit res \<times> ('r, 'p) sys" where
  "heartbeat W now =
     on_pg (s_RecordHeartbeat (p_store W)
       \<lparr>hb_WorkerID = worker_id W, hb_Hostname = worker_id W, hb_Concurrency = Concurrency (p_config W),
        hb_ActiveJobs = 0, hb_LastHeartbeat = now 0, hb_StartedAt = now 1\<rparr>)"

text \<open>The events of \<open>heartbeatLoop\<close>: its context is cancelled, or the ticker fires.\<close>

fun heartbeatLoop ::
  "('r, 'p) Pool \<Rightarrow> (nat \<Rightarrow> go_time) option list \<Rightarrow> ('r, 'p) sys \<Rightarrow> ('r, 'p) sys" where
  "heartbeatLoop W [] s = s"
| "heartbeatLoop W (None # es) s = s"
| "heartbeatLoop W (Some now # es) s = heartbeatLoop W es (snd (heartbeat W now s))"

text \<open>What \<open>Start\<close> itself does before and after the workers run.\<close>

definition Pool_Start_begin ::
  "('r, 'p) Pool \<Rightarrow> (nat \<Rightarrow> go_time) \<Rightarrow> ('r, 'p) sys \<Rightarrow> unit res \<times> ('r, 'p) sys" where
  "Pool_Start_begin W now =
     andthen (logged (heartbeat W now)) (\<lambda>_. meter (SetActive (worker_id W) True))"

definition Pool_Start_end :: "('r, 'p) Pool \<Rightarrow> ('r, 'p) sys \<Rightarrow> unit res \<times> ('r, 'p) sys" where
  "Pool_Start_end W = meter (SetActive (worker_id W) False)"

end
