(* ===== verification/Pool_Facts.thy ===== *)
theory Pool_Facts
  imports Worker_Pool
begin

text \<open>
  What a worker makes of the jobs it takes from the queue, and the bounds of its polling.
\<close>

locale worker_backend = job_queue Q U ok absq clock + job_store S rows
  for Q :: "'r Queue" and U ok absq clock and S :: "'p Store" and rows

text \<open>The message a failed run leaves: of the handler's own error nothing is left.\<close>

definition failure_message :: "Registry \<Rightarrow> job_env \<Rightarrow> Job \<Rightarrow> string" where
  "failure_message hs x job =
     (if Registry_Get hs (job_Type job) = None then ''no handler registered for job type: '' @ job_Type job
      else if je_timed_out x \<or> je_late x then ''context deadline exceeded'' else '''')"

definition run_succeeds :: "Registry \<Rightarrow> job_env \<Rightarrow> Job \<Rightarrow> bool" where
  "run_succeeds hs x job \<longleftrightarrow> \<not> je_timed_out x \<and>
     (\<exists>h. Registry_Get hs (job_Type job) = Some h \<and> h_Execute h (je_exec x) job = Ret ())"

lemma runWithRecovery_iff:
  "Registry_Get hs (job_Type job) = Some h \<Longrightarrow> runWithRecovery x h job \<longleftrightarrow> run_succeeds hs x job"
  by (auto simp: runWithRecovery_def run_succeeds_def split: res.splits)

lemma fold_opts:
  "fold (\<lambda>opt x. opt x) [WithWorkerID w, WithStartedAt t] no_opts =
     \<lparr>uo_workerID = w, uo_errorMessage = '''', uo_startedAt = Some t, uo_completedAt = None\<rparr>"
  "fold (\<lambda>opt x. opt x) [WithCompletedAt t] no_opts =
     \<lparr>uo_workerID = '''', uo_errorMessage = '''', uo_startedAt = None, uo_completedAt = Some t\<rparr>"
  "fold (\<lambda>opt x. opt x) [WithErrorMessage m] no_opts =
     \<lparr>uo_workerID = '''', uo_errorMessage = m, uo_startedAt = None, uo_completedAt = None\<rparr>"
  by (simp_all add: WithWorkerID_def WithStartedAt_def WithCompletedAt_def WithErrorMessage_def no_opts_def)

lemma statuses_mem:
  "JobStatusRunning \<in> set statuses" "JobStatusCompleted \<in> set statuses" "JobStatusDeadLetter \<in> set statuses"
  "JobStatusFailed \<in> set statuses" "JobStatusPending \<in> set statuses"
  by (simp_all add: statuses_def)

lemma dead_not_retryable: "\<not> IsRetryable (dead_job job m)"
  by (simp add: IsRetryable_def dead_job_def)

context worker_backend
begin

lemma mark_running:
  assumes "rows p u = Some w" "length wid \<le> 64" "pg_text wid"
  shows "\<exists>p' t. s_UpdateJobStatus S u JobStatusRunning [WithWorkerID wid, WithStartedAt started] p = (Ret (), p') \<and>
    rows p' = (rows p)(u \<mapsto> updated_row t JobStatusRunning wid '''' (Some started) None w)"
  using update_some [OF assms(1) statuses_mem(1), of "[WithWorkerID wid, WithStartedAt started]"] assms(2,3)
  unfolding fold_opts by (simp add: opts_ok_def fits_short Let_def)

lemma mark_completed:
  assumes "rows p u = Some w"
  shows "\<exists>p' t. s_UpdateJobStatus S u JobStatusCompleted [WithCompletedAt fin] p = (Ret (), p') \<and>
    rows p' = (rows p)(u \<mapsto> updated_row t JobStatusCompleted '''' '''' None (Some fin) w)"
  using update_some [OF assms(1) statuses_mem(2), of "[WithCompletedAt fin]"]
  unfolding fold_opts by (simp add: opts_ok_def fits_short Let_def)

lemma mark_dead:
  assumes "rows p u = Some w" "pg_text m"
  shows "\<exists>p' t. s_UpdateJobStatus S u JobStatusDeadLetter [WithErrorMessage m] p = (Ret (), p') \<and>
    rows p' = (rows p)(u \<mapsto> updated_row t JobStatusDeadLetter '''' m None None w)"
  using update_some [OF assms(1) statuses_mem(3), of "[WithErrorMessage m]"] assms(2)
  unfolding fold_opts by (simp add: opts_ok_def fits_short Let_def)

lemma executeJob_success:
  assumes "ok (sy_redis s)" "p_queue W = Q" "p_store W = S" "rows (sy_pg s) (job_ID job) = Some w"
    and "length (worker_id W) \<le> 64" "pg_text (worker_id W)" "run_succeeds (p_handlers W) x job"
  shows "\<exists>s' t t'. executeJob W x job s = (Ret (), s') \<and> ok (sy_redis s') \<and>
    absq (sy_redis s') = spec_ack U (job_ID job) (worker_id W) (absq (sy_redis s)) \<and>
    rows (sy_pg s') = (rows (sy_pg s))(job_ID job \<mapsto> updated_row t' JobStatusCompleted '''' '''' None (Some (je_now x 3))
      (updated_row t JobStatusRunning (worker_id W) '''' (Some (je_now x 1)) None w)) \<and>
    JobsExecuted (sy_metrics s') = inc [job_Type job, ''success''] (JobsExecuted (sy_metrics s))"
proof -
  obtain h where h: "Registry_Get (p_handlers W) (job_Type job) = Some h" "runWithRecovery x h job"
    using assms(7) runWithRecovery_iff by (metis run_succeeds_def)
  obtain p t where p: "s_UpdateJobStatus S (job_ID job) JobStatusRunning [WithWorkerID (worker_id W), WithStartedAt (je_now x 1)] (sy_pg s) = (Ret (), p)"
    "rows p = (rows (sy_pg s))(job_ID job \<mapsto> updated_row t JobStatusRunning (worker_id W) '''' (Some (je_now x 1)) None w)"
    using mark_running [OF assms(4-6)] by blast
  obtain r where r: "q_Acknowledge Q (job_ID job) (worker_id W) (sy_redis s) = (Ret (), r)" "ok r"
    "absq r = spec_ack U (job_ID job) (worker_id W) (absq (sy_redis s))"
    using ack_law [OF assms(1)] by blast
  have "rows p (job_ID job) = Some (updated_row t JobStatusRunning (worker_id W) '''' (Some (je_now x 1)) None w)"
    using p(2) by simp
  from mark_completed [OF this, of "je_now x 3"] obtain p' t' where p':
    "s_UpdateJobStatus S (job_ID job) JobStatusCompleted [WithCompletedAt (je_now x 3)] p = (Ret (), p')"
    "rows p' = (rows p)(job_ID job \<mapsto> updated_row t' JobStatusCompleted '''' '''' None (Some (je_now x 3))
       (updated_row t JobStatusRunning (worker_id W) '''' (Some (je_now x 1)) None w))"
    by blast
  show ?thesis
    using assms(2,3) h p p' r
    by (intro exI [of _ "_ :: ('r, 'p) sys"] exI [of _ t] exI [of _ t'])
      (auto simp: executeJob_def handleJobSuccess_def recorder_defs)
qed

lemma handleJobError_buried:
  assumes "ok (sy_redis s)" "p_queue W = Q" "p_store W = S" "rows (sy_pg s) (job_ID job) = Some w"
    and "job_encodable job" "\<not> IsRetryable job" "pg_text msg" "msg = (case err of None \<Rightarrow> '''' | Some e \<Rightarrow> error_text e)"
  shows "\<exists>s' t. handleJobError W x job err s = (Ret (), s') \<and> ok (sy_redis s') \<and>
    absq (sy_redis s') = spec_bury U (dead_job job msg) (worker_id W) (absq (sy_redis s)) \<and>
    rows (sy_pg s') = (rows (sy_pg s))(job_ID job \<mapsto> updated_row t JobStatusDeadLetter '''' msg None None w) \<and>
    JobsExecuted (sy_metrics s') = inc [job_Type job, ''failure''] (JobsExecuted (sy_metrics s)) \<and>
    JobsDLQ (sy_metrics s') = inc [job_Type job] (JobsDLQ (sy_metrics s))"
proof -
  obtain r where r: "q_Nack Q (je_now x 3) job (worker_id W) msg (sy_redis s) = (Ret (), dead_job job msg, r)" "ok r"
    "absq r = spec_bury U (dead_job job msg) (worker_id W) (absq (sy_redis s))"
    using bury_law [OF assms(1,5,6)] by blast
  obtain p t where p: "s_UpdateJobStatus S (job_ID job) JobStatusDeadLetter [WithErrorMessage msg] (sy_pg s) = (Ret (), p)"
    "rows p = (rows (sy_pg s))(job_ID job \<mapsto> updated_row t JobStatusDeadLetter '''' msg None None w)"
    using mark_dead [OF assms(4,7)] by blast
  have ty: "job_Type (dead_job job m) = job_Type job" for m by (simp add: dead_job_def)
  show ?thesis
    using assms(2,3) r p assms(8)
    by (intro exI [of _ "_ :: ('r, 'p) sys"] exI [of _ t])
      (auto simp: handleJobError_def Let_def dead_not_retryable ty recorder_defs)
qed

text \<open>A run that does not succeed comes down to \<open>handleJobError\<close>.\<close>

lemma executeJob_to_error:
  assumes "p_store W = S" "\<not> run_succeeds (p_handlers W) x job"
    and "s_UpdateJobStatus S (job_ID job) JobStatusRunning [WithWorkerID (worker_id W), WithStartedAt (je_now x 1)] (sy_pg s) = (Ret (), p)"
  shows "\<exists>err s2. executeJob W x job s = handleJobError W x job err s2 \<and>
    failure_message (p_handlers W) x job = (case err of None \<Rightarrow> '''' | Some e \<Rightarrow> error_text e) \<and>
    sy_redis s2 = sy_redis s \<and> sy_pg s2 = p \<and> JobsDLQ (sy_metrics s2) = JobsDLQ (sy_metrics s)"
proof (cases "Registry_Get (p_handlers W) (job_Type job)")
  case None
  let ?e = "errorf (''no handler registered for job type: '' @ job_Type job)"
  have "executeJob W x job s = handleJobError W x job (Some ?e) (s\<lparr>sy_pg := p\<rparr>)"
    using assms(1,3) None by (simp add: executeJob_def del: append.simps)
  then show ?thesis
    using None by (intro exI [of _ "Some ?e"] exI [of _ "s\<lparr>sy_pg := p\<rparr>"]) (simp add: failure_message_def errorf_def)
next
  case (Some h)
  let ?s = "s\<lparr>sy_pg := p, sy_metrics := RecordJobExecutionTime (job_Type job) (time_Sub (je_now x 2) (je_now x 0)) (sy_metrics s)\<rparr>"
  have "executeJob W x job s = handleJobError W x job (ctx_Err x) ?s"
    using assms Some runWithRecovery_iff [OF Some, of x] by (simp add: executeJob_def)
  then show ?thesis
    using Some by (intro exI [of _ "ctx_Err x"] exI [of _ ?s]) (simp add: failure_message_def ctx_Err_def recorder_defs)
qed

lemma executeJob_failure:
  assumes "ok (sy_redis s)" "p_queue W = Q" "p_store W = S" "rows (sy_pg s) (job_ID job) = Some w"
    and "length (worker_id W) \<le> 64" "pg_text (worker_id W)" "pg_text (job_Type job)"
    and "\<not> run_succeeds (p_handlers W) x job" "job_encodable job" "\<not> IsRetryable job"
    and "msg = failure_message (p_handlers W) x job"
  shows "\<exists>s' t t'. executeJob W x job s = (Ret (), s') \<and> ok (sy_redis s') \<and>
    absq (sy_redis s') = spec_bury U (dead_job job msg) (worker_id W) (absq (sy_redis s)) \<and>
    rows (sy_pg s') = (rows (sy_pg s))(job_ID job \<mapsto> updated_row t' JobStatusDeadLetter '''' msg None None
      (updated_row t JobStatusRunning (worker_id W) '''' (Some (je_now x 1)) None w)) \<and>
    JobsDLQ (sy_metrics s') = inc [job_Type job] (JobsDLQ (sy_metrics s))"
proof -
  obtain p t where p: "s_UpdateJobStatus S (job_ID job) JobStatusRunning [WithWorkerID (worker_id W), WithStartedAt (je_now x 1)] (sy_pg s) = (Ret (), p)"
    "rows p = (rows (sy_pg s))(job_ID job \<mapsto> updated_row t JobStatusRunning (worker_id W) '''' (Some (je_now x 1)) None w)"
    using mark_running [OF assms(4-6)] by blast
  let ?w = "updated_row t JobStatusRunning (worker_id W) '''' (Some (je_now x 1)) None w"
  obtain err s2 where s2: "executeJob W x job s = handleJobError W x job err s2"
    "msg = (case err of None \<Rightarrow> '''' | Some e \<Rightarrow> error_text e)"
    "sy_redis s2 = sy_redis s" "sy_pg s2 = p" "JobsDLQ (sy_metrics s2) = JobsDLQ (sy_metrics s)"
    using executeJob_to_error [OF assms(3,8) p(1)] assms(11) by auto
  have "pg_text ''no handler registered for job type: ''" "pg_text ''context deadline exceeded''" by code_simp+
  from this(2) pg_text_append [OF this(1) assms(7)] have msg: "pg_text msg"
    unfolding assms(11) failure_message_def by (simp del: append.simps)
  have "ok (sy_redis s2)" "rows (sy_pg s2) (job_ID job) = Some ?w" using assms(1) p(2) by (simp_all add: s2(3,4))
  from handleJobError_buried [OF this(1) assms(2,3) this(2) assms(9,10) msg s2(2)] obtain s' t' where
    "handleJobError W x job err s2 = (Ret (), s')" "ok (sy_redis s')"
    "absq (sy_redis s') = spec_bury U (dead_job job msg) (worker_id W) (absq (sy_redis s2))"
    "rows (sy_pg s') = (rows (sy_pg s2))(job_ID job \<mapsto> updated_row t' JobStatusDeadLetter '''' msg None None ?w)"
    "JobsDLQ (sy_metrics s') = inc [job_Type job] (JobsDLQ (sy_metrics s2))"
    by blast
  with s2 p(2) show ?thesis
    by (intro exI [of _ s'] exI [of _ t] exI [of _ t']) simp
qed

end

section \<open>Draining a queue\<close>

text \<open>Taking the first job and acknowledging or burying it leaves the others.\<close>

lemma holds_finish:
  assumes "uuid_ok U" "holds U (j # L) q" "\<forall>j' \<in> set L. job_ID j' \<noteq> job_ID j" "aq_inflight q w = []"
    and "q1 = aq_fly w d (job_key U j) (aq_pop (job_Priority j) q)"
  shows "holds U L (spec_ack U (job_ID j) w q1)" "aq_inflight (spec_ack U (job_ID j) w q1) w = []"
    "aq_dlq (spec_ack U (job_ID j) w q1) = aq_dlq q"
    and "job_ID k = job_ID j \<Longrightarrow> holds U L (spec_bury U k w q1)"
    "job_ID k = job_ID j \<Longrightarrow> aq_inflight (spec_bury U k w q1) w = []"
    "job_ID k = job_ID j \<Longrightarrow> aq_dlq (spec_bury U k w q1) = job_key U j # aq_dlq q"
  using assms job_key_inject [OF assms(1)]
  by (auto simp: holds_def spec_ack_def spec_bury_def aq_defs Let_def butlast_append zadd_def zrem_def)

definition run_status :: "Registry \<Rightarrow> job_env \<Rightarrow> Job \<Rightarrow> JobStatus" where
  "run_status hs x job = (if run_succeeds hs x job then JobStatusCompleted else JobStatusDeadLetter)"

context worker_backend
begin

lemma worker_turn_job:
  assumes U: "uuid_ok U" and ok: "ok (sy_redis s)" and W: "p_queue W = Q" "p_store W = S"
    and q: "holds U (j # L) (absq (sy_redis s))" "sorted (map job_Priority (j # L))" "submittable U now j"
      "\<forall>j' \<in> set L. job_ID j' \<noteq> job_ID j" "aq_inflight (absq (sy_redis s)) (worker_id W) = []"
    and j: "job_Status j = JobStatusPending" "pg_text (job_Type j)" "rows (sy_pg s) (job_ID j) = Some w"
    and wid: "length (worker_id W) \<le> 64" "pg_text (worker_id W)" and stop: "\<not> tn_stop t"
  shows "\<exists>s' w'. worker_turn W t poll s = (Ret (Some (PollInterval (p_config W))), s') \<and> ok (sy_redis s') \<and>
    holds U L (absq (sy_redis s')) \<and> aq_inflight (absq (sy_redis s')) (worker_id W) = [] \<and>
    aq_dlq (absq (sy_redis s')) =
      (if run_succeeds (p_handlers W) (tn_job t) (from_json j) then [] else [job_key U j]) @ aq_dlq (absq (sy_redis s)) \<and>
    rows (sy_pg s') = (rows (sy_pg s))(job_ID j \<mapsto> w') \<and>
    row_status w' = run_status (p_handlers W) (tn_job t) (from_json j)"
proof -
  let ?q1 = "aq_fly (worker_id W) (clock (sy_redis s) + Milliseconds (5 * second)) (job_key U j)
    (aq_pop (job_Priority j) (absq (sy_redis s)))"
  obtain r where r: "q_Dequeue Q (worker_id W) (5 * second) (sy_redis s) = (Ret (from_json j), r)" "ok r" "absq r = ?q1"
    using dequeue_law [OF ok, of "worker_id W" "5 * second"] holds_dequeue_eq [OF U q(1-3)] by auto
  define s1 where "s1 = s\<lparr>sy_redis := r\<rparr>"
  have s1: "ok (sy_redis s1)" "rows (sy_pg s1) (job_ID (from_json j)) = Some w" "absq (sy_redis s1) = ?q1"
    using r j(3) by (simp_all add: s1_def)
  have turn: "worker_turn W t poll s = (Ret (Some (PollInterval (p_config W))), s')"
    if "executeJob W (tn_job t) (from_json j) s1 = (Ret (), s')" for s'
    using stop W r(1) that by (simp add: worker_turn_def s1_def)
  note fin = holds_finish [OF U q(1,4,5) refl]
  show ?thesis
  proof (cases "run_succeeds (p_handlers W) (tn_job t) (from_json j)")
    case True
    from executeJob_success [OF s1(1) W s1(2) wid True] obtain s' t1 t2 where
      "executeJob W (tn_job t) (from_json j) s1 = (Ret (), s')" "ok (sy_redis s')"
      "absq (sy_redis s') = spec_ack U (job_ID j) (worker_id W) ?q1"
      "rows (sy_pg s') = (rows (sy_pg s))(job_ID j \<mapsto> updated_row t2 JobStatusCompleted '''' '''' None (Some (je_now (tn_job t) 3))
        (updated_row t1 JobStatusRunning (worker_id W) '''' (Some (je_now (tn_job t) 1)) None w))"
      unfolding s1(3) by (auto simp: s1_def)
    with turn fin(1-3) True show ?thesis
      by (intro exI [of _ s'] exI [of _ "updated_row _ _ _ _ _ _ _"] conjI) (simp_all add: run_status_def)
  next
    case False
    have ty: "pg_text (job_Type (from_json j))" and enc: "job_encodable (from_json j)" and nr: "\<not> IsRetryable (from_json j)"
      using j(1,2) q(3) by (simp_all add: submittable_def IsRetryable_def)
    from executeJob_failure [OF s1(1) W s1(2) wid ty False enc nr refl] obtain s' t1 t2 msg where e:
      "executeJob W (tn_job t) (from_json j) s1 = (Ret (), s')" "ok (sy_redis s')"
      "absq (sy_redis s') = spec_bury U (dead_job (from_json j) msg) (worker_id W) ?q1"
      "rows (sy_pg s') = (rows (sy_pg s))(job_ID j \<mapsto> updated_row t2 JobStatusDeadLetter '''' msg None None
        (updated_row t1 JobStatusRunning (worker_id W) '''' (Some (je_now (tn_job t) 1)) None w))"
      unfolding s1(3) by (auto simp: s1_def)
    have "job_ID (dead_job (from_json j) msg) = job_ID j" by simp
    with turn fin(4-6) False e show ?thesis
      by (intro exI [of _ s'] exI [of _ "updated_row _ _ _ _ _ _ _"] conjI) (simp_all add: run_status_def)
  qed
qed

end

context worker_backend
begin

lemma worker_loop_drains:
  assumes U: "uuid_ok U" and W: "p_queue W = Q" "p_store W = S" and wid: "length (worker_id W) \<le> 64" "pg_text (worker_id W)"
    and "ok (sy_redis s)" "holds U L (absq (sy_redis s))" "sorted (map job_Priority L)" "distinct (map job_ID L)"
    and "\<forall>j \<in> set L. submittable U now j \<and> job_Status j = JobStatusPending \<and> pg_text (job_Type j) \<and> rows (sy_pg s) (job_ID j) \<noteq> None"
    and "aq_inflight (absq (sy_redis s)) (worker_id W) = []" "length ts = length L" "\<forall>t \<in> set ts. \<not> tn_stop t"
  shows "\<exists>s' poll'. worker_loop W ts poll s = (Ret (Some poll'), s') \<and> ok (sy_redis s') \<and>
    (\<forall>p. aq_ready (absq (sy_redis s')) p = []) \<and> aq_inflight (absq (sy_redis s')) (worker_id W) = [] \<and>
    aq_dlq (absq (sy_redis s')) =
      rev (map (\<lambda>x. job_key U (fst x)) (filter (\<lambda>x. \<not> run_succeeds (p_handlers W) (tn_job (snd x)) (from_json (fst x))) (zip L ts))) @
      aq_dlq (absq (sy_redis s)) \<and>
    (\<forall>u. u \<notin> job_ID ` set L \<longrightarrow> rows (sy_pg s') u = rows (sy_pg s) u) \<and>
    (\<forall>x \<in> set (zip L ts). \<exists>w. rows (sy_pg s') (job_ID (fst x)) = Some w \<and>
      row_status w = run_status (p_handlers W) (tn_job (snd x)) (from_json (fst x)))"
  using assms(6-)
proof (induction L arbitrary: ts s poll)
  case Nil
  then show ?case by (simp add: holds_def)
next
  case (Cons j L)
  obtain t ts' where ts: "ts = t # ts'" "length ts' = length L" using Cons.prems(7) by (cases ts) auto
  obtain w where w: "rows (sy_pg s) (job_ID j) = Some w" using Cons.prems(5) by auto
  have j: "submittable U now j" "job_Status j = JobStatusPending" "pg_text (job_Type j)" using Cons.prems(5) by auto
  have fresh: "\<forall>j' \<in> set L. job_ID j' \<noteq> job_ID j" using Cons.prems(4) by (auto simp: rev_image_eqI)
  have "\<not> tn_stop t" using Cons.prems(8) ts by simp
  from worker_turn_job [OF U Cons.prems(1) W Cons.prems(2,3) j(1) fresh Cons.prems(6) j(2,3) w wid this, of poll]
  obtain s1 w1 where s1: "worker_turn W t poll s = (Ret (Some (PollInterval (p_config W))), s1)" "ok (sy_redis s1)"
    "holds U L (absq (sy_redis s1))" "aq_inflight (absq (sy_redis s1)) (worker_id W) = []"
    "aq_dlq (absq (sy_redis s1)) =
      (if run_succeeds (p_handlers W) (tn_job t) (from_json j) then [] else [job_key U j]) @ aq_dlq (absq (sy_redis s))"
    "rows (sy_pg s1) = (rows (sy_pg s))(job_ID j \<mapsto> w1)"
    "row_status w1 = run_status (p_handlers W) (tn_job t) (from_json j)" by blast
  have L: "\<forall>j \<in> set L. submittable U now j \<and> job_Status j = JobStatusPending \<and> pg_text (job_Type j) \<and> rows (sy_pg s1) (job_ID j) \<noteq> None"
    using Cons.prems(5) fresh s1(6) by simp
  obtain s' poll' where s': "worker_loop W ts' (PollInterval (p_config W)) s1 = (Ret (Some poll'), s')" "ok (sy_redis s')"
    "\<forall>p. aq_ready (absq (sy_redis s')) p = []" "aq_inflight (absq (sy_redis s')) (worker_id W) = []"
    "aq_dlq (absq (sy_redis s')) =
      rev (map (\<lambda>x. job_key U (fst x)) (filter (\<lambda>x. \<not> run_succeeds (p_handlers W) (tn_job (snd x)) (from_json (fst x))) (zip L ts'))) @
      aq_dlq (absq (sy_redis s1))"
    "\<forall>u. u \<notin> job_ID ` set L \<longrightarrow> rows (sy_pg s') u = rows (sy_pg s1) u"
    "\<forall>x \<in> set (zip L ts'). \<exists>w. rows (sy_pg s') (job_ID (fst x)) = Some w \<and>
      row_status w = run_status (p_handlers W) (tn_job (snd x)) (from_json (fst x))"
    using Cons.IH [OF s1(2,3) _ _ L s1(4) ts(2), of "PollInterval (p_config W)"] Cons.prems(3,4,8) ts by auto
  have "job_ID j \<notin> job_ID ` set L" using Cons.prems(4) by simp
  then have "rows (sy_pg s') (job_ID j) = Some w1" using s'(6) s1(6) by simp
  moreover have "worker_loop W ts poll s = (Ret (Some poll'), s')" using s1(1) s'(1) by (simp add: ts)
  ultimately show ?case using s' s1(5-7) by (intro exI [of _ s'] exI [of _ poll']) (auto simp: ts)
qed

end

sublocale deployment \<subseteq> wk: worker_backend "RedisQueue R U" U "\<lambda>r. typed (view r)" "\<lambda>r. queue_of (view r)"
  "\<lambda>r. now_ms (view r)" "PostgreSQLStore P" "\<lambda>p u. find_row u (tables p)"
  by unfold_locales

context deployment
begin

lemmas worker_loop_deployed = wk.worker_loop_drains
lemmas executeJob_deployed = wk.executeJob_success wk.executeJob_failure

end

section \<open>Polling\<close>


section \<open>Properties\<close>

text \<open>
  C6: a worker that gets as many turns as there are ready jobs takes them all, in the order of their
  priorities, and each ends: in its row as completed if its run succeeds, and otherwise, however many
  retries it had left, dead-lettered in its row and in the queue. Nothing stays ready or in flight.
\<close>

theorem worker_drains_queue:
  assumes "deployment R view P tables" "uuid_ok U" "length (WorkerID cfg) \<le> 64" "pg_text (WorkerID cfg)"
    and "typed (view (sy_redis s))" "holds U L (queue_of (view (sy_redis s)))"
    and "sorted (map job_Priority L)" "distinct (map job_ID L)"
    and "\<forall>j \<in> set L. submittable U now j \<and> job_Status j = JobStatusPending \<and> pg_text (job_Type j) \<and>
      find_row (job_ID j) (tables (sy_pg s)) \<noteq> None"
    and "aq_inflight (queue_of (view (sy_redis s))) (WorkerID cfg) = []"
    and "length ts = length L" "\<forall>t \<in> set ts. \<not> tn_stop t"
  shows "\<exists>s' poll. worker (NewPool cfg (RedisQueue R U) (PostgreSQLStore P) hs) ts s = (Ret (Some poll), s') \<and>
    (\<forall>p. aq_ready (queue_of (view (sy_redis s'))) p = []) \<and>
    aq_inflight (queue_of (view (sy_redis s'))) (WorkerID cfg) = [] \<and>
    aq_dlq (queue_of (view (sy_redis s'))) =
      rev (map (\<lambda>x. job_key U (fst x)) (filter (\<lambda>x. \<not> run_succeeds hs (tn_job (snd x)) (from_json (fst x))) (zip L ts))) @
      aq_dlq (queue_of (view (sy_redis s))) \<and>
    (\<forall>x \<in> set (zip L ts). \<exists>w. find_row (job_ID (fst x)) (tables (sy_pg s')) = Some w \<and>
      row_status w = run_status hs (tn_job (snd x)) (from_json (fst x)))"
proof -
  let ?W = "NewPool cfg (RedisQueue R U) (PostgreSQLStore P) hs"
  have W: "p_queue ?W = RedisQueue R U" "p_store ?W = PostgreSQLStore P" "p_handlers ?W = hs" "worker_id ?W = WorkerID cfg"
    by (simp_all add: NewPool_def)
  show ?thesis
    using deployment.worker_loop_deployed [OF assms(1,2) W(1,2), of s L now ts "PollInterval (p_config ?W)"] assms(3-)
    unfolding W worker_def by blast
qed

text \<open>The witness: one job on Redis, its row in the table, and an email handler.\<close>

definition drain_job :: Job where
  "drain_job = (demo_job 7 5)\<lparr>job_Type := ''send-email''\<rparr>"

definition drain_redis :: rstate where
  "drain_redis = snd (q_Enqueue (RedisQueue mem_redis demo_uuid) 0 drain_job empty_server)"

definition calm_env :: job_env where
  "calm_env = \<lparr>je_timed_out = False, je_late = False,
     je_exec = \<lparr>ex_ctx = None, ex_http = \<lparr>hc_NewRequest = \<lambda>_ _. None, hc_Do = \<lambda>_. Inl ContextCanceled\<rparr>, ex_fmt2 = \<lambda>_. ''0.00''\<rparr>,
     je_now = \<lambda>n. int n\<rparr>"

definition calm_turn :: turn where
  "calm_turn = \<lparr>tn_stop = False, tn_stop_wait = False, tn_job = calm_env\<rparr>"

lemma drain_holds: "typed drain_redis \<and> holds demo_uuid [drain_job] (queue_of drain_redis) \<and>
    (\<forall>w. aq_inflight (queue_of drain_redis) w = [])"
proof -
  have enc: "job_encodable drain_job" using demo_encodable by (simp add: drain_job_def job_encodable_def)
  have sub: "submittable demo_uuid 0 drain_job"
    using demo_submittable [of 5 7] by (simp add: drain_job_def submittable_def job_encodable_def job_int64_def)
  obtain r where r: "q_Enqueue (RedisQueue mem_redis demo_uuid) 0 drain_job empty_server = (Ret (), r)" "typed r"
    "queue_of r = spec_enqueue demo_uuid 0 drain_job (queue_of empty_server)"
    using mem.rq.enqueue_law [OF typed_empty enc, of demo_uuid 0] by blast
  have "holds demo_uuid ([] @ [drain_job]) (spec_enqueue demo_uuid 0 drain_job (queue_of empty_server))"
    by (rule holds_enqueue [OF _ sub]) (simp_all add: holds_def)
  then show ?thesis using r
    by (auto simp: drain_redis_def spec_enqueue_def Let_def aq_defs)
qed

lemma worker_drains_queue_witness:
  "\<exists>s' poll. worker (NewPool (DefaultConfig ''host'' 1) (RedisQueue mem_redis demo_uuid) (PostgreSQLStore mem_pg)
      (Register (Some SendEmailHandler) NewRegistry)) [calm_turn] \<lparr>sy_redis = drain_redis, sy_pg = one_row, sy_metrics = NewCollector\<rparr> =
      (Ret (Some poll), s')"
proof -
  let ?s = "\<lparr>sy_redis = drain_redis, sy_pg = one_row, sy_metrics = NewCollector\<rparr>" and ?cfg = "DefaultConfig ''host'' 1"
  have c: "length (WorkerID ?cfg) \<le> 64" "pg_text (WorkerID ?cfg)"
    by code_simp+
  have s: "typed (sy_redis ?s)" "holds demo_uuid [drain_job] (queue_of (sy_redis ?s))"
    "aq_inflight (queue_of (sy_redis ?s)) (WorkerID ?cfg) = []" using drain_holds by simp_all
  have j: "\<forall>j \<in> set [drain_job]. submittable demo_uuid 0 j \<and> job_Status j = JobStatusPending \<and> pg_text (job_Type j) \<and>
      find_row (job_ID j) (sy_pg ?s) \<noteq> None"
    using demo_submittable [of 5 7]
    by (simp add: drain_job_def submittable_def job_encodable_def job_int64_def pg_text_ascii is_ascii_def demo_job_def)
  have t: "length [calm_turn] = length [drain_job]" "\<forall>t \<in> set [calm_turn]. \<not> tn_stop t"
    by (simp_all add: calm_turn_def)
  have o: "sorted (map job_Priority [drain_job])" "distinct (map job_ID [drain_job])" by simp_all
  show ?thesis
    using worker_drains_queue [OF demo.deployment_axioms demo_uuid_ok c s(1,2) o j s(3) t] by blast
qed

text \<open>
  C38: what the handler of a failed job reported is lost: when it returns an error or panics before the
  deadline, the job is dead-lettered in the queue and in its row with an empty error message, whatever
  retries it had left; only a run that exceeds the deadline leaves a message.
\<close>

theorem failed_run_loses_error:
  assumes "deployment R view P tables" "typed (view (sy_redis s))"
    and "length (WorkerID cfg) \<le> 64" "pg_text (WorkerID cfg)" "pg_text (job_Type job)"
    and "find_row (job_ID job) (tables (sy_pg s)) = Some w" "job_encodable job" "\<not> IsRetryable job"
    and "Registry_Get hs (job_Type job) = Some h" "h_Execute h (je_exec x) job \<noteq> Ret ()"
  shows "\<exists>s' w' msg. executeJob (NewPool cfg (RedisQueue R U) (PostgreSQLStore P) hs) x job s = (Ret (), s') \<and>
    msg = (if je_timed_out x \<or> je_late x then ''context deadline exceeded'' else '''') \<and>
    queue_of (view (sy_redis s')) = spec_bury U (dead_job job msg) (WorkerID cfg) (queue_of (view (sy_redis s))) \<and>
    find_row (job_ID job) (tables (sy_pg s')) = Some w' \<and> row_status w' = JobStatusDeadLetter \<and>
    row_error_message w' = Some msg \<and> row_retry_count w' = row_retry_count w"
proof -
  let ?W = "NewPool cfg (RedisQueue R U) (PostgreSQLStore P) hs"
  have W: "p_queue ?W = RedisQueue R U" "p_store ?W = PostgreSQLStore P" "p_handlers ?W = hs" "worker_id ?W = WorkerID cfg"
    by (simp_all add: NewPool_def)
  have fails: "\<not> run_succeeds hs x job" using assms(9,10) by (auto simp: run_succeeds_def)
  have msg: "failure_message hs x job = (if je_timed_out x \<or> je_late x then ''context deadline exceeded'' else '''')"
    using assms(9) by (simp add: failure_message_def)
  obtain s' t t' where s': "executeJob ?W x job s = (Ret (), s')"
    "queue_of (view (sy_redis s')) = spec_bury U (dead_job job (failure_message hs x job)) (WorkerID cfg) (queue_of (view (sy_redis s)))"
    "(\<lambda>u. find_row u (tables (sy_pg s'))) = (\<lambda>u. find_row u (tables (sy_pg s)))(job_ID job \<mapsto>
       updated_row t' JobStatusDeadLetter '''' (failure_message hs x job) None None
         (updated_row t JobStatusRunning (WorkerID cfg) '''' (Some (je_now x 1)) None w))"
    using deployment.executeJob_deployed(2) [OF assms(1,2) W(1,2) assms(6), of x "failure_message hs x job"]
      assms(3-5,7,8) fails unfolding W by blast
  have "find_row (job_ID job) (tables (sy_pg s')) = Some (updated_row t' JobStatusDeadLetter '''' (failure_message hs x job) None None
         (updated_row t JobStatusRunning (WorkerID cfg) '''' (Some (je_now x 1)) None w))"
    using fun_cong [OF s'(3), of "job_ID job"] by simp
  with s'(1,2) msg show ?thesis
    by (intro exI [of _ s'] exI [of _ "updated_row t' JobStatusDeadLetter '''' (failure_message hs x job) None None
         (updated_row t JobStatusRunning (WorkerID cfg) '''' (Some (je_now x 1)) None w)"]
         exI [of _ "failure_message hs x job"]) (simp add: updated_row_def coalesce_def)
qed

lemma failed_run_loses_error_witness:
  "\<exists>s' w'. executeJob (NewPool (DefaultConfig ''host'' 1) (RedisQueue mem_redis demo_uuid) (PostgreSQLStore mem_pg)
      (Register (Some DataCleanupHandler) NewRegistry)) calm_env ((demo_job 7 5)\<lparr>job_Type := ''data-cleanup'', job_Payload := Some (JObj [])\<rparr>)
      \<lparr>sy_redis = empty_server, sy_pg = one_row, sy_metrics = NewCollector\<rparr> = (Ret (), s') \<and>
    find_row 7 (sy_pg s') = Some w' \<and> row_error_message w' = Some ''''"
proof -
  let ?j = "(demo_job 7 5)\<lparr>job_Type := ''data-cleanup'', job_Payload := Some (JObj [])\<rparr>" and ?cfg = "DefaultConfig ''host'' 1"
    and ?s = "\<lparr>sy_redis = empty_server, sy_pg = one_row, sy_metrics = NewCollector\<rparr>"
    and ?hs = "Register (Some DataCleanupHandler) NewRegistry"
  have c: "length (WorkerID ?cfg) \<le> 64" "pg_text (WorkerID ?cfg)" "pg_text (job_Type ?j)" by code_simp+
  have j: "find_row (job_ID ?j) (sy_pg ?s) = Some (row_us (job_to_row cron_demo))" "job_encodable ?j" "\<not> IsRetryable ?j"
    "Registry_Get ?hs (job_Type ?j) = Some DataCleanupHandler"
    using demo_encodable [of 7 5]
    by (simp_all add: IsRetryable_def demo_job_def job_encodable_def Registry_Get_def Register_def NewRegistry_def DataCleanupHandler_def)
  have h: "h_Execute DataCleanupHandler (je_exec calm_env) ?j \<noteq> Ret ()"
    by (simp add: DataCleanupHandler_def DataCleanup_Execute_def unmarshal_payload_def)
  have "typed (sy_redis ?s)" by simp
  from failed_run_loses_error [OF demo.deployment_axioms this c j h, of demo_uuid] obtain s' w' msg where
    "executeJob (NewPool ?cfg (RedisQueue mem_redis demo_uuid) (PostgreSQLStore mem_pg) ?hs) calm_env ?j ?s = (Ret (), s')"
    "msg = (if je_timed_out calm_env \<or> je_late calm_env then ''context deadline exceeded'' else '''')"
    "find_row (job_ID ?j) (sy_pg s') = Some w'" "row_error_message w' = Some msg"
    by blast
  moreover have "job_ID ?j = 7" "\<not> (je_timed_out calm_env \<or> je_late calm_env)" by (simp_all add: calm_env_def)
  ultimately show ?thesis by (simp only: if_False) blast
qed







end
