(* ===== verification/Recovery_Facts.thy ===== *)
theory Recovery_Facts
  imports Queue_Recovery Core_Facts Pool_Facts
begin

text \<open>
  The scheduler and a worker together: jobs whose worker has died are put back by the reclaim loop
  of the scheduler and finished by another worker.
\<close>

section \<open>From recovery to delivery\<close>

lemma holds_revived:
  assumes "revived U rj ks q q'" "\<forall>p. aq_ready q p = []" "\<forall>k \<in> set ks. job_key U (rj k) = k"
  shows "holds U (map rj ks) q'"
proof -
  have "map (\<lambda>k. job_key U (rj k)) (filter P ks) = filter P ks" for P
    using assms(3) by (intro map_idI) simp
  then show ?thesis using assms by (simp add: holds_def revived_def filter_map comp_def rev_map [symmetric])
qed

text \<open>A job a worker can run once it is back: its row exists, and its priority and type are valid.\<close>

definition runnable :: "uuid_lib \<Rightarrow> aqueue \<Rightarrow> pgstate \<Rightarrow> string \<Rightarrow> bool" where
  "runnable U q db k =
     (case stored U q k of
        Ret j \<Rightarrow> 0 \<le> job_Priority j \<and> job_Priority j \<le> 9 \<and> pg_text (job_Type j) \<and> find_row (job_ID j) db \<noteq> None
      | _ \<Rightarrow> False)"

lemma retried_runnable:
  assumes "recoverable U q (now k) k" "runnable U q db k"
  shows "submittable U (200006291456 * 1000000000) (retried U now q k) \<and> job_Status (retried U now q k) = JobStatusPending \<and>
    pg_text (job_Type (retried U now q k)) \<and> find_row (job_ID (retried U now q k)) db \<noteq> None \<and>
    job_key U (retried U now q k) = k"
proof (rule retried_job [of U q now k, OF assms(1)])
  fix j t'
  assume j: "stored U q k = Ret j" "job_key U j = k" "job_encodable (retried U now q k)" "job_int64 (retried U now q k)"
    and r: "retried U now q k = j\<lparr>job_RetryCount := job_RetryCount j + 1, job_Status := JobStatusPending, job_WorkerID := '''',
      job_ScheduledAt := t'\<rparr>" and t': "t' < now k + 5000000000 * 2 ^ nat (job_RetryCount j + 1) + 1000000000"
  have c: "job_RetryCount j < 20" "now k < 200000000000 * 1000000000" using assms(1) j(1) by (simp_all add: recoverable_def)
  then have "(2::int) ^ nat (job_RetryCount j + 1) \<le> 2 ^ 20" by (intro power_increasing) auto
  then have "t' \<le> 200006291456 * 1000000000" using t' c(2) by simp
  then have "UnixMilli t' \<le> UnixMilli (200006291456 * 1000000000)" unfolding UnixMilli_def by (rule zdiv_mono1) simp
  then show ?thesis using assms(2) j r by (simp add: runnable_def submittable_def)
qed


context redis_isolated
begin

lemma reclaimed_jobs:
  assumes "uuid_ok U" "typed (view r)" "q = queue_of (view r)" "one_owner q" "\<forall>p. aq_ready q p = []"
    and "\<forall>w. \<forall>k \<in> members (aq_inflight q w). k \<in> set (orphans now maxAge w q) \<and> recoverable U q (now k) k \<and> runnable U q db k"
  shows "\<exists>L r'. ReclaimOrphaned R U now maxAge r = (Ret (int (length L), None), r') \<and> typed (view r') \<and>
    holds U L (queue_of (view r')) \<and> sorted (map job_Priority L) \<and> distinct (map job_ID L) \<and>
    (\<forall>w. aq_inflight (queue_of (view r')) w = []) \<and> job_key U ` set L = (\<Union>w. members (aq_inflight q w)) \<and>
    (\<forall>j \<in> set L. submittable U (200006291456 * 1000000000) j \<and> job_Status j = JobStatusPending \<and> pg_text (job_Type j) \<and>
      find_row (job_ID j) db \<noteq> None)"
proof -
  let ?rj = "retried U now q"
  have good: "recoverable U q (now k) k \<and> runnable U q db k" if "k \<in> members (aq_inflight q w)" for w k
    using that assms(6) by blast
  have all: "set (orphans now maxAge w q) = members (aq_inflight q w)" for w
    using set_orphans [of now maxAge w q] assms(6) by blast
  obtain ks r' where r': "ReclaimOrphaned R U now maxAge r = (Ret (int (length ks), None), r')"
    "typed (view r')" "distinct ks" "set ks = (\<Union>w. members (aq_inflight q w))" "revived U ?rj ks q (queue_of (view r'))"
    using reclaim_revives [OF assms(2), of now maxAge U] assms(3,4) all good by auto
  have ready: "submittable U (200006291456 * 1000000000) (?rj k) \<and> job_Status (?rj k) = JobStatusPending \<and>
      pg_text (job_Type (?rj k)) \<and> find_row (job_ID (?rj k)) db \<noteq> None \<and> job_key U (?rj k) = k" if k: "k \<in> set ks" for k
  proof -
    obtain w where "k \<in> members (aq_inflight q w)" using k r'(4) by blast
    then show ?thesis using retried_runnable [of U q now k db] good [of k w] by simp
  qed
  define L where "L = sort_key job_Priority (map ?rj ks)"
  have L: "set L = ?rj ` set ks" "mset L = mset (map ?rj ks)" "sorted (map job_Priority L)" "length L = length ks"
    by (simp_all add: L_def)
  have "holds U L (queue_of (view r'))"
    unfolding L_def using ready by (intro holds_sort holds_revived [OF r'(5) assms(5)]) simp
  moreover have "inj_on (\<lambda>k. job_ID (?rj k)) (set ks)" using ready by (intro inj_onI) metis
  then have "distinct (map job_ID (map ?rj ks))" using r'(3) by (simp add: distinct_map comp_def)
  then have "distinct (map job_ID L)" by (metis L(2) mset_map mset_eq_imp_distinct_iff)
  moreover have "aq_inflight (queue_of (view r')) w = []" for w
    using r'(4,5) by (auto simp: revived_def filter_empty_conv members_def)
  moreover have "job_key U ` set L = (\<Union>w. members (aq_inflight q w))"
    using ready r'(4) by (auto simp: L(1) image_image)
  ultimately show ?thesis using r'(1,2) L ready by (intro exI [of _ L] exI [of _ r']) simp
qed

end

section \<open>Properties\<close>

text \<open>
  C7: jobs survive the death of their workers. Let the ready queues be empty and every entry in flight
  be more than two minutes past its deadline, with its document and its row intact. Then one pass of
  the reclaim loop of the scheduler empties the in-flight sets, and any worker that afterwards gets as
  many turns as there were jobs in flight takes them all and finishes each: completed in its row if
  its run succeeds, dead-lettered otherwise.
\<close>

theorem crashed_jobs_finish:
  assumes "deployment R view P tables" "uuid_ok U" "length (WorkerID cfg) \<le> 64" "pg_text (WorkerID cfg)"
    and "typed (view (sy_redis s))" "q = queue_of (view (sy_redis s))" "one_owner q" "\<forall>p. aq_ready q p = []"
    and "\<forall>w. \<forall>k \<in> members (aq_inflight q w). k \<in> set (orphans (in_key_now i) (2 * minute) w q) \<and>
      recoverable U q (in_key_now i k) k \<and> runnable U q (tables (sy_pg s)) k"
  shows "\<exists>s1 L. reclaimOrphanedJobs (NewCore (RedisQueue R U) (PostgreSQLStore P) Lk U) i s = (Ret (), s1) \<and>
    (\<forall>w. aq_inflight (queue_of (view (sy_redis s1))) w = []) \<and> distinct (map job_ID L) \<and>
    job_key U ` set L = (\<Union>w. members (aq_inflight q w)) \<and>
    (\<forall>ts m. length ts = length L \<longrightarrow> (\<forall>t \<in> set ts. \<not> tn_stop t) \<longrightarrow>
      (\<exists>s2 poll. worker (NewPool cfg (RedisQueue R U) (PostgreSQLStore P) hs) ts
          \<lparr>sy_redis = sy_redis s1, sy_pg = sy_pg s1, sy_metrics = m\<rparr> = (Ret (Some poll), s2) \<and>
        (\<forall>p. aq_ready (queue_of (view (sy_redis s2))) p = []) \<and>
        (\<forall>x \<in> set (zip L ts). \<exists>w. find_row (job_ID (fst x)) (tables (sy_pg s2)) = Some w \<and>
          row_status w = run_status hs (tn_job (snd x)) (from_json (fst x)))))"
proof -
  let ?W = "NewPool cfg (RedisQueue R U) (PostgreSQLStore P) hs"
  have iso: "redis_isolated R view" using assms(1) by (rule deployment.axioms(1))
  obtain L r' where r': "ReclaimOrphaned R U (in_key_now i) (2 * minute) (sy_redis s) = (Ret (int (length L), None), r')"
    "typed (view r')" "holds U L (queue_of (view r'))" "sorted (map job_Priority L)" "distinct (map job_ID L)"
    "\<forall>w. aq_inflight (queue_of (view r')) w = []" "job_key U ` set L = (\<Union>w. members (aq_inflight q w))"
    "\<forall>j \<in> set L. submittable U (200006291456 * 1000000000) j \<and> job_Status j = JobStatusPending \<and> pg_text (job_Type j) \<and>
      find_row (job_ID j) (tables (sy_pg s)) \<noteq> None"
    using redis_isolated.reclaimed_jobs [OF iso assms(2,5-9)] by blast
  have W: "p_queue ?W = RedisQueue R U" "p_store ?W = PostgreSQLStore P" "p_handlers ?W = hs" "worker_id ?W = WorkerID cfg"
    by (simp_all add: NewPool_def)
  have run: "\<exists>s2 poll. worker ?W ts \<lparr>sy_redis = r', sy_pg = sy_pg s, sy_metrics = m\<rparr> = (Ret (Some poll), s2) \<and>
        (\<forall>p. aq_ready (queue_of (view (sy_redis s2))) p = []) \<and>
        (\<forall>x \<in> set (zip L ts). \<exists>w. find_row (job_ID (fst x)) (tables (sy_pg s2)) = Some w \<and>
          row_status w = run_status hs (tn_job (snd x)) (from_json (fst x)))"
    if "length ts = length L" "\<forall>t \<in> set ts. \<not> tn_stop t" for ts m
    using deployment.worker_loop_deployed [OF assms(1,2) W(1,2), of "\<lparr>sy_redis = r', sy_pg = sy_pg s, sy_metrics = m\<rparr>" L
        "200006291456 * 1000000000" ts "PollInterval (p_config ?W)"] that r' assms(3,4)
    unfolding W worker_def by auto
  have "reclaimOrphanedJobs (NewCore (RedisQueue R U) (PostgreSQLStore P) Lk U) i s = (Ret (), s\<lparr>sy_redis := r'\<rparr>)"
    using r'(1) by (simp add: reclaimOrphanedJobs_def NewCore_def RedisQueue_def on_redis_def logged_def)
  then show ?thesis using r' run by (intro exI [of _ "s\<lparr>sy_redis := r'\<rparr>"] exI [of _ L]) simp
qed

lemma crashed_jobs_finish_witness:
  "\<exists>s1. reclaimOrphanedJobs (NewCore (RedisQueue mem_redis demo_uuid) (PostgreSQLStore mem_pg) (RedisLocker mem_redis) demo_uuid)
      \<lparr>in_uuid = 0, in_bytes = Inr [], in_now = \<lambda>_. 0, in_key_now = \<lambda>_. 1000000000000\<rparr> (init_core (crashed_demo 7) one_row) = (Ret (), s1) \<and>
     (\<forall>w. aq_inflight (queue_of (sy_redis s1)) w = [])"
proof -
  let ?s = "init_core (crashed_demo 7) one_row" and ?cfg = "DefaultConfig ''host'' 1"
    and ?i = "\<lparr>in_uuid = 0, in_bytes = Inr [], in_now = \<lambda>_. 0, in_key_now = \<lambda>_. 1000000000000\<rparr>"
  have c: "length (WorkerID ?cfg) \<le> 64" "pg_text (WorkerID ?cfg)" by code_simp+
  have "runnable demo_uuid (queue_of (crashed_demo 7)) one_row (jobDataKey demo_uuid 7)"
    by (simp add: runnable_def) (simp add: demo_job_def pg_text_ascii is_ascii_def)
  then have g: "\<forall>w. \<forall>k \<in> members (aq_inflight (queue_of (sy_redis ?s)) w).
      k \<in> set (orphans (in_key_now ?i) (2 * minute) w (queue_of (sy_redis ?s))) \<and>
      recoverable demo_uuid (queue_of (sy_redis ?s)) (in_key_now ?i k) k \<and>
      runnable demo_uuid (queue_of (sy_redis ?s)) (sy_pg ?s) k"
    by (simp add: init_core_def members_def)
  have s: "typed (sy_redis ?s)" "one_owner (queue_of (sy_redis ?s))" "\<forall>p. aq_ready (queue_of (sy_redis ?s)) p = []"
    by (simp_all add: init_core_def)
  show ?thesis
    by (rule exE [OF crashed_jobs_finish [OF demo.deployment_axioms demo_uuid_ok c s(1) refl s(2,3) g,
          of "RedisLocker mem_redis" NewRegistry]], elim exE conjE, rule exI, rule conjI, assumption+)
qed

end
