(* ===== verification/Lifecycle.thy ===== *)
theory Lifecycle
  imports Worker_Pool Scheduler_Core
begin

text \<open>
  Starting and stopping: \<open>Start\<close> and \<open>Shutdown\<close> of the worker pool and of the scheduler core, with the
  goroutines they launch, as step relations on the points of control. What the goroutines do between two
  points is left open, so that every interleaving of their effects is covered; the turns of a worker are
  shown to follow the relation.
\<close>

section \<open>Goroutines behind a stop signal\<close>

text \<open>
  A step of a goroutine depends on whether the signal to stop has been given. \<open>tick\<close> marks the steps in
  which it takes up work although it could stop: Go's \<open>select\<close> picks any of the ready branches.
\<close>

locale stoppable =
  fixes gstep :: "bool \<Rightarrow> 'c \<Rightarrow> 'c \<Rightarrow> bool" and returned :: 'c and tick :: "'c \<Rightarrow> 'c \<Rightarrow> bool" and cost :: "'c \<Rightarrow> nat"
  assumes returned_final: "\<not> gstep b returned c"
    and returns_on_stop: "gstep b c returned \<Longrightarrow> b"
    and can_stop: "c \<noteq> returned \<Longrightarrow> \<exists>c'. gstep True c c' \<and> \<not> tick c c'"
    and stop_cost: "gstep True c c' \<Longrightarrow> \<not> tick c c' \<Longrightarrow> cost c' < cost c"
    and tick_cost: "gstep b c c' \<Longrightarrow> tick c c' \<Longrightarrow> cost c' \<le> cost c + 1"
begin

text \<open>A wait group counts the goroutines that have not returned.\<close>

definition running :: "'c list \<Rightarrow> nat" where
  "running cs = length (filter (\<lambda>c. c \<noteq> returned) cs)"

lemma running_append [simp]: "running (cs @ [c]) = running cs + (if c = returned then 0 else 1)"
  by (simp add: running_def)

lemma running_0: "running cs = 0 \<longleftrightarrow> (\<forall>c \<in> set cs. c = returned)"
  by (auto simp: running_def filter_empty_conv)

lemma running_update:
  "i < length cs \<Longrightarrow> gstep b (cs ! i) c' \<Longrightarrow> running (cs[i := c']) + (if c' = returned then 1 else 0) = running cs"
proof (induction cs arbitrary: i)
  case (Cons c cs)
  then show ?case
    by (cases i) (use returned_final in \<open>auto simp: running_def\<close>)
qed simp

definition total_cost :: "'c list \<Rightarrow> nat" where
  "total_cost cs = sum_list (map cost cs)"

lemma total_cost_append [simp]: "total_cost (cs @ [c]) = total_cost cs + cost c"
  by (simp add: total_cost_def)

lemma total_cost_update: "i < length cs \<Longrightarrow> total_cost (cs[i := c']) + cost (cs ! i) = total_cost cs + cost c'"
  by (induction cs arbitrary: i) (auto simp: total_cost_def nth_Cons split: nat.splits)

lemma stop_total_cost:
  "i < length cs \<Longrightarrow> gstep True (cs ! i) c' \<Longrightarrow> \<not> tick (cs ! i) c' \<Longrightarrow> total_cost (cs[i := c']) < total_cost cs"
  using stop_cost [of "cs ! i" c'] total_cost_update [of i cs c'] by linarith

lemma tick_total_cost:
  "i < length cs \<Longrightarrow> gstep b (cs ! i) c' \<Longrightarrow> tick (cs ! i) c' \<Longrightarrow> total_cost (cs[i := c']) \<le> total_cost cs + 1"
  using tick_cost [of b "cs ! i" c'] total_cost_update [of i cs c'] by linarith

lemma group_can_stop:
  assumes "running cs \<noteq> 0"
  shows "\<exists>i c'. i < length cs \<and> gstep True (cs ! i) c' \<and> \<not> tick (cs ! i) c'"
proof -
  from assms obtain c where "c \<in> set cs" "c \<noteq> returned" by (auto simp: running_0)
  then show ?thesis using can_stop by (metis in_set_conv_nth)
qed

end

section \<open>The worker pool\<close>

text \<open>
  The points of a worker's loop: the \<open>select\<close> at the top, with the poll interval; the call of \<open>Dequeue\<close>; a
  job is running; the queue was empty and the worker waits. At the top the closed channel is always
  seen, because the other branch is the default; a waiting worker may see its timer first.
\<close>

datatype worker_pc = AtTop duration | Polling duration | Executing | BackingOff duration | Returned

inductive worker_step :: "Config \<Rightarrow> bool \<Rightarrow> worker_pc \<Rightarrow> worker_pc \<Rightarrow> bool" for cfg where
  Stop: "worker_step cfg True (AtTop poll) Returned"
| Go_on: "worker_step cfg False (AtTop poll) (Polling poll)"
| Dequeued: "worker_step cfg b (Polling poll) Executing"
| Empty: "worker_step cfg b (Polling poll) (BackingOff poll)"
| Dequeue_error: "worker_step cfg b (Polling poll) (AtTop poll)"
| Executed: "worker_step cfg b Executing (AtTop (PollInterval cfg))"
| Wait_stop: "worker_step cfg True (BackingOff poll) Returned"
| Waited: "worker_step cfg b (BackingOff poll) (AtTop (next_poll cfg poll))"

inductive_cases worker_step_Returned [elim!]: "worker_step cfg b Returned c"
inductive_cases worker_step_stop [elim]: "worker_step cfg True c c'"
inductive_cases worker_step_to_Returned [elim]: "worker_step cfg b c Returned"

text \<open>
  A turn of the loop as it is executed follows these steps: it sees the channel at the top as \<open>tn_stop\<close>
  says, later as it may be, and while it waits as \<open>tn_stop_wait\<close> says.
\<close>

lemma worker_turn_follows_steps:
  assumes "worker_turn W t poll s = (Ret x, s')"
  defines "c' \<equiv> (case x of None \<Rightarrow> Returned | Some poll' \<Rightarrow> AtTop poll')"
  shows "worker_step (p_config W) (tn_stop t) (AtTop poll) c' \<or>
    worker_step (p_config W) (tn_stop t) (AtTop poll) (Polling poll) \<and>
      (worker_step (p_config W) b (Polling poll) c' \<or>
       (\<exists>c. worker_step (p_config W) b (Polling poll) c \<and> worker_step (p_config W) (tn_stop_wait t) c c'))"
proof (cases "tn_stop t")
  case True
  with assms show ?thesis by (auto simp: worker_turn_def intro: worker_step.intros)
next
  case False
  let ?cfg = "p_config W"
  obtain y r where y: "q_Dequeue (p_queue W) (worker_id W) (5 * second) (sy_redis s) = (y, r)"
    by (cases "q_Dequeue (p_queue W) (worker_id W) (5 * second) (sy_redis s)")
  have "worker_step ?cfg b (Polling poll) c' \<or>
      (\<exists>c. worker_step ?cfg b (Polling poll) c \<and> worker_step ?cfg (tn_stop_wait t) c c')"
  proof (cases y)
    case (Ret job)
    then have "x = Some (PollInterval ?cfg)"
      using assms(1) False y
      by (cases "executeJob W (tn_job t) job (s\<lparr>sy_redis := r\<rparr>)")
        (auto simp: worker_turn_def andthen_def split: res.splits)
    then show ?thesis by (auto simp: c'_def intro: worker_step.intros)
  next
    case (Err e)
    show ?thesis
    proof (cases "e = ErrQueueEmpty")
      case True
      then have "c' = (if tn_stop_wait t then Returned else AtTop (next_poll ?cfg poll))"
        using assms False y Err by (auto simp: worker_turn_def)
      then have "worker_step ?cfg (tn_stop_wait t) (BackingOff poll) c'" by (auto intro: worker_step.intros)
      then show ?thesis using worker_step.Empty by blast
    qed (use assms False y Err in \<open>auto simp: worker_turn_def intro: worker_step.intros\<close>)
  qed (use assms False y in \<open>simp add: worker_turn_def\<close>)
  then show ?thesis using False by (auto intro: worker_step.intros)
qed

text \<open>
  A panic that leaves \<open>executeJob\<close> ends the process; the relation has no step for it. It can only come from the
  shift in \<open>NextRetryTime\<close>, for a document in the queue with the status failed and a negative retry count, which
  no operation of the program writes.
\<close>

lemma redis_no_panic:
  "Dequeue R U w timeout r \<noteq> (Panic m, r')" "Acknowledge R U u w r \<noteq> (Panic m, r')" "Requeue R U job r \<noteq> (Panic m, r')"
  by (auto simp: Dequeue_def decode_dequeued_def unmarshal_reply_def Let_def Acknowledge_def Requeue_def pipe_err_def Marshal_job_def
      split: prod.splits sum.splits reply.splits list.splits bulk.splits if_splits elim: map_err.elims)

lemma Nack_panic:
  "Nack R U now job w msg r = (Panic m, job', r') \<Longrightarrow> IsRetryable job \<and> go_int (job_RetryCount job + 1) < 0"
  using redis_no_panic(3) [of R U _ r m r']
  by (auto simp: Nack_def NextRetryTime_def Let_def pipe_err_def Marshal_job_def split: if_splits prod.splits sum.splits)

lemma UpdateJobStatus_no_panic: "UpdateJobStatus P u st opts p \<noteq> (Panic m, p')"
  by (auto simp: UpdateJobStatus_def Let_def split: prod.splits sum.splits)

lemma executeJob_panic:
  assumes "executeJob (NewPool cfg (RedisQueue R U) (PostgreSQLStore P) hs) x job s = (Panic m, s')"
  shows "IsRetryable job \<and> go_int (job_RetryCount job + 1) < 0"
proof (rule ccontr)
  let ?W = "NewPool cfg (RedisQueue R U) (PostgreSQLStore P) hs"
  assume "\<not> ?thesis"
  then have n: "Nack R U now job w msg r \<noteq> (Panic m, job', r')" for now w msg r job' r'
    using Nack_panic [of R U now job w msg r m job' r'] by auto
  have e: "handleJobError ?W x job err s1 \<noteq> (Panic m, s2)" for err s1 s2
    using n UpdateJobStatus_no_panic [of P]
    by (auto simp: handleJobError_def NewPool_def RedisQueue_def PostgreSQLStore_def Let_def andthen_def logged_def on_pg_def
        split: prod.splits res.splits)
  have k: "handleJobSuccess ?W x job t s1 \<noteq> (Panic m, s2)" for t s1 s2
    using redis_no_panic(2) [of R U] UpdateJobStatus_no_panic [of P]
    by (auto simp: handleJobSuccess_def NewPool_def RedisQueue_def PostgreSQLStore_def andthen_def logged_def on_pg_def on_redis_def
        split: prod.splits res.splits)
  let ?up = "on_pg (s_UpdateJobStatus (p_store ?W) (job_ID job) JobStatusRunning [WithWorkerID (worker_id ?W), WithStartedAt (je_now x 1)])"
  let ?opts = "[WithWorkerID (worker_id ?W), WithStartedAt (je_now x 1)]"
  obtain y p where y: "UpdateJobStatus P (job_ID job) JobStatusRunning ?opts (sy_pg s) = (y, p)"
    by (cases "UpdateJobStatus P (job_ID job) JobStatusRunning ?opts (sy_pg s)")
  have "p_store ?W = PostgreSQLStore P" by (simp add: NewPool_def)
  moreover have "\<forall>m'. y \<noteq> Panic m'"
    using UpdateJobStatus_no_panic [of P "job_ID job" JobStatusRunning ?opts "sy_pg s" _ p] y by auto
  ultimately have s1: "logged ?up s = (Ret (), s\<lparr>sy_pg := p\<rparr>)"
    using y by (cases y) (simp_all add: logged_def on_pg_def PostgreSQLStore_def)
  show False
  proof (cases "Registry_Get (p_handlers ?W) (job_Type job)")
    case None
    with assms s1 e show False by (simp add: executeJob_def andthen_def del: append.simps)
  next
    case (Some h)
    with assms s1 e k show False by (simp add: executeJob_def andthen_def split: if_splits)
  qed
qed

lemma worker_turn_panic:
  assumes "worker_turn (NewPool cfg (RedisQueue R U) (PostgreSQLStore P) hs) t poll s = (Panic m, s')"
  shows "\<exists>job r. Dequeue R U (WorkerID cfg) (5 * second) (sy_redis s) = (Ret job, r) \<and>
    IsRetryable job \<and> go_int (job_RetryCount job + 1) < 0"
proof -
  let ?W = "NewPool cfg (RedisQueue R U) (PostgreSQLStore P) hs"
  have W: "p_queue ?W = RedisQueue R U" "worker_id ?W = WorkerID cfg" by (simp_all add: NewPool_def)
  obtain y r where y: "Dequeue R U (WorkerID cfg) (5 * second) (sy_redis s) = (y, r)"
    by (cases "Dequeue R U (WorkerID cfg) (5 * second) (sy_redis s)")
  show ?thesis
  proof (cases y)
    case (Ret job)
    with assms y W have "executeJob ?W (tn_job t) job (s\<lparr>sy_redis := r\<rparr>) = (Panic m, s')"
      by (cases "executeJob ?W (tn_job t) job (s\<lparr>sy_redis := r\<rparr>)")
        (auto simp: worker_turn_def RedisQueue_def andthen_def split: if_splits res.splits)
    from executeJob_panic [OF this] y Ret show ?thesis by blast
  qed (use assms y W redis_no_panic(1) [of R U "WorkerID cfg" "5 * second" "sy_redis s"] in
      \<open>auto simp: worker_turn_def RedisQueue_def split: if_splits\<close>)
qed

text \<open>
  What \<open>Start\<close> has done and what the other goroutines read of it: the stop channel, the wait group, the
  workers launched, the gauge of the active workers, and whether the heartbeat's context is alive.
\<close>

datatype start_pc = NotStarted | Launching | Serving | Draining | StartReturned bool | Panicked

record pool_run =
  pr_pc :: start_pc
  pr_stopped :: bool
  pr_wg :: int
  pr_workers :: "worker_pc list"
  pr_active :: int
  pr_beating :: bool

definition pool_init :: pool_run where
  "pool_init = \<lparr>pr_pc = NotStarted, pr_stopped = False, pr_wg = 0, pr_workers = [], pr_active = 0, pr_beating = False\<rparr>"

text \<open>
  \<open>wg.Add\<close> panics when the counter becomes negative, and \<open>time.NewTicker\<close> in the heartbeat goroutine when
  the interval is not positive; both end the process. The argument of \<open>StartReturned\<close> tells whether the
  workers had stopped or thirty seconds had passed.
\<close>

inductive pool_step :: "Config \<Rightarrow> pool_run \<Rightarrow> pool_run \<Rightarrow> bool" for cfg where
  Begin: "pr_pc r = NotStarted \<Longrightarrow> 0 \<le> Concurrency cfg \<Longrightarrow>
    pool_step cfg r (r\<lparr>pr_pc := Launching, pr_beating := True, pr_wg := pr_wg r + Concurrency cfg\<rparr>)"
| Begin_negative: "pr_pc r = NotStarted \<Longrightarrow> Concurrency cfg < 0 \<Longrightarrow> pool_step cfg r (r\<lparr>pr_pc := Panicked\<rparr>)"
| Ticker_panic: "pr_pc r \<noteq> Panicked \<Longrightarrow> pr_beating r \<Longrightarrow> sint (HeartbeatInterval cfg) \<le> 0 \<Longrightarrow>
    pool_step cfg r (r\<lparr>pr_pc := Panicked\<rparr>)"
| Launch: "pr_pc r = Launching \<Longrightarrow> int (length (pr_workers r)) < Concurrency cfg \<Longrightarrow>
    pool_step cfg r (r\<lparr>pr_workers := pr_workers r @ [AtTop (PollInterval cfg)]\<rparr>)"
| Launched: "pr_pc r = Launching \<Longrightarrow> int (length (pr_workers r)) \<ge> Concurrency cfg \<Longrightarrow>
    pool_step cfg r (r\<lparr>pr_pc := Serving, pr_active := 1\<rparr>)"
| Stop_seen: "pr_pc r = Serving \<Longrightarrow> pr_stopped r \<Longrightarrow> pool_step cfg r (r\<lparr>pr_pc := Draining, pr_active := 0\<rparr>)"
| Drained: "pr_pc r = Draining \<Longrightarrow> pr_wg r = 0 \<Longrightarrow>
    pool_step cfg r (r\<lparr>pr_pc := StartReturned True, pr_beating := False\<rparr>)"
| Drain_timeout: "pr_pc r = Draining \<Longrightarrow> pool_step cfg r (r\<lparr>pr_pc := StartReturned False, pr_beating := False\<rparr>)"
| Worker: "pr_pc r \<noteq> Panicked \<Longrightarrow> i < length (pr_workers r) \<Longrightarrow> worker_step cfg (pr_stopped r) (pr_workers r ! i) c \<Longrightarrow>
    pool_step cfg r (r\<lparr>pr_workers := (pr_workers r)[i := c], pr_wg := pr_wg r - (if c = Returned then 1 else 0)\<rparr>)"

text \<open>The channel is closed once, however often \<open>Shutdown\<close> is called.\<close>

definition Pool_Shutdown :: "pool_run \<Rightarrow> pool_run" where
  "Pool_Shutdown r = r\<lparr>pr_stopped := True\<rparr>"

inductive pool_reach :: "Config \<Rightarrow> pool_run \<Rightarrow> bool" for cfg where
  init: "pool_reach cfg pool_init"
| step: "pool_reach cfg r \<Longrightarrow> pool_step cfg r r' \<Longrightarrow> pool_reach cfg r'"
| shutdown: "pool_reach cfg r \<Longrightarrow> pool_reach cfg (Pool_Shutdown r)"

fun worker_cost :: "worker_pc \<Rightarrow> nat" where
  "worker_cost (AtTop _) = 1"
| "worker_cost (Polling _) = 3"
| "worker_cost Executing = 2"
| "worker_cost (BackingOff _) = 2"
| "worker_cost Returned = 0"

interpretation workers: stoppable "worker_step cfg" Returned "\<lambda>_ _. False" worker_cost for cfg
proof
  show "\<exists>c'. worker_step cfg True c c' \<and> \<not> False" if "c \<noteq> Returned" for c
    using that by (cases c) (auto intro: worker_step.intros)
qed auto

section \<open>The scheduler core\<close>

text \<open>
  The points of a background loop: its \<open>select\<close>, and the body the ticker starts. With the context ended
  or \<open>cronStop\<close> closed the ticker may still win the \<open>select\<close>.
\<close>

datatype loop_pc = AtSelect | InBody | LoopReturned

inductive loop_step :: "bool \<Rightarrow> loop_pc \<Rightarrow> loop_pc \<Rightarrow> bool" where
  Loop_stop: "loop_step True AtSelect LoopReturned"
| Ticker: "loop_step b AtSelect InBody"
| Body_done: "loop_step b InBody AtSelect"

inductive_cases loop_step_cases [elim!]: "loop_step b c c'"

fun loop_tick :: "loop_pc \<Rightarrow> loop_pc \<Rightarrow> bool" where
  "loop_tick AtSelect InBody = True"
| "loop_tick _ _ = False"

datatype core_pc = CoreNotStarted | CoreLaunching | CoreServing | CoreDraining | CoreReturned

record core_run =
  cr_pc :: core_pc
  cr_ctx_done :: bool
  cr_stopped :: bool
  cr_cronStop :: bool
  cr_wg :: int
  cr_loops :: "loop_pc list"

definition core_init :: core_run where
  "core_init = \<lparr>cr_pc = CoreNotStarted, cr_ctx_done = False, cr_stopped = False, cr_cronStop = False, cr_wg = 0, cr_loops = []\<rparr>"

text \<open>The label of a step tells whether a ticker has started the body of a loop.\<close>

inductive core_step :: "bool \<Rightarrow> core_run \<Rightarrow> core_run \<Rightarrow> bool" where
  CBegin: "cr_pc r = CoreNotStarted \<Longrightarrow> core_step False r (r\<lparr>cr_pc := CoreLaunching\<rparr>)"
| CLaunch: "cr_pc r = CoreLaunching \<Longrightarrow> length (cr_loops r) < 3 \<Longrightarrow>
    core_step False r (r\<lparr>cr_wg := cr_wg r + 1, cr_loops := cr_loops r @ [AtSelect]\<rparr>)"
| CLaunched: "cr_pc r = CoreLaunching \<Longrightarrow> length (cr_loops r) = 3 \<Longrightarrow> core_step False r (r\<lparr>cr_pc := CoreServing\<rparr>)"
| CStop_seen: "cr_pc r = CoreServing \<Longrightarrow> cr_stopped r \<Longrightarrow>
    core_step False r (r\<lparr>cr_pc := CoreDraining, cr_cronStop := True\<rparr>)"
| CDrained: "cr_pc r = CoreDraining \<Longrightarrow> cr_wg r = 0 \<Longrightarrow> core_step False r (r\<lparr>cr_pc := CoreReturned\<rparr>)"
| CLoop: "i < length (cr_loops r) \<Longrightarrow> loop_step (cr_ctx_done r \<or> cr_cronStop r) (cr_loops r ! i) c \<Longrightarrow>
    core_step (loop_tick (cr_loops r ! i) c) r
      (r\<lparr>cr_loops := (cr_loops r)[i := c], cr_wg := cr_wg r - (if c = LoopReturned then 1 else 0)\<rparr>)"

definition Core_Shutdown :: "core_run \<Rightarrow> core_run" where
  "Core_Shutdown r = r\<lparr>cr_stopped := True\<rparr>"

text \<open>The context given to \<open>Start\<close> is cancelled.\<close>

definition core_cancel :: "core_run \<Rightarrow> core_run" where
  "core_cancel r = r\<lparr>cr_ctx_done := True\<rparr>"

inductive core_reach :: "core_run \<Rightarrow> bool" where
  init: "core_reach core_init"
| step: "core_reach r \<Longrightarrow> core_step t r r' \<Longrightarrow> core_reach r'"
| shutdown: "core_reach r \<Longrightarrow> core_reach (Core_Shutdown r)"
| cancel: "core_reach r \<Longrightarrow> core_reach (core_cancel r)"

inductive core_steps :: "bool list \<Rightarrow> core_run \<Rightarrow> core_run \<Rightarrow> bool" where
  none: "core_steps [] r r"
| more: "core_step t r r' \<Longrightarrow> core_steps ts r' r'' \<Longrightarrow> core_steps (t # ts) r r''"

fun loop_cost :: "loop_pc \<Rightarrow> nat" where
  "loop_cost AtSelect = 1"
| "loop_cost InBody = 2"
| "loop_cost LoopReturned = 0"

interpretation loops: stoppable loop_step LoopReturned loop_tick loop_cost
proof
  show "\<exists>c'. loop_step True c c' \<and> \<not> loop_tick c c'" if "c \<noteq> LoopReturned" for c
  proof (cases c)
    case AtSelect
    then show ?thesis by (intro exI [of _ LoopReturned]) (simp add: loop_step.intros)
  next
    case InBody
    then show ?thesis by (intro exI [of _ AtSelect]) (simp add: loop_step.intros)
  qed (use that in simp)
qed auto

end
