(* ===== verification/Lifecycle_Facts.thy ===== *)
theory Lifecycle_Facts
  imports Lifecycle
begin

text \<open>What holds while the pool and the scheduler core start, run and stop.\<close>

section \<open>The worker pool\<close>

text \<open>
  The wait group counts the workers that have not returned and those still to be launched; a worker
  returns only after \<open>Shutdown\<close>.
\<close>

definition counted :: "Config \<Rightarrow> pool_run \<Rightarrow> bool" where
  "counted cfg r \<longleftrightarrow> int (length (pr_workers r)) \<le> Concurrency cfg \<and>
     pr_wg r = int (workers.running (pr_workers r)) + (Concurrency cfg - int (length (pr_workers r)))"

definition pool_inv :: "Config \<Rightarrow> pool_run \<Rightarrow> bool" where
  "pool_inv cfg r \<longleftrightarrow>
     (case pr_pc r of
        NotStarted \<Rightarrow> pr_workers r = [] \<and> pr_wg r = 0 \<and> \<not> pr_beating r \<and> pr_active r = 0
      | Launching \<Rightarrow> counted cfg r \<and> pr_active r = 0
      | Serving \<Rightarrow> counted cfg r \<and> int (length (pr_workers r)) = Concurrency cfg \<and> pr_active r = 1
      | Draining \<Rightarrow> counted cfg r \<and> int (length (pr_workers r)) = Concurrency cfg \<and> pr_active r = 0 \<and> pr_stopped r
      | StartReturned g \<Rightarrow> counted cfg r \<and> int (length (pr_workers r)) = Concurrency cfg \<and> pr_active r = 0 \<and>
          pr_stopped r \<and> \<not> pr_beating r \<and> (g \<longrightarrow> pr_wg r = 0)
      | Panicked \<Rightarrow> Concurrency cfg < 0 \<or> sint (HeartbeatInterval cfg) \<le> 0) \<and>
     (Returned \<in> set (pr_workers r) \<longrightarrow> pr_stopped r)"

lemma counted_other [simp]:
  "counted cfg (r\<lparr>pr_pc := pc\<rparr>) = counted cfg r" "counted cfg (r\<lparr>pr_stopped := b\<rparr>) = counted cfg r"
  "counted cfg (r\<lparr>pr_active := n\<rparr>) = counted cfg r" "counted cfg (r\<lparr>pr_beating := b\<rparr>) = counted cfg r"
  "counted cfg (r\<lparr>pr_pc := pc, pr_active := n\<rparr>) = counted cfg r"
  "counted cfg (r\<lparr>pr_pc := pc, pr_beating := b\<rparr>) = counted cfg r"
  by (simp_all add: counted_def)

lemma counted_begin: "pr_workers r = [] \<Longrightarrow> pr_wg r = 0 \<Longrightarrow> 0 \<le> Concurrency cfg \<Longrightarrow>
    counted cfg (r\<lparr>pr_pc := pc, pr_beating := b, pr_wg := Concurrency cfg\<rparr>)"
  by (simp add: counted_def workers.running_def)

lemma counted_launch: "counted cfg r \<Longrightarrow> int (length (pr_workers r)) < Concurrency cfg \<Longrightarrow>
    counted cfg (r\<lparr>pr_workers := pr_workers r @ [AtTop poll]\<rparr>)"
  by (simp add: counted_def)

lemma counted_worker:
  assumes "counted cfg r" "i < length (pr_workers r)" "worker_step cfg b (pr_workers r ! i) c"
  shows "counted cfg (r\<lparr>pr_workers := (pr_workers r)[i := c], pr_wg := pr_wg r - (if c = Returned then 1 else 0)\<rparr>)"
  using assms(1) workers.running_update [OF assms(2,3)] by (auto simp: counted_def)

lemma pool_inv_worker:
  assumes "pool_inv cfg r" "pr_pc r \<noteq> Panicked" "i < length (pr_workers r)"
    and "worker_step cfg (pr_stopped r) (pr_workers r ! i) c"
  shows "pool_inv cfg (r\<lparr>pr_workers := (pr_workers r)[i := c], pr_wg := pr_wg r - (if c = Returned then 1 else 0)\<rparr>)"
    (is "pool_inv cfg ?r")
proof -
  note cnt = counted_worker [OF _ assms(3,4)]
  have "c = Returned \<Longrightarrow> pr_stopped r" using assms(4) workers.returns_on_stop by auto
  then have stop: "Returned \<in> set (pr_workers ?r) \<Longrightarrow> pr_stopped ?r"
    using assms(1) set_update_subset_insert [of "pr_workers r" i c] by (auto simp: pool_inv_def)
  show ?thesis
  proof (cases "pr_pc r")
    case (StartReturned g)
    have "pr_wg ?r = 0" if g
    proof -
      have wg: "pr_wg r = 0" "counted cfg r" "int (length (pr_workers r)) = Concurrency cfg"
        using assms(1) StartReturned that by (simp_all add: pool_inv_def)
      then have "workers.running (pr_workers r) = 0" by (simp add: counted_def)
      with workers.running_update [OF assms(3,4)] wg(1) show ?thesis by (simp split: if_splits)
    qed
    then show ?thesis using assms(1) StartReturned cnt stop by (simp add: pool_inv_def)
  qed (use assms(1-3) cnt stop in \<open>simp_all add: pool_inv_def\<close>)
qed

lemma pool_inv_step: "pool_step cfg r r' \<Longrightarrow> pool_inv cfg r \<Longrightarrow> pool_inv cfg r'"
proof (induction rule: pool_step.induct)
  case (Worker r i c)
  then show ?case by (intro pool_inv_worker)
next
  case (Launched r)
  then show ?case by (simp add: pool_inv_def) (simp add: counted_def)
qed (simp_all add: pool_inv_def counted_begin counted_launch)

lemma pool_reach_inv: "pool_reach cfg r \<Longrightarrow> pool_inv cfg r"
proof (induction rule: pool_reach.induct)
  case init
  show ?case by (simp add: pool_inv_def pool_init_def)
next
  case (step r r')
  then show ?case by (blast intro: pool_inv_step)
next
  case (shutdown r)
  then show ?case by (cases "pr_pc r") (simp_all add: pool_inv_def Pool_Shutdown_def)
qed

text \<open>How many steps are left at most once the channel is closed.\<close>

fun start_rank :: "start_pc \<Rightarrow> nat" where
  "start_rank Launching = 3"
| "start_rank Serving = 2"
| "start_rank Draining = 1"
| "start_rank _ = 0"

definition pool_cost :: "Config \<Rightarrow> pool_run \<Rightarrow> nat" where
  "pool_cost cfg r =
     2 * (nat (Concurrency cfg) - length (pr_workers r)) + workers.total_cost (pr_workers r) + start_rank (pr_pc r)"

definition stopping :: "Config \<Rightarrow> pool_run \<Rightarrow> bool" where
  "stopping cfg r \<longleftrightarrow> pool_inv cfg r \<and> pr_stopped r \<and> pr_pc r \<noteq> NotStarted \<and> pr_pc r \<noteq> Panicked"

lemma stopping_step:
  assumes "pool_step cfg r r'" "stopping cfg r" "0 < sint (HeartbeatInterval cfg)"
  shows "stopping cfg r' \<and> pool_cost cfg r' < pool_cost cfg r"
proof
  have "pr_stopped r' = pr_stopped r" "pr_pc r' \<noteq> NotStarted \<and> pr_pc r' \<noteq> Panicked"
    using assms by (auto elim!: pool_step.cases simp: stopping_def)
  then show "stopping cfg r'" using assms pool_inv_step [of cfg r r'] by (auto simp: stopping_def)
  show "pool_cost cfg r' < pool_cost cfg r"
    using assms(1)
  proof cases
    case (Worker i c)
    have "worker_step cfg True (pr_workers r ! i) c" using Worker assms(2) by (simp add: stopping_def)
    from workers.stop_total_cost [OF Worker(3) this] show ?thesis using Worker(1) by (simp add: pool_cost_def)
  qed (use assms(2,3) in \<open>auto simp: stopping_def pool_cost_def\<close>)
qed

lemma stopping_run:
  assumes "(pool_step cfg ^^ n) r r'" "stopping cfg r" "0 < sint (HeartbeatInterval cfg)"
  shows "stopping cfg r' \<and> n + pool_cost cfg r' \<le> pool_cost cfg r"
  using assms(1)
proof (induction n arbitrary: r')
  case 0
  then show ?case using assms(2) by simp
next
  case (Suc n)
  from Suc.prems obtain q where q: "(pool_step cfg ^^ n) r q" "pool_step cfg q r'" by (rule relpowp_Suc_E)
  from Suc.IH [OF q(1)] stopping_step [OF q(2) _ assms(3)] show ?case by fastforce
qed

lemma worker_cost_bound: "workers.total_cost cs \<le> 3 * length cs"
proof (induction cs)
  case (Cons c cs)
  moreover have "worker_cost c \<le> 3" by (cases c) auto
  ultimately show ?case by (simp add: workers.total_cost_def)
qed (simp add: workers.total_cost_def)

lemma pool_cost_bound: "stopping cfg r \<Longrightarrow> pool_cost cfg r \<le> 3 * nat (Concurrency cfg) + 3"
proof -
  assume s: "stopping cfg r"
  have "start_rank (pr_pc r) \<le> 3" by (cases "pr_pc r") auto
  moreover have "length (pr_workers r) \<le> nat (Concurrency cfg)" using s by (cases "pr_pc r") (auto simp: stopping_def pool_inv_def counted_def)
  ultimately show ?thesis using worker_cost_bound [of "pr_workers r"] by (simp add: pool_cost_def)
qed

text \<open>A stopping pool can go on until everything has returned.\<close>

lemma stopping_end:
  assumes "stopping cfg r" "\<nexists>r'. pool_step cfg r r'"
  shows "(\<exists>g. pr_pc r = StartReturned g) \<and> (\<forall>c \<in> set (pr_workers r). c = Returned) \<and>
    int (length (pr_workers r)) = Concurrency cfg"
proof -
  have pc: "\<exists>g. pr_pc r = StartReturned g"
  proof (cases "pr_pc r")
    case Launching
    then show ?thesis using assms(2) pool_step.Launch [of r cfg] pool_step.Launched [of r cfg] by fastforce
  next
    case Serving
    then show ?thesis using assms pool_step.Stop_seen [of r cfg] by (auto simp: stopping_def)
  next
    case Draining
    then show ?thesis using assms(2) pool_step.Drain_timeout [of r cfg] by auto
  qed (use assms(1) in \<open>auto simp: stopping_def\<close>)
  have "workers.running (pr_workers r) = 0"
  proof (rule ccontr)
    assume "workers.running (pr_workers r) \<noteq> 0"
    from workers.group_can_stop [OF this, of cfg] assms(1) obtain i c
      where "i < length (pr_workers r)" "worker_step cfg (pr_stopped r) (pr_workers r ! i) c"
      by (auto simp: stopping_def)
    with assms show False using pool_step.Worker [of r i cfg c] by (auto simp: stopping_def)
  qed
  then show ?thesis using pc assms(1) by (auto simp: workers.running_0 stopping_def pool_inv_def)
qed

section \<open>The scheduler core\<close>

definition core_inv :: "core_run \<Rightarrow> bool" where
  "core_inv r \<longleftrightarrow> cr_wg r = int (loops.running (cr_loops r)) \<and>
     (case cr_pc r of
        CoreNotStarted \<Rightarrow> cr_loops r = []
      | CoreLaunching \<Rightarrow> length (cr_loops r) \<le> 3
      | CoreServing \<Rightarrow> length (cr_loops r) = 3
      | CoreDraining \<Rightarrow> length (cr_loops r) = 3 \<and> cr_cronStop r \<and> cr_stopped r
      | CoreReturned \<Rightarrow> length (cr_loops r) = 3 \<and> cr_stopped r \<and> loops.running (cr_loops r) = 0)"

lemma core_inv_step: "core_step t r r' \<Longrightarrow> core_inv r \<Longrightarrow> core_inv r'"
proof (induction rule: core_step.induct)
  case (CLoop i r c)
  have run: "loops.running ((cr_loops r)[i := c]) + (if c = LoopReturned then 1 else 0) = loops.running (cr_loops r)"
    by (rule loops.running_update [OF CLoop.hyps])
  then have "int (loops.running ((cr_loops r)[i := c])) = int (loops.running (cr_loops r)) - (if c = LoopReturned then 1 else 0)"
    by (simp split: if_splits)
  with run CLoop.prems show ?case by (cases "cr_pc r") (simp_all add: core_inv_def split: if_splits)
qed (simp_all add: core_inv_def loops.running_def)

lemma core_reach_inv: "core_reach r \<Longrightarrow> core_inv r"
proof (induction rule: core_reach.induct)
  case init
  show ?case by (simp add: core_inv_def core_init_def loops.running_def)
next
  case (step r t r')
  then show ?case by (blast intro: core_inv_step)
next
  case (shutdown r)
  then show ?case by (cases "cr_pc r") (simp_all add: core_inv_def Core_Shutdown_def)
next
  case (cancel r)
  then show ?case by (cases "cr_pc r") (simp_all add: core_inv_def core_cancel_def)
qed

text \<open>Cancelling the context stops the loops, but \<open>Start\<close> waits for \<open>Shutdown\<close>.\<close>

lemma core_start_waits_for_shutdown: "core_reach r \<Longrightarrow> cr_pc r = CoreReturned \<Longrightarrow> cr_stopped r"
  using core_reach_inv [of r] by (simp add: core_inv_def)

fun core_rank :: "core_pc \<Rightarrow> nat" where
  "core_rank CoreLaunching = 3"
| "core_rank CoreServing = 2"
| "core_rank CoreDraining = 1"
| "core_rank _ = 0"

definition core_cost :: "core_run \<Rightarrow> nat" where
  "core_cost r = 2 * (3 - length (cr_loops r)) + loops.total_cost (cr_loops r) + core_rank (cr_pc r)"

definition core_stopping :: "core_run \<Rightarrow> bool" where
  "core_stopping r \<longleftrightarrow> core_inv r \<and> cr_stopped r \<and> cr_pc r \<noteq> CoreNotStarted"

lemma loop_step_mono: "loop_step b c c' \<Longrightarrow> loop_step True c c'"
  by (auto intro: loop_step.intros)

lemma core_stopping_step:
  assumes "core_step t r r'" "core_stopping r"
  shows "core_stopping r' \<and> 1 + core_cost r' \<le> core_cost r + (if t then 2 else 0)"
proof
  have "cr_stopped r' = cr_stopped r" "cr_pc r' \<noteq> CoreNotStarted"
    using assms by (auto elim!: core_step.cases simp: core_stopping_def)
  then show "core_stopping r'" using assms core_inv_step [of t r r'] by (auto simp: core_stopping_def)
  show "1 + core_cost r' \<le> core_cost r + (if t then 2 else 0)"
    using assms(1)
  proof cases
    case (CLoop i c)
    show ?thesis
    proof (cases t)
      case True
      with loops.tick_total_cost [OF CLoop(3,4)] CLoop(1,2) show ?thesis by (simp add: core_cost_def)
    next
      case False
      with loops.stop_total_cost [OF CLoop(3) loop_step_mono [OF CLoop(4)]] CLoop(1,2) show ?thesis
        by (simp add: core_cost_def)
    qed
  qed (use assms(2) in \<open>auto simp: core_stopping_def core_cost_def\<close>)
qed

lemma core_stopping_run:
  "core_steps ts r r' \<Longrightarrow> core_stopping r \<Longrightarrow>
     core_stopping r' \<and> length ts + core_cost r' \<le> core_cost r + 2 * count_list ts True"
proof (induction rule: core_steps.induct)
  case (more t r r' ts r'')
  from core_stopping_step [OF more.hyps(1) more.prems] more.IH show ?case by (auto split: if_splits)
qed simp

lemma core_cost_bound: "core_stopping r \<Longrightarrow> core_cost r \<le> 9"
proof -
  assume s: "core_stopping r"
  have "loops.total_cost cs \<le> 2 * length cs" for cs
  proof (induction cs)
    case (Cons c cs)
    moreover have "loop_cost c \<le> 2" by (cases c) auto
    ultimately show ?case by (simp add: loops.total_cost_def)
  qed (simp add: loops.total_cost_def)
  from this [of "cr_loops r"] show ?thesis
    using s by (cases "cr_pc r") (auto simp: core_cost_def core_stopping_def core_inv_def)
qed

lemma core_stopping_enabled:
  assumes "core_stopping r" "cr_pc r \<noteq> CoreReturned"
  shows "\<exists>r'. core_step False r r'"
proof (cases "cr_pc r")
  case CoreLaunching
  then have "length (cr_loops r) < 3 \<or> length (cr_loops r) = 3" using assms(1) by (auto simp: core_stopping_def core_inv_def)
  then show ?thesis using CoreLaunching core_step.CLaunch core_step.CLaunched by blast
next
  case CoreServing
  then show ?thesis using assms(1) core_step.CStop_seen by (auto simp: core_stopping_def)
next
  case CoreDraining
  show ?thesis
  proof (cases "loops.running (cr_loops r) = 0")
    case True
    then have "cr_wg r = 0" using assms(1) by (simp add: core_stopping_def core_inv_def)
    with CoreDraining show ?thesis using core_step.CDrained by blast
  next
    case False
    from loops.group_can_stop [OF this] obtain i c where
      c: "i < length (cr_loops r)" "loop_step True (cr_loops r ! i) c" "\<not> loop_tick (cr_loops r ! i) c" by (elim exE conjE)
    moreover have "cr_cronStop r" using assms(1) CoreDraining by (simp add: core_stopping_def core_inv_def)
    ultimately show ?thesis using core_step.CLoop [of i r c] by auto
  qed
qed (use assms in \<open>simp_all add: core_stopping_def\<close>)

section \<open>Properties\<close>

text \<open>
  C16: with a concurrency that is not negative and a positive heartbeat interval, the pool does not panic
  while it starts and stops; the wait group always counts the workers that run or are still to be
  launched; no worker returns before \<open>Shutdown\<close>; the gauge shows the pool active exactly while it
  serves; and \<open>Start\<close> returns only after \<open>Shutdown\<close>, with the heartbeat cancelled and, unless the thirty
  seconds had passed, every worker returned.
\<close>

theorem pool_lifecycle:
  assumes "pool_reach cfg r" "0 \<le> Concurrency cfg" "0 < sint (HeartbeatInterval cfg)"
  shows "pr_pc r \<noteq> Panicked \<and>
    (pr_pc r \<noteq> NotStarted \<longrightarrow>
       pr_wg r = int (length (filter (\<lambda>c. c \<noteq> Returned) (pr_workers r))) + (Concurrency cfg - int (length (pr_workers r)))) \<and>
    (Returned \<in> set (pr_workers r) \<longrightarrow> pr_stopped r) \<and>
    pr_active r = (if pr_pc r = Serving then 1 else 0) \<and>
    (\<forall>graceful. pr_pc r = StartReturned graceful \<longrightarrow> pr_stopped r \<and> \<not> pr_beating r \<and>
       int (length (pr_workers r)) = Concurrency cfg \<and> (graceful \<longrightarrow> (\<forall>c \<in> set (pr_workers r). c = Returned)))"
proof -
  have inv: "pool_inv cfg r" by (rule pool_reach_inv [OF assms(1)])
  have "(\<forall>c \<in> set (pr_workers r). c = Returned)" if "pr_pc r = StartReturned True"
  proof -
    have "workers.running (pr_workers r) = 0" using inv that by (simp add: pool_inv_def counted_def)
    then show ?thesis by (simp add: workers.running_0)
  qed
  then show ?thesis
    using inv assms(2,3) by (cases "pr_pc r") (auto simp: pool_inv_def counted_def workers.running_def)
qed

definition one_worker :: Config where
  "one_worker = (DefaultConfig ''host'' 7)\<lparr>Concurrency := 1\<rparr>"

lemma one_worker_starts: "pool_reach one_worker
    (pool_init\<lparr>pr_pc := Launching, pr_beating := True, pr_wg := 1, pr_stopped := True\<rparr>)"
  using pool_reach.shutdown [OF pool_reach.step [OF pool_reach.init pool_step.Begin [of pool_init one_worker]]]
  by (simp add: pool_init_def one_worker_def Pool_Shutdown_def)

lemma one_worker_intervals: "0 \<le> Concurrency one_worker" "0 < sint (HeartbeatInterval one_worker)"
  by (simp add: one_worker_def) code_simp

lemma pool_lifecycle_witness:
  "pr_wg (pool_init\<lparr>pr_pc := Launching, pr_beating := True, pr_wg := 1, pr_stopped := True\<rparr>) =
     int (length (filter (\<lambda>c. c \<noteq> Returned) [])) + (Concurrency one_worker - 0)"
  using pool_lifecycle [OF one_worker_starts one_worker_intervals] by (simp add: pool_init_def)

text \<open>
  C15: once \<open>Start\<close> has been called and \<open>Shutdown\<close> too, the pool comes to an end, whatever the order in which
  the goroutines run: it makes at most three steps for each worker and three more, and when none is left
  \<open>Start\<close> has returned and all the workers have. So a worker takes at most one more job after the channel
  is closed.
\<close>

theorem pool_shutdown_terminates:
  assumes "pool_reach cfg r" "pr_stopped r" "pr_pc r \<noteq> NotStarted"
    and "0 \<le> Concurrency cfg" "0 < sint (HeartbeatInterval cfg)" "(pool_step cfg ^^ n) r r'"
  shows "n \<le> 3 * nat (Concurrency cfg) + 3 \<and>
    ((\<exists>r''. pool_step cfg r' r'') \<or>
     (\<exists>graceful. pr_pc r' = StartReturned graceful) \<and> (\<forall>c \<in> set (pr_workers r'). c = Returned) \<and>
       int (length (pr_workers r')) = Concurrency cfg)"
proof -
  have inv: "pool_inv cfg r" by (rule pool_reach_inv [OF assms(1)])
  then have "pr_pc r \<noteq> Panicked" using assms(4,5) by (auto simp: pool_inv_def)
  with inv have st: "stopping cfg r" using assms(2,3) by (simp add: stopping_def)
  from stopping_run [OF assms(6) st assms(5)] pool_cost_bound [OF st] stopping_end [of cfg r'] show ?thesis
    by auto
qed

lemma pool_shutdown_terminates_witness:
  "\<exists>r. pool_step one_worker (pool_init\<lparr>pr_pc := Launching, pr_beating := True, pr_wg := 1, pr_stopped := True\<rparr>) r"
  using pool_shutdown_terminates [OF one_worker_starts _ _ one_worker_intervals, of 0] by (simp add: pool_init_def)

text \<open>
  C31: once \<open>Start\<close> of the core has been called and \<open>Shutdown\<close> too, the core makes at most nine steps and two for
  every ticker that still wins against the closed channel; until \<open>Start\<close> returns a step other than a
  tick is possible, and when it returns its three loops have returned.
\<close>

theorem core_shutdown_terminates:
  assumes "core_reach r" "cr_stopped r" "cr_pc r \<noteq> CoreNotStarted" "core_steps ts r r'"
  shows "length ts \<le> 9 + 2 * count_list ts True \<and>
    (if cr_pc r' = CoreReturned then cr_loops r' = replicate 3 LoopReturned else \<exists>r''. core_step False r' r'')"
proof -
  have "core_stopping r" using assms(1-3) by (simp add: core_stopping_def core_reach_inv)
  then have st: "core_stopping r'" "length ts \<le> 9 + 2 * count_list ts True"
    using core_stopping_run [OF assms(4)] core_cost_bound [of r] by auto
  show ?thesis
  proof (cases "cr_pc r' = CoreReturned")
    case True
    with st(1) have "length (cr_loops r') = 3" "\<forall>c \<in> set (cr_loops r'). c = LoopReturned"
      by (simp_all add: core_stopping_def core_inv_def loops.running_0 [symmetric])
    then have "cr_loops r' = replicate 3 LoopReturned" by (metis replicate_length_same)
    with True st(2) show ?thesis by simp
  qed (use st core_stopping_enabled in auto)
qed

lemma core_shutdown_terminates_witness:
  "\<exists>r. core_step False (core_init\<lparr>cr_pc := CoreLaunching, cr_stopped := True\<rparr>) r"
proof -
  have "core_reach (core_init\<lparr>cr_pc := CoreLaunching, cr_stopped := True\<rparr>)"
    using core_reach.shutdown [OF core_reach.step [OF core_reach.init core_step.CBegin [of core_init]]]
    by (simp add: core_init_def Core_Shutdown_def)
  from core_shutdown_terminates [OF this _ _ core_steps.none] show ?thesis by (simp add: core_init_def)
qed

end
