(* ===== verification/Spec2Isabelle.thy ===== *)
theory Spec2Isabelle
  imports Retry Circuit_Breaker Pg_Views Api_Facts Handler_Facts Recovery_Facts Processes
begin

text \<open>
  Verification of the distributed task scheduler: a scheduler process that accepts jobs over HTTP, keeps
  them in PostgreSQL and queues them in Redis, and worker processes that take jobs from the queue and
  run them.

  \<^bold>\<open>Parts and theories.\<close> Files are below \<open>src/\<close>.

  \<^item> \<open>Prelude\<close>: results (\<open>Ret\<close>, \<open>Err\<close>, \<open>Panic\<close>), 64-bit durations, times, and what the code uses of the Go
    standard library (\<open>strconv.Atoi\<close>, \<open>strings.Split\<close> and the like).
  \<^item> \<open>Job_Model\<close>, \<open>Job_Json\<close>: \<open>internal/models/job.go\<close>. The structs are records with the field names
    prefixed, the errors a datatype; the JSON form follows the struct tags.
  \<^item> \<open>Retry\<close>, \<open>Circuit_Breaker\<close>: \<open>internal/retry/retry.go\<close>. The breaker's calls step between its states;
    the channel used as a mutex is a flag of each call, since a busy mutex makes the call do nothing.
  \<^item> \<open>Cron\<close>: \<open>ParseCron\<close> and \<open>matchCronField\<close> of \<open>internal/scheduler/scheduler.go\<close>, with the UTC calendar.
  \<^item> \<open>Redis_Server\<close>: what the code relies on of Redis and its client. A server is a parameter, a record of
    one function per command; the locales \<open>redis_server\<close> (any answer may be lost, other clients may
    act between commands) and \<open>redis_isolated\<close> (an undisturbed server) state its documented laws over
    a view of its key space, and \<open>mem_redis\<close> and a lossy server interpret them.
  \<^item> \<open>Redis_Keys\<close>, \<open>Redis_Queue\<close>, \<open>Queue_Facts\<close>, \<open>Queue_Recovery\<close>: \<open>internal/queue/redis.go\<close>. The Lua scripts
    and the methods are the sequences of commands they send, a script without others in between.
    \<open>queue_of\<close> abstracts the key space to ready lists by priority, delayed, in-flight and dead jobs and
    their documents; the locales \<open>job_queue\<close> and \<open>recovering_queue\<close> are the contract on that level.
  \<^item> \<open>Redis_Lock\<close>: \<open>internal/lock/redis_lock.go\<close>, with the self-extending lock.
  \<^item> \<open>Pg_Store\<close>, \<open>Store_Facts\<close>: \<open>internal/store/postgres.go\<close> and \<open>migrations/001_init.sql\<close>. A statement is
    a value; its meaning \<open>pg_step\<close> follows the SQL text, the constraints and the triggers of the schema.
    The database is a parameter with the locales \<open>pg_server\<close> and \<open>postgres\<close>, and \<open>job_store\<close> is the
    contract the scheduler relies on.
  \<^item> \<open>Pg_Views\<close>: the monitoring views of \<open>migrations/001_init.sql\<close>.
  \<^item> \<open>Metrics\<close>: \<open>internal/metrics/prometheus.go\<close>, the values of the instruments.
  \<^item> \<open>System\<close>: the state the processes share (Redis, PostgreSQL, metrics), the flow of control of a method
    with early returns, and the locale \<open>deployment\<close> of both servers.
  \<^item> \<open>Scheduler_Core\<close>, \<open>Core_Facts\<close>: the methods and background loops of \<open>Core\<close> in
    \<open>internal/scheduler/scheduler.go\<close>, over any queue, store and locker.
  \<^item> \<open>Http_Api\<close>, \<open>Api_Facts\<close>: \<open>internal/scheduler/api.go\<close>, from the values a handler reads of the request
    to its answer and the entry of the access log; the renderer is a parameter with the locale
    \<open>rendering\<close>.
  \<^item> \<open>Worker_Handlers\<close>, \<open>Handler_Facts\<close>: \<open>internal/worker/handler.go\<close>. The HTTP client is a parameter.
  \<^item> \<open>Worker_Pool\<close>, \<open>Pool_Facts\<close>: \<open>internal/worker/pool.go\<close>, a worker turn by turn.
  \<^item> \<open>Lifecycle\<close>, \<open>Lifecycle_Facts\<close>: \<open>Start\<close> and \<open>Shutdown\<close> of \<open>Core\<close> and \<open>Pool\<close> with the goroutines they launch,
    as step relations on points of control; the locale \<open>stoppable\<close> is what the goroutines have in common,
    and the turns of \<open>Worker_Pool\<close> are shown to follow the relation.
  \<^item> \<open>Recovery_Facts\<close>: the reclaim loop of the scheduler and the workers together.
  \<^item> \<open>Processes\<close>: \<open>cmd/worker/main.go\<close> and \<open>cmd/scheduler/main.go\<close>: the environment, with
    \<open>time.ParseDuration\<close>, the constructors that connect to Redis and PostgreSQL, and the running processes
    as step relations with the goroutine that waits for signals (\<open>process_step\<close>); the locale \<open>signalled\<close> is
    what both components offer it.

  \<^bold>\<open>What is shown.\<close>

  \<^item> The queue refines an abstract queue, delivers by priority in order of arrival, keeps its key space well
    formed and loses no job while jobs are delivered, retried and buried, whatever other clients and
    the connection do. Where it deviates from what it means to do (a pending job is never retried, a
    retried one stays in flight, a lost answer duplicates a job, a read error drops one) the deviation
    is a theorem.
  \<^item> \<open>ReclaimOrphaned\<close> brings exactly the entries past the limit back, and with it a job whose worker died is
    finished by another; but a job that merely runs long is delivered twice.
  \<^item> The lock excludes, every call has its exact result and effect, the self-extending lock lives as long
    as it is renewed, and \<open>TryAcquire\<close> ends.
  \<^item> The store keeps its audit trail, updates and pages exactly, gives back what was written once a worker
    has touched the job, refuses jobs without a cron expression, and its statistics and views agree.
  \<^item> \<open>ParseCron\<close> finds the least matching minute and finds it if there is one within its bound.
  \<^item> The retry executor, the delays and the circuit breaker behave as configured, up to the overflow of
    a 64-bit duration.
  \<^item> Across components: the delayed jobs are moved by one scheduler at a time, a worker empties the queue
    and every job ends in its row and in the queue, a failed run loses its message, a manual retry
    takes exactly terminal jobs, cron jobs never fire, and every request is answered with a known code
    and logged with it.
  \<^item> After \<open>Shutdown\<close> the pool and the core come to an end in every interleaving of their goroutines, in a
    bounded number of steps apart from ticks that still win a \<open>select\<close>. A signal thus ends the worker
    process with code 0, but not the scheduler process, which stays in \<open>server.Start\<close>.

  \<^bold>\<open>Bounds.\<close> Loops over data are structural. \<open>ParseCron\<close> is given the source's own bound of 366 days of
  minutes. Loops that wait for the outside (a worker, the tickers, \<open>TryAcquire\<close>, \<open>autoExtend\<close>) take the
  list of what they meet, one entry per turn, so that a statement about them says how many turns are
  enough. Durations are 64-bit words; times are nanoseconds as integers, since \<open>time.Time\<close> does not
  wrap in the range that can be encoded. Go's \<open>int\<close> in job fields is an integer, restricted where
  it is decoded.

  \<^bold>\<open>Not modelled.\<close> The messages written to the log; closing connections and creating loggers for the
  components, which only call libraries; the Prometheus registry and its page; routing, rendering and
  listening, which are \<open>chi\<close>, \<open>go-chi/render\<close> and \<open>net/http\<close>. \<open>ReclaimOrphaned\<close> is missing in the \<open>Queue\<close>
  interface of the source although the scheduler calls it through that interface; the model has it there.
\<close>

end
